(* ===== verification/Prelude.thy ===== *)
theory Prelude
  imports Complex_Main "HOL-Library.Word" "HOL-Library.Char_ord" "HOL-Library.List_Lexorder"
    "HOL-Library.Multiset"
begin

unbundle bit_operations_syntax

text \<open>
  Shared vocabulary of the development: names for the Go types the model uses, the loop
  combinators that Go's \<open>for ... { ...; if err != nil { return nil, err } }\<close> loops become, the
  index maps (\<open>map[K][]V\<close> filled by appending) that several components build, and the lemma
  collections the component theories extend.

  A Go function that returns \<open>(T, error)\<close> is modelled with result type \<open>'e + 'a\<close>: \<open>Inl e\<close> is a
  non-nil error and \<open>Inr x\<close> the value. A Go \<open>string\<close> and a Go \<open>[]byte\<close> are both \<^typ>\<open>string\<close>:
  a list of bytes.
\<close>

type_synonym i64 = "64 word"
type_synonym u64 = "64 word"
type_synonym bytes = string

named_theorems go_split "case splits of result and option values used throughout"
named_theorems model_defs "definitions of operations to unfold when an operation is analysed"

section \<open>Results\<close>

definition is_ok :: "'e + 'a \<Rightarrow> bool" where
  "is_ok r = (case r of Inl _ \<Rightarrow> False | Inr _ \<Rightarrow> True)"

lemma is_ok_simps [simp]: "is_ok (Inr x)" "\<not> is_ok (Inl e)"
  by (simp_all add: is_ok_def)

lemma is_ok_iff: "is_ok r \<longleftrightarrow> (\<exists>x. r = Inr x)"
  by (cases r) auto

lemmas [go_split] = sum.splits option.splits if_splits prod.splits

text \<open>\<^verbatim>\<open>x, err := r; if err != nil { return err }; ...\<close>\<close>

definition bindE :: "'e + 'a \<Rightarrow> ('a \<Rightarrow> 'e + 'b) \<Rightarrow> 'e + 'b" where
  "bindE r f = (case r of Inl e \<Rightarrow> Inl e | Inr x \<Rightarrow> f x)"

lemma bindE_simps [simp]: "bindE (Inl e) f = Inl e" "bindE (Inr x) f = f x"
  by (simp_all add: bindE_def)

lemma bindE_Inr_iff: "bindE r f = Inr y \<longleftrightarrow> (\<exists>x. r = Inr x \<and> f x = Inr y)"
  by (cases r) simp_all

lemma bindE_ok: "is_ok (bindE r f) \<longleftrightarrow> (\<exists>x. r = Inr x \<and> is_ok (f x))"
  by (cases r) simp_all

section \<open>Loops that append and may fail\<close>

text \<open>
  \<^verbatim>\<open>for _, x := range xs { ys, err := f(x); if err != nil { return nil, err }; out = append(out, ys...) }\<close>
\<close>

fun appendE :: "('a \<Rightarrow> 'e + 'b list) \<Rightarrow> 'a list \<Rightarrow> 'e + 'b list" where
  "appendE f [] = Inr []"
| "appendE f (x # xs) =
     (case f x of Inl e \<Rightarrow> Inl e
      | Inr ys \<Rightarrow> (case appendE f xs of Inl e \<Rightarrow> Inl e | Inr zs \<Rightarrow> Inr (ys @ zs)))"

lemma appendE_Inr_iff:
  "appendE f xs = Inr out \<longleftrightarrow> (\<forall>x\<in>set xs. is_ok (f x)) \<and> out = concat (map (\<lambda>x. projr (f x)) xs)"
proof (induction xs arbitrary: out)
  case (Cons x xs)
  show ?case
  proof (cases "f x")
    case (Inr ys)
    with Cons.IH show ?thesis by (cases "appendE f xs") auto
  qed simp
qed auto

lemma appendE_Inr:
  "(\<And>x. x \<in> set xs \<Longrightarrow> f x = Inr (g x)) \<Longrightarrow> appendE f xs = Inr (concat (map g xs))"
  by (induction xs) auto

lemma appendE_Inl: "appendE f xs = Inl e \<Longrightarrow> \<exists>x\<in>set xs. f x = Inl e"
  by (induction xs) (auto split: sum.splits)

lemma appendE_InrD:
  "appendE f xs = Inr out \<Longrightarrow> z \<in> set out \<Longrightarrow> \<exists>x\<in>set xs. \<exists>ys. f x = Inr ys \<and> z \<in> set ys"
  by (induction xs arbitrary: out) (auto split: sum.splits)

lemma appendE_ok: "is_ok (appendE f xs) \<longleftrightarrow> (\<forall>x\<in>set xs. is_ok (f x))"
  by (induction xs) (auto simp: is_ok_def split: sum.splits)

lemma appendE_cong:
  "(\<And>x. x \<in> set xs \<Longrightarrow> f x = g x) \<Longrightarrow> appendE f xs = appendE g xs"
  by (induction xs) (simp_all split: sum.splits)

text \<open>Two appending steps in sequence.\<close>

definition seqE :: "'e + 'b list \<Rightarrow> 'e + 'b list \<Rightarrow> 'e + 'b list" where
  "seqE a b = (case a of Inl e \<Rightarrow> Inl e
     | Inr xs \<Rightarrow> (case b of Inl e \<Rightarrow> Inl e | Inr ys \<Rightarrow> Inr (xs @ ys)))"

lemma seqE_simps [simp]:
  "seqE (Inl e) b = Inl e" "seqE (Inr xs) (Inl e) = Inl e" "seqE (Inr xs) (Inr ys) = Inr (xs @ ys)"
  by (simp_all add: seqE_def)

lemma seqE_Inr_iff:
  "seqE a b = Inr out \<longleftrightarrow> (\<exists>xs ys. a = Inr xs \<and> b = Inr ys \<and> out = xs @ ys)"
  by (cases a; cases b) auto

lemma seqE_ok [simp]: "is_ok (seqE a b) \<longleftrightarrow> is_ok a \<and> is_ok b"
  by (cases a; cases b) auto

lemma seqE_assoc: "seqE (seqE a b) c = seqE a (seqE b c)"
  by (cases a; cases b; cases c) auto

text \<open>Checks that run over a list and stop at the first error (\<open>validateInputs\<close> style).\<close>

fun checkE :: "(nat \<Rightarrow> 'a \<Rightarrow> 'e option) \<Rightarrow> nat \<Rightarrow> 'a list \<Rightarrow> 'e option" where
  "checkE f i [] = None"
| "checkE f i (x # xs) = (case f i x of Some e \<Rightarrow> Some e | None \<Rightarrow> checkE f (Suc i) xs)"

lemma checkE_None: "checkE f i xs = None \<longleftrightarrow> (\<forall>k<length xs. f (i + k) (xs ! k) = None)"
proof (induction xs arbitrary: i)
  case Nil
  then show ?case by simp
next
  case (Cons x xs)
  have "(\<forall>k<length (x # xs). f (i + k) ((x # xs) ! k) = None)
      \<longleftrightarrow> f i x = None \<and> (\<forall>k<length xs. f (Suc i + k) (xs ! k) = None)"
    by (auto simp: less_Suc_eq_0_disj)
  then show ?case using Cons.IH[of "Suc i"] by (auto split: option.splits)
qed

lemma checkE_NoneD: "checkE f i xs = None \<Longrightarrow> x \<in> set xs \<Longrightarrow> \<exists>k. f k x = None"
  by (auto simp: checkE_None in_set_conv_nth)

lemma checkE_SomeD: "checkE f i xs = Some e \<Longrightarrow> \<exists>k<length xs. f (i + k) (xs ! k) = Some e
    \<and> (\<forall>j<k. f (i + j) (xs ! j) = None)"
proof (induction xs arbitrary: i)
  case Nil
  then show ?case by simp
next
  case (Cons x xs)
  show ?case
  proof (cases "f i x")
    case None
    with Cons.prems Cons.IH[of "Suc i"] obtain k where "k < length xs"
      "f (Suc i + k) (xs ! k) = Some e" "\<forall>j<k. f (Suc i + j) (xs ! j) = None" by auto
    with None show ?thesis
      by (intro exI[of _ "Suc k"]) (auto simp: less_Suc_eq_0_disj)
  next
    case (Some e')
    with Cons.prems show ?thesis by (intro exI[of _ 0]) auto
  qed
qed

section \<open>Index maps\<close>

text \<open>
  \<^verbatim>\<open>m := make(map[K][]V); for ... { m[k] = append(m[k], v) }\<close>: reading a missing key of a Go map
  gives the zero value, the nil slice.
\<close>

definition index_add :: "('k \<rightharpoonup> 'v list) \<Rightarrow> 'k \<Rightarrow> 'v \<Rightarrow> ('k \<rightharpoonup> 'v list)" where
  "index_add m k v = m(k \<mapsto> (case m k of None \<Rightarrow> [] | Some vs \<Rightarrow> vs) @ [v])"

fun index_all :: "('k \<rightharpoonup> 'v list) \<Rightarrow> ('k \<times> 'v) list \<Rightarrow> ('k \<rightharpoonup> 'v list)" where
  "index_all m [] = m"
| "index_all m ((k, v) # kvs) = index_all (index_add m k v) kvs"

lemma index_all_lookup:
  "(case index_all m kvs k of None \<Rightarrow> [] | Some vs \<Rightarrow> vs)
   = (case m k of None \<Rightarrow> [] | Some vs \<Rightarrow> vs) @ map snd (filter (\<lambda>kv. fst kv = k) kvs)"
  by (induction m kvs rule: index_all.induct) (simp_all add: index_add_def fun_upd_def)

lemma index_all_dom: "dom (index_all m kvs) = dom m \<union> fst ` set kvs"
  by (induction m kvs rule: index_all.induct) (simp_all add: index_add_def Un_left_commute insert_commute del: fun_upd_apply)

lemma index_all_empty:
  "(case index_all Map.empty kvs k of None \<Rightarrow> [] | Some vs \<Rightarrow> vs)
   = map snd (filter (\<lambda>kv. fst kv = k) kvs)"
  by (simp add: index_all_lookup)

section \<open>Lists\<close>

lemma filter_map_pair:
  "map snd (filter (\<lambda>kv. fst kv = k) (map (\<lambda>x. (f x, x)) xs)) = filter (\<lambda>x. f x = k) xs"
  by (induction xs) auto

lemma concat_map_filter:
  "concat (map f (filter P xs)) = concat (map (\<lambda>x. if P x then f x else []) xs)"
  by (induction xs) auto

lemma sum_list_filter_cases:
  "length (filter P xs) + length (filter (\<lambda>x. \<not> P x) xs) = length xs"
  by (induction xs) auto

lemma take_eq_prefixI: "take (length p) s = p \<longleftrightarrow> (\<exists>r. s = p @ r)"
  by (metis append_eq_conv_conj)

section \<open>Sorting with a less function\<close>

text \<open>
  \<open>sort.Slice(xs, less)\<close>. Go's sort is not stable, so the order of elements that \<open>less\<close> does not
  separate is the implementation's choice. Insertion sort over an arbitrary permutation of the input
  reaches every one of those results; where the code sorts a list it collected from a map, that
  permutation is the map's iteration order.
\<close>

fun insert_less :: "('a \<Rightarrow> 'a \<Rightarrow> bool) \<Rightarrow> 'a \<Rightarrow> 'a list \<Rightarrow> 'a list" where
  "insert_less lt x [] = [x]"
| "insert_less lt x (y # ys) = (if lt y x then y # insert_less lt x ys else x # y # ys)"

definition go_sort :: "('a \<Rightarrow> 'a \<Rightarrow> bool) \<Rightarrow> 'a list \<Rightarrow> 'a list" where
  "go_sort lt xs = foldr (insert_less lt) xs []"

lemma insert_less_mset [simp]: "mset (insert_less lt x ys) = add_mset x (mset ys)"
  by (induction ys) auto

lemma insert_less_set [simp]: "set (insert_less lt x ys) = insert x (set ys)"
  by (induction ys) auto

lemma go_sort_mset [simp]: "mset (go_sort lt xs) = mset xs"
  unfolding go_sort_def by (induction xs) auto

lemma go_sort_set [simp]: "set (go_sort lt xs) = set xs"
  by (metis go_sort_mset set_mset_mset)

lemma go_sort_length [simp]: "length (go_sort lt xs) = length xs"
  by (metis go_sort_mset size_mset)

lemma insert_less_sorted:
  assumes asym: "\<And>a b. a \<in> A \<Longrightarrow> b \<in> A \<Longrightarrow> lt a b \<Longrightarrow> \<not> lt b a"
    and ntrans: "\<And>a b c. a \<in> A \<Longrightarrow> b \<in> A \<Longrightarrow> c \<in> A \<Longrightarrow> \<not> lt b a \<Longrightarrow> \<not> lt c b \<Longrightarrow> \<not> lt c a"
    and "x \<in> A" "set ys \<subseteq> A" "sorted_wrt (\<lambda>a b. \<not> lt b a) ys"
  shows "sorted_wrt (\<lambda>a b. \<not> lt b a) (insert_less lt x ys)"
  using assms(3-5)
proof (induction ys)
  case (Cons y ys)
  show ?case
  proof (cases "lt y x")
    case True
    then have "\<not> lt x y" using asym Cons.prems by simp
    with True Cons show ?thesis by auto
  next
    case False
    have "\<not> lt z x" if "z \<in> set ys" for z
      using ntrans[of x y z] False that Cons.prems by auto
    with False Cons.prems show ?thesis by simp
  qed
qed simp

lemma go_sort_sorted:
  assumes "\<And>a b. a \<in> set xs \<Longrightarrow> b \<in> set xs \<Longrightarrow> lt a b \<Longrightarrow> \<not> lt b a"
    and "\<And>a b c. a \<in> set xs \<Longrightarrow> b \<in> set xs \<Longrightarrow> c \<in> set xs \<Longrightarrow> \<not> lt b a \<Longrightarrow> \<not> lt c b \<Longrightarrow> \<not> lt c a"
  shows "sorted_wrt (\<lambda>a b. \<not> lt b a) (go_sort lt xs)"
proof -
  have "set ys \<subseteq> set xs \<Longrightarrow> sorted_wrt (\<lambda>a b. \<not> lt b a) (go_sort lt ys)" for ys
  proof (induction ys)
    case (Cons y ys)
    then have "sorted_wrt (\<lambda>a b. \<not> lt b a) (go_sort lt ys)" by simp
    moreover have "go_sort lt (y # ys) = insert_less lt y (go_sort lt ys)" by (simp add: go_sort_def)
    ultimately show ?case using Cons.prems
      using insert_less_sorted[where A = "set xs" and lt = lt and x = y and ys = "go_sort lt ys", OF assms]
      by simp
  qed (simp add: go_sort_def)
  then show ?thesis by blast
qed

end
