(* ===== verification/Once.thy ===== *)
theory Once
  imports Prelude
begin

text \<open>
  The contract of a component that admits each key at most once: the webhook handler's idempotency
  set and the control channel's nonce cache. \<open>check x s\<close> says whether the key of \<open>x\<close> was known and
  records it.
\<close>

fun admitted :: "('x \<Rightarrow> 's \<Rightarrow> bool \<times> 's) \<Rightarrow> 'x list \<Rightarrow> 's \<Rightarrow> 'x list \<times> 's" where
  "admitted check [] s = ([], s)"
| "admitted check (x # xs) s =
     (case check x s of
        (True, s') \<Rightarrow> admitted check xs s'
      | (False, s') \<Rightarrow> (case admitted check xs s' of (ys, s'') \<Rightarrow> (x # ys, s'')))"

locale once =
  fixes check :: "'x \<Rightarrow> 's \<Rightarrow> bool \<times> 's"
    and known :: "'s \<Rightarrow> 'k \<Rightarrow> bool"
    and key :: "'x \<Rightarrow> 'k"
    and valid :: "'x \<Rightarrow> bool"
  assumes check_known: "check x s = (d, s') \<Longrightarrow> d \<longleftrightarrow> known s (key x)"
    and check_records: "check x s = (d, s') \<Longrightarrow> valid x \<Longrightarrow> known s' k \<longleftrightarrow> known s k \<or> k = key x"
begin

lemma check_cases:
  assumes "valid x"
  obtains s' where "check x s = (known s (key x), s')" "known s' = (\<lambda>k. known s k \<or> k = key x)"
proof -
  obtain d s' where c: "check x s = (d, s')" by force
  with check_known[OF c] have "check x s = (known s (key x), s')" by simp
  moreover have "known s' = (\<lambda>k. known s k \<or> k = key x)"
    by (rule ext) (rule check_records[OF c assms])
  ultimately show thesis by (rule that)
qed

text \<open>The keys admitted are pairwise distinct, were unknown before, and together with those are exactly
  the keys known afterwards; every key asked for is known afterwards.\<close>

lemma admitted_once:
  assumes "\<forall>x\<in>set xs. valid x" and "admitted check xs s = (ys, s')"
  shows "distinct (map key ys) \<and> (\<forall>y\<in>set ys. \<not> known s (key y))
    \<and> known s' = (\<lambda>k. known s k \<or> k \<in> key ` set xs)
    \<and> key ` set ys = key ` set xs - {k. known s k}"
  using assms
proof (induction xs arbitrary: s ys)
  case (Cons x xs)
  obtain s1 where c: "check x s = (known s (key x), s1)" and k: "known s1 = (\<lambda>k. known s k \<or> k = key x)"
    using check_cases[of x s] Cons.prems(1) by auto
  show ?case
  proof (cases "known s (key x)")
    case True
    then have "admitted check xs s1 = (ys, s')" using Cons.prems(2) c by simp
    from Cons.IH[OF _ this] Cons.prems(1) True show ?thesis by (auto simp: k fun_eq_iff)
  next
    case False
    then obtain zs where a: "admitted check xs s1 = (zs, s')" and ys: "ys = x # zs"
      using Cons.prems(2) c by (cases "admitted check xs s1") auto
    have ih: "distinct (map key zs)" "\<forall>y\<in>set zs. \<not> known s1 (key y)"
      "known s' = (\<lambda>k. known s1 k \<or> k \<in> key ` set xs)" "key ` set zs = key ` set xs - {k. known s1 k}"
      using Cons.IH[OF _ a] Cons.prems(1) by simp_all
    have "key x \<notin> key ` set zs" using ih(2) by (auto simp: k)
    with False ih show ?thesis by (auto simp: ys k)
  qed
qed simp

end

end
