(* ===== verification/Go_Text.thy ===== *)
theory Go_Text
  imports Prelude
begin

text \<open>
  The parts of Go's \<open>strings\<close>, \<open>strconv\<close> and \<open>fmt\<close> packages that the agent uses, on byte strings:
  prefix tests, joining and splitting, white-space trimming, decimal printing and reading. The
  lemmas are the round trips and the separator facts the component theories need.
\<close>

section \<open>Prefixes, joining, splitting\<close>

definition has_prefix :: "string \<Rightarrow> string \<Rightarrow> bool" where
  "has_prefix s p \<longleftrightarrow> take (length p) s = p"

lemma has_prefix_iff: "has_prefix s p \<longleftrightarrow> (\<exists>r. s = p @ r)"
  by (simp add: has_prefix_def take_eq_prefixI)

lemma has_prefix_append [simp]: "has_prefix (p @ r) p"
  by (simp add: has_prefix_iff)

lemma has_prefix_trans: "has_prefix s p \<Longrightarrow> has_prefix p q \<Longrightarrow> has_prefix s q"
  by (auto simp: has_prefix_iff)

definition has_suffix :: "string \<Rightarrow> string \<Rightarrow> bool" where
  "has_suffix s p \<longleftrightarrow> has_prefix (rev s) (rev p)"

definition trim_prefix :: "string \<Rightarrow> string \<Rightarrow> string" where
  "trim_prefix s p = (if has_prefix s p then drop (length p) s else s)"

fun join :: "string \<Rightarrow> string list \<Rightarrow> string" where
  "join sep [] = []"
| "join sep [x] = x"
| "join sep (x # y # xs) = x @ sep @ join sep (y # xs)"

lemma join_Cons: "xs \<noteq> [] \<Longrightarrow> join sep (x # xs) = x @ sep @ join sep xs"
  by (cases xs) simp_all

text \<open>\<open>strings.SplitN(s, c, 2)\<close> for a one-byte separator: at most one cut, at the first \<open>c\<close>.\<close>

definition split2 :: "char \<Rightarrow> string \<Rightarrow> string list" where
  "split2 c s = (if c \<in> set s
     then [takeWhile (\<lambda>x. x \<noteq> c) s, tl (dropWhile (\<lambda>x. x \<noteq> c) s)] else [s])"

text \<open>\<open>strings.Split(s, c)\<close> for a one-byte separator.\<close>

fun split_all :: "char \<Rightarrow> string \<Rightarrow> string list" where
  "split_all c [] = [[]]"
| "split_all c (x # xs) =
     (if x = c then [] # split_all c xs
      else (case split_all c xs of [] \<Rightarrow> [[x]] | w # ws \<Rightarrow> (x # w) # ws))"

text \<open>\<open>strings.Index(s, c)\<close> for a one-byte needle: the position of the first one, if any.\<close>

fun index_of :: "char \<Rightarrow> string \<Rightarrow> nat option" where
  "index_of c [] = None"
| "index_of c (x # xs) = (if x = c then Some 0 else map_option Suc (index_of c xs))"

lemma takeWhile_neq_append: "c \<notin> set xs \<Longrightarrow> takeWhile (\<lambda>x. x \<noteq> c) (xs @ c # ys) = xs"
  by (induction xs) auto

lemma dropWhile_neq_append: "c \<notin> set xs \<Longrightarrow> dropWhile (\<lambda>x. x \<noteq> c) (xs @ c # ys) = c # ys"
  by (induction xs) auto

lemma split2_append [simp]: "c \<notin> set xs \<Longrightarrow> split2 c (xs @ c # ys) = [xs, ys]"
  by (simp add: split2_def takeWhile_neq_append dropWhile_neq_append)

lemma index_of_append: "c \<notin> set xs \<Longrightarrow> index_of c (xs @ c # ys) = Some (length xs)"
  by (induction xs) auto

lemma index_of_None: "index_of c s = None \<longleftrightarrow> c \<notin> set s"
  by (induction s) auto

lemma split_all_join:
  "(\<And>w. w \<in> set ws \<Longrightarrow> c \<notin> set w) \<Longrightarrow> ws \<noteq> [] \<Longrightarrow> split_all c (join [c] ws) = ws"
proof (induction ws)
  case Nil
  then show ?case by simp
next
  case (Cons w ws)
  have one: "c \<notin> set v \<Longrightarrow> split_all c v = [v]" for v
    by (induction v) auto
  have app: "c \<notin> set v \<Longrightarrow> split_all c (v @ c # s) = v # split_all c s" for v s
    by (induction v) auto
  show ?case
  proof (cases ws)
    case Nil
    with Cons.prems one show ?thesis by simp
  next
    case (Cons w' ws')
    with Cons.prems Cons.IH app show ?thesis by (simp add: join_Cons)
  qed
qed

text \<open>A field that holds no separator can be read back from a string framed by separators.\<close>

lemma sep_frame_inject:
  fixes c :: char
  assumes "c \<notin> set a" and "c \<notin> set a'"
  shows "a @ c # r = a' @ c # r' \<longleftrightarrow> a = a' \<and> r = r'"
proof
  assume eq: "a @ c # r = a' @ c # r'"
  then have "split2 c (a @ c # r) = split2 c (a' @ c # r')" by simp
  with assms show "a = a' \<and> r = r'" by simp
qed simp

lemma join_inject:
  assumes "\<forall>w\<in>set xs. c \<notin> set w" and "\<forall>w\<in>set ys. c \<notin> set w" and "xs \<noteq> []" and "ys \<noteq> []"
  shows "join [c] xs = join [c] ys \<longleftrightarrow> xs = ys"
proof
  assume eq: "join [c] xs = join [c] ys"
  have "xs = split_all c (join [c] xs)" using assms by (simp add: split_all_join)
  also have "\<dots> = split_all c (join [c] ys)" by (simp only: eq)
  also have "\<dots> = ys" using assms by (simp add: split_all_join)
  finally show "xs = ys" .
qed simp

section \<open>White space\<close>

text \<open>
  \<open>strings.TrimSpace\<close> trims the runes for which \<open>unicode.IsSpace\<close> holds. On bytes these are the six
  ASCII ones and the UTF-8 encodings of U+0085, U+00A0, U+1680, U+2000 to U+200A, U+2028, U+2029,
  U+202F, U+205F and U+3000.
\<close>

definition space_encodings :: "string list" where
  "space_encodings = map (map (\<lambda>n::nat. char_of n))
     ([[9], [10], [11], [12], [13], [32], [194, 133], [194, 160], [225, 154, 128]]
      @ map (\<lambda>k. [226, 128, 128 + k]) [0..<11]
      @ [[226, 128, 168], [226, 128, 169], [226, 128, 175], [226, 129, 159], [227, 128, 128]])"

lemma space_encodings_nonempty: "p \<in> set space_encodings \<Longrightarrow> p \<noteq> []"
  by (auto simp: space_encodings_def)

function trim_left :: "string list \<Rightarrow> string \<Rightarrow> string" where
  "trim_left ps s = (case find (\<lambda>p. p \<noteq> [] \<and> has_prefix s p) ps of
      None \<Rightarrow> s | Some p \<Rightarrow> trim_left ps (drop (length p) s))"
  by pat_completeness auto
termination
proof (relation "measure (\<lambda>(ps, s). length s)")
  fix ps s p
  assume "find (\<lambda>p. p \<noteq> [] \<and> has_prefix s p) ps = Some p"
  then have "p \<noteq> []" and "has_prefix s p" by (auto simp: find_Some_iff)
  then show "((ps, drop (length p) s), (ps, s)) \<in> measure (\<lambda>(ps, s). length s)"
    by (auto simp: has_prefix_iff)
qed simp

declare trim_left.simps [simp del]

definition trim_space :: "string \<Rightarrow> string" where
  "trim_space s = rev (trim_left (map rev space_encodings) (rev (trim_left space_encodings s)))"

lemma trim_left_id:
  "\<forall>p\<in>set ps. p = [] \<or> \<not> has_prefix s p \<Longrightarrow> trim_left ps s = s"
  by (subst trim_left.simps) (auto split: option.splits simp: find_Some_iff)

lemma trim_left_suffix: "\<exists>p. s = p @ trim_left ps s"
proof (induction ps s rule: trim_left.induct)
  case (1 ps s)
  show ?case
  proof (cases "find (\<lambda>p. p \<noteq> [] \<and> has_prefix s p) ps")
    case None
    then show ?thesis by (subst trim_left.simps) simp
  next
    case (Some p)
    then have "has_prefix s p" by (auto simp: find_Some_iff)
    then obtain r where s: "s = p @ r" by (auto simp: has_prefix_iff)
    from "1"[OF Some] obtain q where "drop (length p) s = q @ trim_left ps (drop (length p) s)" ..
    moreover have "trim_left ps s = trim_left ps (drop (length p) s)"
      using Some by (simp add: trim_left.simps[of ps s])
    ultimately show ?thesis using s by (intro exI[of _ "p @ q"]) simp
  qed
qed

text \<open>A string whose first and last bytes are printable ASCII is left alone.\<close>

definition printable :: "char \<Rightarrow> bool" where
  "printable c \<longleftrightarrow> 33 \<le> (of_char c :: nat) \<and> (of_char c :: nat) < 127"

lemma space_encodings_ends:
  "p \<in> set space_encodings \<Longrightarrow> \<not> printable (hd p) \<and> \<not> printable (last p)"
  unfolding space_encodings_def printable_def by (auto simp: upt_rec)

lemma trim_space_id:
  assumes "s \<noteq> []" and "printable (hd s)" and "printable (last s)"
  shows "trim_space s = s"
proof -
  have 1: "trim_left space_encodings s = s"
  proof (rule trim_left_id, intro ballI disjCI)
    fix p assume p: "p \<in> set space_encodings" and "\<not> \<not> has_prefix s p"
    then obtain r where "s = p @ r" by (auto simp: has_prefix_iff)
    with p assms space_encodings_ends[OF p] space_encodings_nonempty[OF p] show "p = []"
      by (cases p) auto
  qed
  have 2: "trim_left (map rev space_encodings) (rev s) = rev s"
  proof (rule trim_left_id, intro ballI disjCI)
    fix q assume q: "q \<in> set (map rev space_encodings)" and pr: "\<not> \<not> has_prefix (rev s) q"
    then obtain p where p: "p \<in> set space_encodings" "q = rev p" by auto
    from pr obtain r where "rev s = rev p @ r" by (auto simp: has_prefix_iff p)
    then have "s = rev r @ p" by (metis rev_append rev_rev_ident)
    with p assms space_encodings_ends[OF p(1)] space_encodings_nonempty[OF p(1)] show "q = []"
      by (cases p rule: rev_cases) auto
  qed
  from 1 2 show ?thesis by (simp add: trim_space_def)
qed

section \<open>Decimal numbers\<close>

definition digit_char :: "nat \<Rightarrow> char" where
  "digit_char d = char_of (48 + d)"

definition is_digit :: "char \<Rightarrow> bool" where
  "is_digit c \<longleftrightarrow> 48 \<le> (of_char c :: nat) \<and> (of_char c :: nat) \<le> 57"

definition digit_val :: "char \<Rightarrow> nat" where
  "digit_val c = of_char c - 48"

lemma digit_char_props [simp]:
  "d < 10 \<Longrightarrow> is_digit (digit_char d)" "d < 10 \<Longrightarrow> digit_val (digit_char d) = d"
  by (simp_all add: digit_char_def is_digit_def digit_val_def)

function dec_nat :: "nat \<Rightarrow> string" where
  "dec_nat n = (if n < 10 then [digit_char n] else dec_nat (n div 10) @ [digit_char (n mod 10)])"
  by pat_completeness auto
termination by (relation "measure id") auto

declare dec_nat.simps [simp del]

definition dec_int :: "int \<Rightarrow> string" where
  "dec_int i = (if i < 0 then CHR ''-'' # dec_nat (nat (- i)) else dec_nat (nat i))"

definition digits_value :: "string \<Rightarrow> nat" where
  "digits_value s = foldl (\<lambda>n c. 10 * n + digit_val c) 0 s"

lemma digits_value_simps [simp]: "digits_value [] = 0"
  "digits_value (s @ [c]) = 10 * digits_value s + digit_val c"
  by (simp_all add: digits_value_def)

lemma dec_nat_digits: "list_all is_digit (dec_nat n)"
proof (induction n rule: dec_nat.induct)
  case (1 n)
  then show ?case by (subst dec_nat.simps) simp
qed

lemma dec_nat_nonempty [simp]: "dec_nat n \<noteq> []"
  by (subst dec_nat.simps) simp

lemma dec_nat_value [simp]: "digits_value (dec_nat n) = n"
proof (induction n rule: dec_nat.induct)
  case (1 n)
  show ?case
  proof (cases "n < 10")
    case True
    then show ?thesis by (simp add: dec_nat.simps[of n] digits_value_def)
  next
    case False
    with 1 show ?thesis by (simp add: dec_nat.simps[of n])
  qed
qed

lemma dec_nat_inject [simp]: "dec_nat m = dec_nat n \<longleftrightarrow> m = n"
  by (metis dec_nat_value)

lemma is_digit_neq: "is_digit c \<Longrightarrow> \<not> is_digit x \<Longrightarrow> c \<noteq> x"
  by auto

lemma dec_nat_no: "\<not> is_digit x \<Longrightarrow> x \<notin> set (dec_nat n)"
  using dec_nat_digits[of n] by (auto simp: list_all_iff)

lemma dec_int_no: "\<not> is_digit x \<Longrightarrow> x \<noteq> CHR ''-'' \<Longrightarrow> x \<notin> set (dec_int i)"
  by (auto simp: dec_int_def dest: dec_nat_no)

lemma dec_int_inject [simp]: "dec_int i = dec_int j \<longleftrightarrow> i = j"
proof
  assume eq: "dec_int i = dec_int j"
  have neg: "CHR ''-'' \<notin> set (dec_nat n)" for n
    by (rule dec_nat_no) (simp add: is_digit_def)
  show "i = j"
  proof (cases "i < 0"; cases "j < 0")
    assume "i < 0" "\<not> j < 0"
    with eq have "CHR ''-'' # dec_nat (nat (- i)) = dec_nat (nat j)" by (simp add: dec_int_def)
    with neg[of "nat j"] show ?thesis by (metis list.set_intros(1))
  next
    assume "\<not> i < 0" "j < 0"
    with eq have "CHR ''-'' # dec_nat (nat (- j)) = dec_nat (nat i)" by (simp add: dec_int_def)
    with neg[of "nat i"] show ?thesis by (metis list.set_intros(1))
  qed (use eq in \<open>auto simp: dec_int_def\<close>)
qed simp

lemma dec_int_nonempty [simp]: "dec_int i \<noteq> []"
  by (simp add: dec_int_def)

text \<open>\<open>%0wd\<close>: pad on the left with zeros to width \<open>w\<close>.\<close>

definition pad_zero :: "nat \<Rightarrow> string \<Rightarrow> string" where
  "pad_zero w s = replicate (w - length s) (digit_char 0) @ s"

lemma digits_value_replicate: "digits_value (replicate k (digit_char 0) @ s) = digits_value s"
proof (induction s rule: rev_induct)
  case Nil
  show ?case by (induction k) (simp_all add: digits_value_def)
next
  case (snoc c s)
  then show ?case by (metis append_assoc digits_value_simps(2))
qed

lemma pad_zero_value [simp]: "digits_value (pad_zero w s) = digits_value s"
  by (simp add: pad_zero_def digits_value_replicate)

lemma pad_zero_digits: "list_all is_digit s \<Longrightarrow> list_all is_digit (pad_zero w s)"
  by (auto simp: pad_zero_def list_all_iff)

lemma pad_zero_length: "length s \<le> w \<Longrightarrow> length (pad_zero w s) = w"
  by (simp add: pad_zero_def)

text \<open>
  \<open>strconv.ParseInt(s, 10, 64)\<close>: an optional sign, then at least one digit and nothing else; a value
  outside the range of \<open>int64\<close> is an error.
\<close>

definition parse_digits :: "string \<Rightarrow> nat option" where
  "parse_digits s = (if s \<noteq> [] \<and> list_all is_digit s then Some (digits_value s) else None)"

definition parse_int64 :: "string \<Rightarrow> i64 option" where
  "parse_int64 s =
     (let neg = (s \<noteq> [] \<and> hd s = CHR ''-'');
          body = (if s \<noteq> [] \<and> (hd s = CHR ''-'' \<or> hd s = CHR ''+'') then tl s else s)
      in case parse_digits body of None \<Rightarrow> None
         | Some n \<Rightarrow> if neg then (if n \<le> 2 ^ 63 then Some (word_of_int (- int n)) else None)
                     else (if n < 2 ^ 63 then Some (word_of_int (int n)) else None))"

lemma parse_digits_dec_nat [simp]: "parse_digits (dec_nat n) = Some n"
  by (simp add: parse_digits_def dec_nat_digits)

lemma dec_nat_hd_digit: "is_digit (hd (dec_nat n))"
  using dec_nat_digits[of n] by (cases "dec_nat n") (auto simp: list_all_iff)

lemma parse_int64_dec_int:
  fixes w :: i64
  shows "parse_int64 (dec_int (sint w)) = Some w"
proof -
  have lo: "- (2 ^ 63) \<le> sint w" and hi: "sint w < 2 ^ 63"
    using sint_ge[of w] sint_lt[of w] by simp_all
  show ?thesis
  proof (cases "sint w < 0")
    case True
    with lo show ?thesis by (simp add: parse_int64_def dec_int_def nat_le_iff)
  next
    case False
    have h: "is_digit (hd (dec_nat (nat (sint w))))" by (rule dec_nat_hd_digit)
    then have "hd (dec_nat (nat (sint w))) \<noteq> CHR ''-''" "hd (dec_nat (nat (sint w))) \<noteq> CHR ''+''"
      by (auto simp: is_digit_def)
    with False hi show ?thesis by (simp add: parse_int64_def dec_int_def nat_less_iff)
  qed
qed

text \<open>
  \<open>fmt.Sscanf(s, "%d", &u)\<close> with \<open>u :: uint64\<close>: leading blanks other than a line break are
  skipped, then the longest run of digits is read; none, or a value of at least \<open>2 ^ 64\<close>, is an
  error. What follows the digits is left unread.
\<close>

definition scan_uint64 :: "string \<Rightarrow> u64 option" where
  "scan_uint64 s =
     (let body = trim_left (filter (\<lambda>p. p \<noteq> [CHR 0x0A]) space_encodings) s;
          ds = takeWhile is_digit body
      in if ds = [] \<or> 2 ^ 64 \<le> digits_value ds then None else Some (of_nat (digits_value ds)))"

lemma is_digit_printable: "is_digit c \<Longrightarrow> printable c"
  by (simp add: is_digit_def printable_def)

lemma scan_uint64_digits:
  assumes "list_all is_digit s" and "s \<noteq> []" and "digits_value s < 2 ^ 64"
  shows "scan_uint64 s = Some (of_nat (digits_value s))"
proof -
  from assms(1,2) have "is_digit (hd s)" by (cases s) auto
  then have hd: "printable (hd s)" by (rule is_digit_printable)
  have "trim_left (filter (\<lambda>p. p \<noteq> [CHR 0x0A]) space_encodings) s = s"
  proof (rule trim_left_id, intro ballI disjCI)
    fix p assume "p \<in> set (filter (\<lambda>p. p \<noteq> [CHR 0x0A]) space_encodings)" and "\<not> \<not> has_prefix s p"
    then have p: "p \<in> set space_encodings" and "has_prefix s p" by auto
    then obtain r where "s = p @ r" by (auto simp: has_prefix_iff)
    with p hd space_encodings_ends[OF p] space_encodings_nonempty[OF p] show "p = []"
      by (cases p) auto
  qed
  moreover have t: "takeWhile is_digit s = s"
    using assms(1) by (simp add: takeWhile_eq_all_conv list_all_iff)
  ultimately show ?thesis using assms by (simp add: scan_uint64_def Let_def t del: takeWhile_eq_all_conv)
qed

end
