(* ===== verification/Go_Net.thy ===== *)
theory Go_Net
  imports Go_Text
begin

text \<open>
  The parts of Go's \<open>net\<close> and \<open>net/netip\<close> that the configuration check and the webhook allowlist
  use: \<open>netip.ParseAddr\<close>, \<open>net.ParseIP\<close>, \<open>net.ParseCIDR\<close>, \<open>IPNet.Contains\<close> and
  \<open>net.SplitHostPort\<close>. An address is the list of its bytes, 4 for IPv4 and 16 for IPv6.
\<close>

section \<open>Addresses\<close>

definition parse_octet :: "string \<Rightarrow> nat option" where
  "parse_octet s = (if s = [] \<or> \<not> list_all is_digit s then None
     else if 1 < length s \<and> hd s = CHR ''0'' then None
     else if 255 < digits_value s then None else Some (digits_value s))"

definition parse_ipv4 :: "string \<Rightarrow> nat list option" where
  "parse_ipv4 s = (let fields = map parse_octet (split_all CHR ''.'' s)
     in if length fields = 4 \<and> None \<notin> set fields then Some (map the fields) else None)"

definition hex_value :: "char \<Rightarrow> nat option" where
  "hex_value c = (let n = of_char c :: nat in
     if 48 \<le> n \<and> n \<le> 57 then Some (n - 48)
     else if 97 \<le> n \<and> n \<le> 102 then Some (n - 87)
     else if 65 \<le> n \<and> n \<le> 70 then Some (n - 55) else None)"

definition is_hex :: "char \<Rightarrow> bool" where
  "is_hex c \<longleftrightarrow> hex_value c \<noteq> None"

definition hex_number :: "string \<Rightarrow> nat" where
  "hex_number s = foldl (\<lambda>n c. 16 * n + the (hex_value c)) 0 s"

text \<open>
  The group loop of \<open>parseIPv6\<close>. \<open>out\<close> holds the bytes so far and \<open>ell\<close> the position of an ellipsis.
  The loop runs at most eight times, once per 16-bit group; \<open>fuel\<close> counts the groups left, and 0 left
  with input remaining is the trailing-garbage error.
\<close>

fun ipv6_groups :: "nat \<Rightarrow> string \<Rightarrow> nat list \<Rightarrow> nat option \<Rightarrow> (nat list \<times> nat option) option" where
  "ipv6_groups 0 s out ell = (if s = [] then Some (out, ell) else None)"
| "ipv6_groups (Suc fuel) s out ell =
     (let ds = takeWhile is_hex s; rest = dropWhile is_hex s
      in if ds = [] \<or> 4 < length ds then None
         else if rest \<noteq> [] \<and> hd rest = CHR ''.'' then
           (if ell = None \<and> length out \<noteq> 12 then None
            else if 16 < length out + 4 then None
            else map_option (\<lambda>v4. (out @ v4, ell)) (parse_ipv4 s))
         else let out' = out @ [hex_number ds div 256, hex_number ds mod 256]
              in if rest = [] then Some (out', ell)
                 else if hd rest \<noteq> CHR '':'' \<or> length rest = 1 then None
                 else let more = tl rest
                      in if hd more = CHR '':'' then
                           (if ell \<noteq> None then None
                            else if tl more = [] then Some (out', Some (length out'))
                            else ipv6_groups fuel (tl more) out' (Some (length out')))
                         else ipv6_groups fuel more out' ell)"

definition expand_ellipsis :: "nat list \<times> nat option \<Rightarrow> nat list option" where
  "expand_ellipsis r = (case r of (out, ell) \<Rightarrow>
     if length out < 16 then
       (case ell of None \<Rightarrow> None
        | Some k \<Rightarrow> Some (take k out @ replicate (16 - length out) 0 @ drop k out))
     else (case ell of None \<Rightarrow> Some out | Some _ \<Rightarrow> None))"

text \<open>The address and its zone; the zone follows a percent sign.\<close>

definition parse_ipv6 :: "string \<Rightarrow> (nat list \<times> string) option" where
  "parse_ipv6 inp =
     (let parts = split2 CHR ''%'' inp; s = hd parts; zone = concat (tl parts)
      in if 1 < length parts \<and> zone = [] then None
         else let lead = (2 \<le> length s \<and> s ! 0 = CHR '':'' \<and> s ! 1 = CHR '':'')
              in if lead \<and> length s = 2 then Some (replicate 16 0, zone)
                 else (case Option.bind (ipv6_groups 8 (if lead then drop 2 s else s) []
                              (if lead then Some 0 else None)) expand_ellipsis of
                         None \<Rightarrow> None | Some a \<Rightarrow> Some (a, zone)))"

fun ParseAddr_from :: "string \<Rightarrow> string \<Rightarrow> (nat list \<times> string) option" where
  "ParseAddr_from inp [] = None"
| "ParseAddr_from inp (c # cs) =
     (if c = CHR ''.'' then map_option (\<lambda>a. (a, [])) (parse_ipv4 inp)
      else if c = CHR '':'' then parse_ipv6 inp
      else if c = CHR ''%'' then None
      else ParseAddr_from inp cs)"

definition ParseAddr :: "string \<Rightarrow> (nat list \<times> string) option" where
  "ParseAddr s = ParseAddr_from s s"

text \<open>\<open>Addr.As16\<close> and \<open>IP.To4\<close>: the IPv4-mapped form and back.\<close>

definition v4_prefix :: "nat list" where
  "v4_prefix = replicate 10 0 @ [255, 255]"

definition As16 :: "nat list \<Rightarrow> nat list" where
  "As16 a = (if length a = 4 then v4_prefix @ a else a)"

definition To4 :: "nat list \<Rightarrow> nat list option" where
  "To4 a = (if length a = 4 then Some a
     else if length a = 16 \<and> take 12 a = v4_prefix then Some (drop 12 a) else None)"

definition ParseIP :: "string \<Rightarrow> nat list option" where
  "ParseIP s = (case ParseAddr s of Some (a, zone) \<Rightarrow> if zone = [] then Some (As16 a) else None | None \<Rightarrow> None)"

section \<open>Networks\<close>

record ip_net =
  net_IP :: "nat list"
  net_Mask :: "nat list"

text \<open>\<open>net.CIDRMask\<close>: \<open>ones\<close> leading ones in \<open>bits\<close> bits.\<close>

definition mask_byte :: "nat \<Rightarrow> nat" where
  "mask_byte k = 256 - 2 ^ (8 - min k 8)"

definition CIDRMask :: "nat \<Rightarrow> nat \<Rightarrow> nat list" where
  "CIDRMask ones bits = map (\<lambda>i. mask_byte (ones - 8 * i)) [0..<bits div 8]"

definition mask_bytes :: "nat list \<Rightarrow> nat list \<Rightarrow> nat list" where
  "mask_bytes a m = map2 (AND) a m"

text \<open>\<open>dtoi\<close>: a decimal number below 0xFFFFFF that is the whole of the mask text.\<close>

definition parse_mask :: "string \<Rightarrow> nat option" where
  "parse_mask s = (if s \<noteq> [] \<and> list_all is_digit s \<and> digits_value s < 16777215 then Some (digits_value s) else None)"

definition ParseCIDR :: "string \<Rightarrow> ip_net option" where
  "ParseCIDR s = (case index_of CHR ''/'' s of None \<Rightarrow> None
     | Some i \<Rightarrow> (case ParseAddr (take i s) of None \<Rightarrow> None
        | Some (a, zone) \<Rightarrow> if zone \<noteq> [] then None
            else (case parse_mask (drop (Suc i) s) of None \<Rightarrow> None
               | Some n \<Rightarrow> if 8 * length a < n then None
                   else let m = CIDRMask n (8 * length a)
                        in Some \<lparr>net_IP = mask_bytes a m, net_Mask = m\<rparr>)))"

definition Contains :: "ip_net \<Rightarrow> nat list \<Rightarrow> bool" where
  "Contains n ip =
     (let nn = (case To4 (net_IP n) of Some a \<Rightarrow> a | None \<Rightarrow> net_IP n);
          m = (if length (net_Mask n) = 16 \<and> length nn = 4 then drop 12 (net_Mask n) else net_Mask n);
          x = (case To4 ip of Some a \<Rightarrow> a | None \<Rightarrow> ip)
      in length m = length nn \<and> length x = length nn \<and> mask_bytes nn m = mask_bytes x m)"

section \<open>Host and port\<close>

text \<open>The host of \<open>SplitHostPort\<close>, or None for its errors.\<close>

definition last_index_of :: "char \<Rightarrow> string \<Rightarrow> nat option" where
  "last_index_of c s = map_option (\<lambda>k. length s - 1 - k) (index_of c (rev s))"

definition SplitHostPort :: "string \<Rightarrow> (string \<times> string) option" where
  "SplitHostPort hostport =
     (case last_index_of CHR '':'' hostport of None \<Rightarrow> None
      | Some i \<Rightarrow>
        if hd hostport = CHR ''['' then
          (case index_of CHR '']'' hostport of None \<Rightarrow> None
           | Some e \<Rightarrow> if Suc e \<noteq> i then None
               else if CHR ''['' \<in> set (drop 1 hostport) \<or> CHR '']'' \<in> set (drop (Suc e) hostport) then None
               else Some (take (e - 1) (drop 1 hostport), drop (Suc i) hostport))
        else if CHR '':'' \<in> set (take i hostport) then None
        else if CHR ''['' \<in> set hostport \<or> CHR '']'' \<in> set hostport then None
        else Some (take i hostport, drop (Suc i) hostport))"

section \<open>What the parsers return\<close>

lemma parse_ipv4_length: "parse_ipv4 s = Some a \<Longrightarrow> length a = 4"
  by (auto simp: parse_ipv4_def Let_def split: if_splits)

lemma parse_octet_bound: "parse_octet s = Some n \<Longrightarrow> n \<le> 255"
  by (auto simp: parse_octet_def split: if_splits)

lemma parse_ipv4_bytes:
  assumes "parse_ipv4 s = Some a" and "b \<in> set a" shows "b \<le> 255"
proof -
  from assms obtain x where "parse_octet x \<noteq> None" "b = the (parse_octet x)"
    by (force simp: parse_ipv4_def Let_def split: if_splits)
  then show ?thesis by (auto dest: parse_octet_bound)
qed

definition groups_ok :: "nat list \<times> nat option \<Rightarrow> bool" where
  "groups_ok r \<longleftrightarrow> length (fst r) \<le> 16 \<and> (\<forall>k. snd r = Some k \<longrightarrow> k \<le> length (fst r))"

lemma ipv6_groups_ok:
  "ipv6_groups fuel s out ell = Some r \<Longrightarrow> groups_ok (out, ell) \<Longrightarrow> length out + 2 * fuel = 16 \<Longrightarrow> groups_ok r"
proof (induction fuel arbitrary: s out ell)
  case 0
  then show ?case by (auto split: if_splits)
next
  case (Suc fuel)
  define ds rest out' where defs: "ds = takeWhile is_hex s" "rest = dropWhile is_hex s"
    "out' = out @ [hex_number ds div 256, hex_number ds mod 256]"
  have v4: "groups_ok (out @ v, ell)" if "parse_ipv4 s = Some v" "\<not> 16 < length out + 4" for v
    using that Suc.prems(2) by (auto simp: groups_ok_def dest: parse_ipv4_length)
  have ok: "groups_ok (out', ell)" "groups_ok (out', Some (length out'))"
    using Suc.prems(2,3) by (auto simp: groups_ok_def defs(3))
  have len: "length out' + 2 * fuel = 16" using Suc.prems(3) by (simp add: defs(3))
  note ih = Suc.IH[OF _ ok(1) len] Suc.IH[OF _ ok(2) len]
  note step = Suc.prems(1)[unfolded ipv6_groups.simps Let_def, folded defs(1,2), folded defs(3)]
  show ?case
  proof (cases "rest \<noteq> [] \<and> hd rest = CHR ''.''")
    case True
    with step v4 show ?thesis by (auto split: if_split_asm)
  next
    case False
    with step ih ok show ?thesis by (auto split: if_split_asm)
  qed
qed

lemma expand_ellipsis_length: "groups_ok r \<Longrightarrow> expand_ellipsis r = Some a \<Longrightarrow> length a = 16"
  by (auto simp: expand_ellipsis_def groups_ok_def split: prod.splits if_splits option.splits)

lemma parse_ipv6_length: "parse_ipv6 s = Some (a, z) \<Longrightarrow> length a = 16"
proof -
  have g: "length b = 16" if "Option.bind (ipv6_groups 8 t [] ell) expand_ellipsis = Some b"
    "ell = None \<or> ell = Some 0" for t ell b
  proof -
    from that(1) obtain r where r: "ipv6_groups 8 t [] ell = Some r" "expand_ellipsis r = Some b"
      by (auto simp: bind_eq_Some_conv)
    have "groups_ok ([], ell)" using that(2) by (auto simp: groups_ok_def)
    from ipv6_groups_ok[OF r(1) this] have "groups_ok r" by simp
    from expand_ellipsis_length[OF this r(2)] show ?thesis .
  qed
  show "parse_ipv6 s = Some (a, z) \<Longrightarrow> ?thesis"
    unfolding parse_ipv6_def Let_def by (auto split: if_splits option.splits intro: g)
qed

text \<open>A parsed address has 4 or 16 bytes, so a mask of its length always exists.\<close>

lemma ParseAddr_length: "ParseAddr s = Some (a, z) \<Longrightarrow> length a = 4 \<or> length a = 16"
proof -
  have "ParseAddr_from i t = Some (a, z) \<Longrightarrow> ?thesis" for i t
    by (induction i t rule: ParseAddr_from.induct)
      (auto split: if_splits dest: parse_ipv4_length parse_ipv6_length)
  then show "ParseAddr s = Some (a, z) \<Longrightarrow> ?thesis" unfolding ParseAddr_def .
qed

text \<open>A network contains its own address.\<close>

lemma mask_bytes_idem: "mask_bytes (mask_bytes a m) m = mask_bytes a m"
  by (simp add: mask_bytes_def list_eq_iff_nth_eq and.assoc)

lemma CIDRMask_length [simp]: "length (CIDRMask n b) = b div 8"
  by (simp add: CIDRMask_def)

end
