(* ===== verification/Go_Encoding.thy ===== *)
theory Go_Encoding
  imports Go_Text
begin

text \<open>
  Go's \<open>encoding/hex\<close> and \<open>encoding/base64\<close> (the padded standard alphabet) on byte strings, with
  their round trips. Decoding follows the packages: hex accepts both cases and needs an even
  length; base64 skips line breaks, needs complete groups of four and padding only at the end, and
  does not check the unused trailing bits.
\<close>

section \<open>Bytes as numbers\<close>

abbreviation byte_nat :: "char \<Rightarrow> nat" where
  "byte_nat c \<equiv> of_char c"

lemma byte_nat_less [simp]: "byte_nat c < 256"
  using nat_of_char_less_256[of c] by simp

section \<open>Hexadecimal\<close>

definition hex_digit :: "nat \<Rightarrow> char" where
  "hex_digit d = (if d < 10 then char_of (48 + d) else char_of (87 + d))"

definition hex_val :: "char \<Rightarrow> nat option" where
  "hex_val c =
     (let n = byte_nat c in
      if 48 \<le> n \<and> n \<le> 57 then Some (n - 48)
      else if 97 \<le> n \<and> n \<le> 102 then Some (n - 87)
      else if 65 \<le> n \<and> n \<le> 70 then Some (n - 55) else None)"

fun hex_encode :: "bytes \<Rightarrow> string" where
  "hex_encode [] = []"
| "hex_encode (c # cs) =
     hex_digit (byte_nat c div 16) # hex_digit (byte_nat c mod 16) # hex_encode cs"

fun hex_decode :: "string \<Rightarrow> bytes option" where
  "hex_decode [] = Some []"
| "hex_decode [c] = None"
| "hex_decode (a # b # cs) =
     (case (hex_val a, hex_val b, hex_decode cs) of
        (Some h, Some l, Some bs) \<Rightarrow> Some (char_of (16 * h + l) # bs)
      | _ \<Rightarrow> None)"

lemma hex_val_digit [simp]: "d < 16 \<Longrightarrow> hex_val (hex_digit d) = Some d"
  by (auto simp: hex_val_def hex_digit_def Let_def)

lemma hex_encode_length [simp]: "length (hex_encode s) = 2 * length s"
  by (induction s) simp_all

lemma hex_decode_encode [simp]: "hex_decode (hex_encode s) = Some s"
  by (induction s) (simp_all add: less_mult_imp_div_less)

lemma hex_encode_inject [simp]: "hex_encode s = hex_encode t \<longleftrightarrow> s = t"
  by (metis hex_decode_encode option.inject)

definition is_lower_hex :: "char \<Rightarrow> bool" where
  "is_lower_hex c \<longleftrightarrow> c \<in> hex_digit ` {..<16}"

lemma hex_encode_lower: "c \<in> set (hex_encode s) \<Longrightarrow> is_lower_hex c"
  by (induction s) (auto simp: is_lower_hex_def less_mult_imp_div_less)

section \<open>Base64\<close>

definition b64_digit :: "nat \<Rightarrow> char" where
  "b64_digit d = (if d < 26 then char_of (65 + d) else if d < 52 then char_of (71 + d)
     else if d < 62 then char_of (d - 4) else if d = 62 then CHR ''+'' else CHR ''/'')"

definition b64_val :: "char \<Rightarrow> nat option" where
  "b64_val c =
     (let n = byte_nat c in
      if 65 \<le> n \<and> n \<le> 90 then Some (n - 65)
      else if 97 \<le> n \<and> n \<le> 122 then Some (n - 71)
      else if 48 \<le> n \<and> n \<le> 57 then Some (n + 4)
      else if c = CHR ''+'' then Some 62 else if c = CHR ''/'' then Some 63 else None)"

fun b64_encode :: "bytes \<Rightarrow> string" where
  "b64_encode [] = []"
| "b64_encode [a] = (let n = byte_nat a in
     [b64_digit (n div 4), b64_digit (n mod 4 * 16), CHR ''='', CHR ''=''])"
| "b64_encode [a, b] = (let n = byte_nat a; m = byte_nat b in
     [b64_digit (n div 4), b64_digit (n mod 4 * 16 + m div 16), b64_digit (m mod 16 * 4), CHR ''=''])"
| "b64_encode (a # b # c # cs) = (let n = byte_nat a; m = byte_nat b; k = byte_nat c in
     [b64_digit (n div 4), b64_digit (n mod 4 * 16 + m div 16),
      b64_digit (m mod 16 * 4 + k div 64), b64_digit (k mod 64)] @ b64_encode cs)"

definition b64_quad :: "nat \<Rightarrow> nat \<Rightarrow> nat \<Rightarrow> nat \<Rightarrow> bytes" where
  "b64_quad p q r s = [char_of (p * 4 + q div 16), char_of (q mod 16 * 16 + r div 4),
     char_of (r mod 4 * 64 + s)]"

fun b64_groups :: "string \<Rightarrow> bytes option" where
  "b64_groups [] = Some []"
| "b64_groups [a, b, c, d] =
     (case (b64_val a, b64_val b) of
        (Some p, Some q) \<Rightarrow>
          (if c = CHR ''='' \<and> d = CHR ''='' then Some (take 1 (b64_quad p q 0 0))
           else (case b64_val c of None \<Rightarrow> None
             | Some r \<Rightarrow> if d = CHR ''='' then Some (take 2 (b64_quad p q r 0))
                  else (case b64_val d of None \<Rightarrow> None | Some s \<Rightarrow> Some (b64_quad p q r s))))
      | _ \<Rightarrow> None)"
| "b64_groups (a # b # c # d # x # xs) =
     (case (b64_val a, b64_val b, b64_val c, b64_val d, b64_groups (x # xs)) of
        (Some p, Some q, Some r, Some s, Some bs) \<Rightarrow> Some (b64_quad p q r s @ bs)
      | _ \<Rightarrow> None)"
| "b64_groups _ = None"

definition b64_decode :: "string \<Rightarrow> bytes option" where
  "b64_decode s = b64_groups (filter (\<lambda>c. c \<noteq> CHR 0x0A \<and> c \<noteq> CHR 0x0D) s)"

lemma b64_val_digit [simp]: "d < 64 \<Longrightarrow> b64_val (b64_digit d) = Some d"
  by (auto simp: b64_val_def b64_digit_def Let_def)

lemma b64_digit_range:
  assumes "d < 64"
  shows "43 \<le> byte_nat (b64_digit d)" "byte_nat (b64_digit d) < 124" "b64_digit d \<noteq> CHR ''=''"
  using assms b64_val_digit[OF assms] by (auto simp: b64_digit_def b64_val_def)

text \<open>The six-bit fields of one group of three bytes.\<close>

lemma b64_fields:
  assumes "n < 256" "m < 256" "k < (256::nat)"
  shows "n div 4 < 64" "n mod 4 * 16 + m div 16 < 64" "m mod 16 * 4 + k div 64 < 64"
    "k mod 64 < 64" "n mod 4 * 16 < 64" "m mod 16 * 4 < 64"
proof -
  have "n mod 4 < 4" "m div 16 < 16" "m mod 16 < 16" "k div 64 < 4"
    using assms by (simp_all add: less_mult_imp_div_less)
  then show "n mod 4 * 16 + m div 16 < 64" "m mod 16 * 4 + k div 64 < 64"
    "n mod 4 * 16 < 64" "m mod 16 * 4 < 64" by linarith+
qed (use assms in \<open>simp_all add: less_mult_imp_div_less\<close>)

lemma b64_quad_encode:
  assumes "n < 256" "m < 256" "k < 256"
  shows "b64_quad (n div 4) (n mod 4 * 16 + m div 16) (m mod 16 * 4 + k div 64) (k mod 64)
    = [char_of n, char_of m, char_of k]"
proof -
  have lt: "m div 16 < 16" "k div 64 < 4" using assms by (simp_all add: less_mult_imp_div_less)
  have 1: "n div 4 * 4 + (n mod 4 * 16 + m div 16) div 16 = n"
    using lt(1) by (simp add: div_mult_mod_eq)
  have 2: "(n mod 4 * 16 + m div 16) mod 16 * 16 + (m mod 16 * 4 + k div 64) div 4 = m"
    using lt by (simp add: div_mult_mod_eq)
  have 3: "(m mod 16 * 4 + k div 64) mod 4 * 64 + k mod 64 = k"
    using lt(2) by (simp add: div_mult_mod_eq)
  show ?thesis unfolding b64_quad_def 1 2 3 ..
qed

lemma b64_encode_nonempty: "s \<noteq> [] \<Longrightarrow> \<exists>a b c d r. b64_encode s = a # b # c # d # r"
  by (cases s rule: b64_encode.cases) (simp_all add: Let_def)

lemma b64_groups_encode: "b64_groups (b64_encode s) = Some s"
proof (induction s rule: b64_encode.induct)
  case 1
  then show ?case by simp
next
  case (2 a)
  show ?case using b64_quad_encode[of "byte_nat a" 0 0] b64_fields[of "byte_nat a" 0 0]
    by (simp add: Let_def)
next
  case (3 a b)
  show ?case
    using b64_quad_encode[of "byte_nat a" "byte_nat b" 0] b64_fields[of "byte_nat a" "byte_nat b" 0]
      b64_digit_range(3) by (simp add: Let_def)
next
  case (4 a b c cs)
  note r = b64_fields[of "byte_nat a" "byte_nat b" "byte_nat c", simplified]
  note q = b64_quad_encode[of "byte_nat a" "byte_nat b" "byte_nat c", simplified]
  show ?case
  proof (cases cs)
    case Nil
    with r q b64_digit_range(3) show ?thesis by (simp add: Let_def)
  next
    case (Cons e es)
    then obtain w x y z t where w: "b64_encode cs = w # x # y # z # t"
      using b64_encode_nonempty[of cs] by blast
    with 4 have "b64_groups (w # x # y # z # t) = Some cs" by simp
    with r q w show ?thesis by (simp add: Let_def)
  qed
qed

lemma b64_encode_chars:
  "list_all (\<lambda>c. 43 \<le> byte_nat c \<and> byte_nat c < 124) (b64_encode s)"
proof (induction s rule: b64_encode.induct)
  case (2 a)
  then show ?case using b64_digit_range b64_fields[of "byte_nat a" 0 0] by (simp add: Let_def)
next
  case (3 a b)
  then show ?case using b64_digit_range b64_fields[of "byte_nat a" "byte_nat b" 0]
    by (simp add: Let_def)
next
  case (4 a b c cs)
  then show ?case
    using b64_digit_range b64_fields[of "byte_nat a" "byte_nat b" "byte_nat c"] by (simp add: Let_def)
qed simp

lemma b64_encode_not:
  assumes "\<not> (43 \<le> byte_nat c \<and> byte_nat c < 124)"
  shows "c \<notin> set (b64_encode s)"
  using b64_encode_chars[of s] assms by (auto simp: list_all_iff)

lemma b64_decode_encode [simp]: "b64_decode (b64_encode s) = Some s"
proof -
  have "filter (\<lambda>c. c \<noteq> CHR 0x0A \<and> c \<noteq> CHR 0x0D) (b64_encode s) = b64_encode s"
    using b64_encode_not[of "CHR 0x0A" s] b64_encode_not[of "CHR 0x0D" s]
    by (intro filter_True) auto
  then show ?thesis by (simp add: b64_decode_def b64_groups_encode)
qed

lemma b64_encode_inject [simp]: "b64_encode s = b64_encode t \<longleftrightarrow> s = t"
  by (metis b64_decode_encode option.inject)

lemma b64_encode_no_bar: "CHR ''|'' \<notin> set (b64_encode s)"
  by (rule b64_encode_not) simp

lemma b64_encode_Nil [simp]: "b64_encode s = [] \<longleftrightarrow> s = []"
  using b64_encode_nonempty[of s] by (cases "s = []") auto

end
