(* ===== verification/Go_Sha256.thy ===== *)
theory Go_Sha256
  imports Go_Encoding
begin

text \<open>
  Go's \<open>crypto/sha256\<close> and \<open>crypto/hmac\<close> on byte strings: the FIPS 180-4 compression over 32-bit
  words and the RFC 2104 construction over it. They are written out so that every identifier,
  proof and signature of the model is a definite value; the properties use only that both are
  functions with 32-byte results.
\<close>

unbundle bit_operations_syntax

type_synonym w32 = "32 word"

section \<open>SHA-256\<close>

text \<open>The round constants and the initial hash value, in decimal.\<close>

definition sha_k :: "w32 list" where
  "sha_k = [1116352408, 1899447441, 3049323471, 3921009573, 961987163, 1508970993, 2453635748,
     2870763221, 3624381080, 310598401, 607225278, 1426881987, 1925078388, 2162078206,
     2614888103, 3248222580, 3835390401, 4022224774, 264347078, 604807628, 770255983, 1249150122,
     1555081692, 1996064986, 2554220882, 2821834349, 2952996808, 3210313671, 3336571891,
     3584528711, 113926993, 338241895, 666307205, 773529912, 1294757372, 1396182291, 1695183700,
     1986661051, 2177026350, 2456956037, 2730485921, 2820302411, 3259730800, 3345764771,
     3516065817, 3600352804, 4094571909, 275423344, 430227734, 506948616, 659060556, 883997877,
     958139571, 1322822218, 1537002063, 1747873779, 1955562222, 2024104815, 2227730452,
     2361852424, 2428436474, 2756734187, 3204031479, 3329325298]"

definition sha_h0 :: "w32 list" where
  "sha_h0 = [1779033703, 3144134277, 1013904242, 2773480762, 1359893119, 2600822924, 528734635,
     1541459225]"

definition sha_ch :: "w32 \<Rightarrow> w32 \<Rightarrow> w32 \<Rightarrow> w32" where
  "sha_ch x y z = (x AND y) XOR ((NOT x) AND z)"

definition sha_maj :: "w32 \<Rightarrow> w32 \<Rightarrow> w32 \<Rightarrow> w32" where
  "sha_maj x y z = (x AND y) XOR (x AND z) XOR (y AND z)"

definition sha_S0 :: "w32 \<Rightarrow> w32" where
  "sha_S0 x = word_rotr 2 x XOR word_rotr 13 x XOR word_rotr 22 x"

definition sha_S1 :: "w32 \<Rightarrow> w32" where
  "sha_S1 x = word_rotr 6 x XOR word_rotr 11 x XOR word_rotr 25 x"

definition sha_s0 :: "w32 \<Rightarrow> w32" where
  "sha_s0 x = word_rotr 7 x XOR word_rotr 18 x XOR drop_bit 3 x"

definition sha_s1 :: "w32 \<Rightarrow> w32" where
  "sha_s1 x = word_rotr 17 x XOR word_rotr 19 x XOR drop_bit 10 x"

text \<open>The message schedule, most recent word first.\<close>

fun sha_sched :: "nat \<Rightarrow> w32 list \<Rightarrow> w32 list" where
  "sha_sched 0 ws = ws"
| "sha_sched (Suc n) ws =
     sha_sched n ((sha_s1 (ws ! 1) + ws ! 6 + sha_s0 (ws ! 14) + ws ! 15) # ws)"

type_synonym sha_state = "w32 \<times> w32 \<times> w32 \<times> w32 \<times> w32 \<times> w32 \<times> w32 \<times> w32"

fun sha_round :: "sha_state \<Rightarrow> w32 \<times> w32 \<Rightarrow> sha_state" where
  "sha_round (a, b, c, d, e, f, g, h) (k, w) =
     (let t1 = h + sha_S1 e + sha_ch e f g + k + w; t2 = sha_S0 a + sha_maj a b c
      in (t1 + t2, a, b, c, d + t1, e, f, g))"

fun sha_add :: "sha_state \<Rightarrow> sha_state \<Rightarrow> sha_state" where
  "sha_add (a, b, c, d, e, f, g, h) (a', b', c', d', e', f', g', h') =
     (a + a', b + b', c + c', d + d', e + e', f + f', g + g', h + h')"

definition sha_block :: "sha_state \<Rightarrow> w32 list \<Rightarrow> sha_state" where
  "sha_block st m = sha_add st (foldl sha_round st (zip sha_k (rev (sha_sched 48 (rev m)))))"

definition byte_word :: "char \<Rightarrow> w32" where
  "byte_word c = of_nat (of_char c)"

fun be_words :: "bytes \<Rightarrow> w32 list" where
  "be_words (a # b # c # d # r) =
     (push_bit 24 (byte_word a) OR push_bit 16 (byte_word b) OR push_bit 8 (byte_word c)
        OR byte_word d) # be_words r"
| "be_words _ = []"

definition word_bytes :: "w32 \<Rightarrow> bytes" where
  "word_bytes w = map (\<lambda>s. char_of (unat (drop_bit s w AND 255))) [24, 16, 8, 0]"

definition len_bytes :: "nat \<Rightarrow> bytes" where
  "len_bytes n = map (\<lambda>s. char_of (8 * n div 2 ^ s mod 256)) [56, 48, 40, 32, 24, 16, 8, 0]"

definition sha_pad :: "bytes \<Rightarrow> bytes" where
  "sha_pad m = m @ [CHR 0x80] @ replicate ((119 - length m mod 64) mod 64) (CHR 0x00)
     @ len_bytes (length m)"

fun sha_blocks :: "nat \<Rightarrow> sha_state \<Rightarrow> w32 list \<Rightarrow> sha_state" where
  "sha_blocks 0 st ws = st"
| "sha_blocks (Suc n) st ws = sha_blocks n (sha_block st (take 16 ws)) (drop 16 ws)"

definition sha_init :: sha_state where
  "sha_init = (sha_h0 ! 0, sha_h0 ! 1, sha_h0 ! 2, sha_h0 ! 3, sha_h0 ! 4, sha_h0 ! 5,
     sha_h0 ! 6, sha_h0 ! 7)"

definition sha_digest :: "sha_state \<Rightarrow> bytes" where
  "sha_digest st = (case st of (a, b, c, d, e, f, g, h) \<Rightarrow>
     concat (map word_bytes [a, b, c, d, e, f, g, h]))"

definition sha256 :: "bytes \<Rightarrow> bytes" where
  "sha256 m = (let p = sha_pad m in
     sha_digest (sha_blocks (length p div 64) sha_init (be_words p)))"

lemma sha256_length [simp]: "length (sha256 m) = 32"
  by (simp add: sha256_def sha_digest_def Let_def word_bytes_def split: prod.split)

section \<open>HMAC\<close>

definition xor_byte :: "nat \<Rightarrow> char \<Rightarrow> char" where
  "xor_byte k c = char_of (k XOR of_char c)"

definition hmac_key :: "bytes \<Rightarrow> bytes" where
  "hmac_key key = (let k = (if 64 < length key then sha256 key else key)
     in k @ replicate (64 - length k) (CHR 0x00))"

definition hmac_sha256 :: "bytes \<Rightarrow> bytes \<Rightarrow> bytes" where
  "hmac_sha256 key m =
     sha256 (map (xor_byte 0x5c) (hmac_key key)
       @ sha256 (map (xor_byte 0x36) (hmac_key key) @ m))"

lemma hmac_sha256_length [simp]: "length (hmac_sha256 key m) = 32"
  by (simp add: hmac_sha256_def)

lemma hmac_sha256_nonempty [simp]: "hmac_sha256 key m \<noteq> []" "[] \<noteq> hmac_sha256 key m"
  using hmac_sha256_length[of key m] by (auto simp del: hmac_sha256_length)

end
