(* ===== verification/Go_Time.thy ===== *)
theory Go_Time
  imports Prelude
begin

text \<open>
  Go's \<open>time\<close>: an instant is its distance from the Unix epoch in nanoseconds, an integer; a
  \<open>Duration\<close> is a 64-bit count of nanoseconds. \<open>Time.Sub\<close> saturates at the ends of that range.
\<close>

definition min_duration :: int where "min_duration = - (2 ^ 63)"
definition max_duration :: int where "max_duration = 2 ^ 63 - 1"

definition time_sub :: "int \<Rightarrow> int \<Rightarrow> i64" where
  "time_sub t u = word_of_int (max min_duration (min max_duration (t - u)))"

text \<open>\<open>time.Unix(sec, 0)\<close>: the seconds are shifted to Go's internal epoch in 64 bits.\<close>

definition unix_time :: "i64 \<Rightarrow> int" where
  "unix_time sec = (sint (sec + 62135596800) - 62135596800) * 10 ^ 9"

text \<open>\<open>if d < 0 { d = -d }\<close>: the smallest duration stays negative.\<close>

definition abs64 :: "i64 \<Rightarrow> i64" where
  "abs64 d = (if sint d < 0 then - d else d)"

lemma sint_in_range: "- (2 ^ 63) \<le> i \<Longrightarrow> i < 2 ^ 63 \<Longrightarrow> sint (word_of_int i :: i64) = i"
  by (simp add: int_word_sint)

lemma sint_bounds64: "- (2 ^ 63) \<le> sint (w :: i64)" "sint (w :: i64) < 2 ^ 63"
  using sint_ge[of w] sint_lt[of w] by simp_all

lemma time_sub_sint: "sint (time_sub t u) = max min_duration (min max_duration (t - u))"
  unfolding time_sub_def by (rule sint_in_range) (auto simp: min_duration_def max_duration_def)

lemma time_sub_exact: "min_duration \<le> t - u \<Longrightarrow> t - u \<le> max_duration \<Longrightarrow> sint (time_sub t u) = t - u"
  by (simp add: time_sub_sint)

lemma sint_neg64: "sint (d :: i64) \<noteq> min_duration \<Longrightarrow> sint (- d) = - sint d"
proof -
  assume "sint d \<noteq> min_duration"
  then have b: "- (2 ^ 63) < sint d" "sint d < 2 ^ 63" using sint_bounds64[of d] by (auto simp: min_duration_def)
  have "- d = word_of_int (- sint d)" by simp
  then show ?thesis using sint_in_range[of "- sint d"] b by simp
qed

lemma abs64_sint: "sint d \<noteq> min_duration \<Longrightarrow> sint (abs64 d) = \<bar>sint d\<bar>"
  by (simp add: abs64_def sint_neg64)

lemma abs64_min:
  assumes "sint (d :: i64) = min_duration"
  shows "sint (abs64 d) = min_duration"
proof -
  have "d = word_of_int min_duration"
    unfolding assms[symmetric] by simp
  then show ?thesis by (simp add: abs64_def min_duration_def)
qed

text \<open>The skew test \<open>skew := now.Sub(t); if skew < 0 { skew = -skew }; skew <= limit\<close>. It is the
  intended test except when the instant is so far ahead that the difference saturates.\<close>

definition within_skew :: "int \<Rightarrow> int \<Rightarrow> i64 \<Rightarrow> bool" where
  "within_skew now t limit \<longleftrightarrow> sint (abs64 (time_sub now t)) \<le> sint limit"

lemma within_skew_iff:
  assumes "t - now < 2 ^ 63"
  shows "within_skew now t limit \<longleftrightarrow> min max_duration \<bar>now - t\<bar> \<le> sint limit"
proof -
  have "sint (time_sub now t) \<noteq> min_duration"
    using assms by (simp add: time_sub_sint min_duration_def max_duration_def)
  from abs64_sint[OF this] assms show ?thesis
    by (auto simp: within_skew_def time_sub_sint min_duration_def max_duration_def min_def max_def)
qed

lemma within_skew_saturated:
  assumes "2 ^ 63 \<le> t - now"
  shows "within_skew now t limit"
proof -
  have "sint (time_sub now t) = min_duration"
    using assms by (simp add: time_sub_sint min_duration_def max_duration_def)
  from abs64_min[OF this] show ?thesis
    using sint_bounds64[of limit] by (simp add: within_skew_def min_duration_def)
qed

lemma within_skew_distance:
  assumes "\<bar>now - t\<bar> \<le> max_duration"
  shows "within_skew now t limit \<longleftrightarrow> \<bar>now - t\<bar> \<le> sint limit"
  using assms by (subst within_skew_iff) (auto simp: max_duration_def)

lemma unix_time_exact: "sint sec + 62135596800 < 2 ^ 63 \<Longrightarrow> unix_time sec = sint sec * 10 ^ 9"
proof -
  assume "sint sec + 62135596800 < 2 ^ 63"
  then have "sint (word_of_int (sint sec + 62135596800) :: i64) = sint sec + 62135596800"
    using sint_bounds64[of sec] by (intro sint_in_range) simp_all
  moreover have "word_of_int (sint sec + 62135596800) = sec + 62135596800" by simp
  ultimately show ?thesis by (simp add: unix_time_def)
qed

end
