(* ===== verification/Webhook_Verify.thy ===== *)
theory Webhook_Verify
  imports Go_Net Go_Sha256 Go_Time
begin

text \<open>
  \<open>internal/ingest/stripewebhook/verify.go\<close>: the Stripe signature header and the IP allowlist.
  The current time is an argument.
\<close>

datatype verify_error =
    MissingHeader | InvalidTimestamp | MissingTimestamp | MissingV1 | SkewExceeded | SignatureMismatch

text \<open>The loop over the comma-separated parts; a later part overwrites an earlier one.\<close>

fun parse_signature_parts :: "string list \<Rightarrow> i64 \<Rightarrow> string \<Rightarrow> verify_error + (i64 \<times> string)" where
  "parse_signature_parts [] timestamp signature = Inr (timestamp, signature)"
| "parse_signature_parts (part # parts) timestamp signature =
     (case split2 CHR ''='' (trim_space part) of
        [k, v] \<Rightarrow>
          if k = ''t'' then
            (case parse_int64 v of None \<Rightarrow> Inl InvalidTimestamp
             | Some ts \<Rightarrow> parse_signature_parts parts ts signature)
          else if k = ''v1'' then parse_signature_parts parts timestamp v
          else parse_signature_parts parts timestamp signature
      | _ \<Rightarrow> parse_signature_parts parts timestamp signature)"

definition signed_payload :: "i64 \<Rightarrow> bytes \<Rightarrow> bytes" where
  "signed_payload timestamp payload = dec_int (sint timestamp) @ ''.'' @ payload"

definition expected_signature :: "string \<Rightarrow> i64 \<Rightarrow> bytes \<Rightarrow> string" where
  "expected_signature signingSecret timestamp payload =
     hex_encode (hmac_sha256 signingSecret (signed_payload timestamp payload))"

definition VerifySignature :: "int \<Rightarrow> string \<Rightarrow> bytes \<Rightarrow> string \<Rightarrow> i64 \<Rightarrow> verify_error option" where
  "VerifySignature now header payload signingSecret maxSkew =
     (if header = [] then Some MissingHeader
      else case parse_signature_parts (split_all CHR '','' header) 0 [] of
        Inl err \<Rightarrow> Some err
      | Inr (timestamp, signature) \<Rightarrow>
          if timestamp = 0 then Some MissingTimestamp
          else if signature = [] then Some MissingV1
          else if \<not> within_skew now (unix_time timestamp) maxSkew then Some SkewExceeded
          else if signature \<noteq> expected_signature signingSecret timestamp payload then Some SignatureMismatch
          else None)"

datatype ip_error = InvalidIP string | IPNotAllowed

definition VerifyIPAllowlist :: "string \<Rightarrow> string list \<Rightarrow> ip_error option" where
  "VerifyIPAllowlist remoteAddr allowedRanges =
     (if allowedRanges = [] then None
      else let host = (case SplitHostPort remoteAddr of None \<Rightarrow> remoteAddr | Some (h, _) \<Rightarrow> h)
           in case ParseIP host of None \<Rightarrow> Some (InvalidIP host)
              | Some ip \<Rightarrow>
                  if list_ex (\<lambda>cidr. case ParseCIDR cidr of None \<Rightarrow> False | Some network \<Rightarrow> Contains network ip)
                       allowedRanges
                  then None else Some IPNotAllowed)"

section \<open>Signatures\<close>

text \<open>The header a sender builds: the timestamp and the signature over it and the payload.\<close>

definition stripe_header :: "string \<Rightarrow> i64 \<Rightarrow> bytes \<Rightarrow> string" where
  "stripe_header secret ts payload =
     join '','' [''t='' @ dec_int (sint ts), ''v1='' @ expected_signature secret ts payload]"

lemma VerifySignature_None_iff:
  "VerifySignature now header payload secret maxSkew = None \<longleftrightarrow>
     (\<exists>ts. header \<noteq> [] \<and> ts \<noteq> 0
        \<and> parse_signature_parts (split_all CHR '','' header) 0 [] = Inr (ts, expected_signature secret ts payload)
        \<and> expected_signature secret ts payload \<noteq> []
        \<and> within_skew now (unix_time ts) maxSkew)"
  by (auto simp: VerifySignature_def split: sum.splits prod.splits if_splits)

lemma expected_signature_length [simp]: "length (expected_signature s t p) = 64"
  by (simp add: expected_signature_def)

lemma expected_signature_chars: "c \<in> set (expected_signature s t p) \<Longrightarrow> is_lower_hex c"
  by (auto simp: expected_signature_def dest: hex_encode_lower)

lemma is_lower_hex_printable: "is_lower_hex c \<Longrightarrow> printable c \<and> c \<noteq> CHR '',''"
proof -
  have "printable (hex_digit d) \<and> hex_digit d \<noteq> CHR '',''" if "d < 16" for d
  proof -
    have "48 \<le> (of_char (hex_digit d) :: nat) \<and> of_char (hex_digit d) < (127 :: nat)"
      using that by (simp add: hex_digit_def)
    then show ?thesis by (auto simp: printable_def)
  qed
  then show "is_lower_hex c \<Longrightarrow> ?thesis" by (auto simp: is_lower_hex_def)
qed

lemma expected_signature_printable: "c \<in> set (expected_signature s t p) \<Longrightarrow> printable c \<and> c \<noteq> CHR '',''"
  by (rule is_lower_hex_printable[OF expected_signature_chars])

lemma dec_int_last_digit: "is_digit (last (dec_int i))"
  using dec_nat_digits[of "nat i"] dec_nat_digits[of "nat (- i)"]
  by (auto simp: dec_int_def list_all_iff)

lemma stripe_header_parts:
  "split_all CHR '','' (stripe_header secret ts payload)
     = [''t='' @ dec_int (sint ts), ''v1='' @ expected_signature secret ts payload]"
  unfolding stripe_header_def
  by (rule split_all_join) (auto simp: dec_int_no is_digit_def dest: expected_signature_printable)

lemma trim_t: "trim_space (''t='' @ dec_int i) = ''t='' @ dec_int i"
proof (rule trim_space_id)
  show "printable (last (''t='' @ dec_int i))"
    using is_digit_printable[OF dec_int_last_digit[of i]] by (simp add: last_append)
qed (simp_all add: printable_def)

lemma trim_v1: "trim_space (''v1='' @ expected_signature s t p) = ''v1='' @ expected_signature s t p"
proof (rule trim_space_id)
  have ne: "expected_signature s t p \<noteq> []" by (metis expected_signature_length list.size(3) zero_neq_numeral)
  then show "printable (last (''v1='' @ expected_signature s t p))"
    using expected_signature_printable[OF last_in_set[OF ne]] by (simp add: last_append)
qed (simp_all add: printable_def)

lemma parse_stripe_header:
  "parse_signature_parts (split_all CHR '','' (stripe_header secret ts payload)) 0 []
     = Inr (ts, expected_signature secret ts payload)"
proof -
  have t: "split2 CHR ''='' (''t='' @ dec_int (sint ts)) = [''t'', dec_int (sint ts)]"
    using split2_append[of "CHR ''=''" "''t''" "dec_int (sint ts)"] by simp
  have v: "split2 CHR ''='' (''v1='' @ expected_signature secret ts payload) = [''v1'', expected_signature secret ts payload]"
    using split2_append[of "CHR ''=''" "''v1''" "expected_signature secret ts payload"] by simp
  show ?thesis
    unfolding stripe_header_parts
    by (simp only: parse_signature_parts.simps trim_t trim_v1 t v list.case) (simp add: parse_int64_dec_int)
qed

lemma VerifySignature_own_header:
  assumes "ts \<noteq> 0"
  shows "VerifySignature now (stripe_header secret ts payload) payload' secret' maxSkew =
    (if \<not> within_skew now (unix_time ts) maxSkew then Some SkewExceeded
     else if expected_signature secret ts payload \<noteq> expected_signature secret' ts payload' then Some SignatureMismatch
     else None)"
proof -
  have ne: "expected_signature secret ts payload \<noteq> []" by (metis expected_signature_length list.size(3) zero_neq_numeral)
  have h: "stripe_header secret ts payload \<noteq> []" by (simp add: stripe_header_def)
  show ?thesis using assms ne h by (simp add: VerifySignature_def parse_stripe_header)
qed

text \<open>Acceptance binds the payload: the signature in the header is the HMAC of this payload under the
  secret, at a timestamp within the skew.\<close>

lemma signed_payload_inject: "signed_payload t p = signed_payload t p' \<longleftrightarrow> p = p'"
  by (simp add: signed_payload_def)

lemma signed_payload_unambiguous:
  "signed_payload t p = signed_payload t' p' \<longleftrightarrow> t = t' \<and> p = p'"
proof -
  have "CHR ''.'' \<notin> set (dec_int i)" for i by (rule dec_int_no) (simp_all add: is_digit_def)
  from sep_frame_inject[OF this[of "sint t"] this[of "sint t'"], of p p'] show ?thesis
    by (auto simp: signed_payload_def dec_int_inject signed_word_eqI)
qed

section \<open>The allowlist\<close>

lemma VerifyIPAllowlist_None_iff:
  "VerifyIPAllowlist addr ranges = None \<longleftrightarrow> ranges = [] \<or>
     (\<exists>ip. ParseIP (case SplitHostPort addr of None \<Rightarrow> addr | Some (h, _) \<Rightarrow> h) = Some ip
        \<and> (\<exists>cidr\<in>set ranges. \<exists>n. ParseCIDR cidr = Some n \<and> Contains n ip))"
  by (auto simp: VerifyIPAllowlist_def Let_def list_ex_iff split: option.splits)

end
