(* ===== verification/Go_Float.thy ===== *)
theory Go_Float
  imports Go_Text "HOL-Library.Log_Nat"
begin

text \<open>
  Go's \<open>float64\<close>: IEEE 754 binary64 with round-to-nearest, ties to even. A finite value is the
  rational it denotes; each operation is the exact rational operation followed by one rounding, and
  a result beyond the largest finite value is an infinity. The two zeros are identified: the agent
  never divides by a computed value and never prints a zero with a sign. The lemmas are the ones
  the score computations rest on: rounding is monotone, leaves representable values alone, and
  commutes with negation.
\<close>

section \<open>Rounding\<close>

definition round_even :: "rat \<Rightarrow> int" where
  "round_even q = (let f = \<lfloor>q\<rfloor>; d = q - of_int f in
     if d < 1 / 2 then f else if 1 / 2 < d then f + 1 else if even f then f else f + 1)"

definition ilog2 :: "rat \<Rightarrow> int" where
  "ilog2 q = (let (n, d) = quotient_of q;
     k = int (floorlog 2 (nat n)) - int (floorlog 2 (nat d))
   in if 2 powi k \<le> q then k else k - 1)"

definition fexp :: "rat \<Rightarrow> int" where
  "fexp q = max (ilog2 \<bar>q\<bar> - 52) (- 1074)"

definition rnd :: "rat \<Rightarrow> rat" where
  "rnd q = (if q = 0 then 0 else of_int (round_even (q / 2 powi fexp q)) * 2 powi fexp q)"

lemma round_even_of_int [simp]: "round_even (of_int i) = i"
  by (simp add: round_even_def)

lemma round_even_near: assumes "of_int m - 1 / 2 < q" "q < of_int m + 1 / 2" shows "round_even q = m"
proof (cases "of_int m \<le> q")
  case True
  with assms have "\<lfloor>q\<rfloor> = m" by (intro floor_unique) linarith+
  with assms show ?thesis by (simp add: round_even_def)
next
  case False
  with assms have "\<lfloor>q\<rfloor> = m - 1" by (intro floor_unique) simp_all
  with assms show ?thesis by (simp add: round_even_def)
qed

lemma round_even_mono: assumes "x \<le> y" shows "round_even x \<le> round_even y"
proof (cases "\<lfloor>x\<rfloor> = \<lfloor>y\<rfloor>")
  case True
  with assms show ?thesis by (auto simp: round_even_def Let_def)
next
  case False
  with floor_mono[OF assms] have "\<lfloor>x\<rfloor> + 1 \<le> \<lfloor>y\<rfloor>" by linarith
  moreover have "round_even x \<le> \<lfloor>x\<rfloor> + 1" "\<lfloor>y\<rfloor> \<le> round_even y"
    by (simp_all add: round_even_def Let_def)
  ultimately show ?thesis by linarith
qed

lemma round_even_minus: "round_even (- x) = - round_even x"
proof (cases "x = of_int \<lfloor>x\<rfloor>")
  case True
  then show ?thesis by (metis round_even_of_int of_int_minus)
next
  case False
  have fl: "\<lfloor>- x\<rfloor> = - \<lfloor>x\<rfloor> - 1"
  proof (rule floor_unique)
    show "of_int (- \<lfloor>x\<rfloor> - 1) \<le> - x" by simp linarith
    show "- x < of_int (- \<lfloor>x\<rfloor> - 1) + 1" using False by simp linarith
  qed
  show ?thesis unfolding round_even_def Let_def fl by (simp add: algebra_simps)
qed

lemma pow2_pos [simp]: "(0::rat) < 2 powi e"
  by (simp add: zero_less_power_int)

lemma pow2_mono: "e \<le> f \<Longrightarrow> (2::rat) powi e \<le> 2 powi f"
  by (rule power_int_increasing) simp_all

lemma pow2_less_iff: "(2::rat) powi e < 2 powi f \<longleftrightarrow> e < f"
  by (metis less_le_not_le linorder_not_le pow2_mono power_int_strict_increasing one_less_numeral_iff semiring_norm(76))

lemma pow2_le_iff: "(2::rat) powi e \<le> 2 powi f \<longleftrightarrow> e \<le> f"
  using pow2_less_iff[of f e] by linarith

lemma pow2_add: "(2::rat) powi (e + f) = 2 powi e * 2 powi f"
  by (simp add: power_int_add)

lemma pow2_nat: "(2::rat) powi int n = 2 ^ n"
  by (simp add: power_int_def)

lemma floorlog_bounds_rat:
  assumes "0 < n"
  shows "(2::rat) powi (int (floorlog 2 n) - 1) \<le> of_nat n" "of_nat n < (2::rat) powi int (floorlog 2 n)"
proof -
  have b: "2 ^ (floorlog 2 n - 1) \<le> n" "n < 2 ^ floorlog 2 n"
    using floorlog_bounds[of n 2] assms by auto
  then have "floorlog 2 n \<noteq> 0" using assms by (cases "floorlog 2 n") auto
  then have e: "int (floorlog 2 n) - 1 = int (floorlog 2 n - 1)" by simp
  from b(1) have "(of_nat (2 ^ (floorlog 2 n - 1)) :: rat) \<le> of_nat n" by (simp only: of_nat_le_iff)
  then show "(2::rat) powi (int (floorlog 2 n) - 1) \<le> of_nat n" unfolding e pow2_nat by simp
  from b(2) have "(of_nat n :: rat) < of_nat (2 ^ floorlog 2 n)" by (simp only: of_nat_less_iff)
  then show "of_nat n < (2::rat) powi int (floorlog 2 n)" unfolding pow2_nat by simp
qed

lemma ilog2_bounds:
  assumes "0 < q"
  shows "2 powi ilog2 q \<le> q" "q < 2 powi (ilog2 q + 1)"
proof -
  obtain n d where nd: "quotient_of q = (n, d)" by (cases "quotient_of q")
  from quotient_of_denom_pos[OF nd] have d: "0 < d" .
  from quotient_of_div[OF nd] have q: "q = of_int n / of_int d" .
  with assms d have n: "0 < n" by (simp add: zero_less_divide_iff)
  define a where "a = int (floorlog 2 (nat n))"
  define b where "b = int (floorlog 2 (nat d))"
  have na: "2 powi (a - 1) \<le> (of_int n :: rat)" "(of_int n :: rat) < 2 powi a"
    using floorlog_bounds_rat[of "nat n"] n by (simp_all add: a_def)
  have db: "2 powi (b - 1) \<le> (of_int d :: rat)" "(of_int d :: rat) < 2 powi b"
    using floorlog_bounds_rat[of "nat d"] d by (simp_all add: b_def)
  have k: "ilog2 q = (if 2 powi (a - b) \<le> q then a - b else a - b - 1)"
    by (simp add: ilog2_def nd a_def b_def)
  have dpos: "(0::rat) < of_int d" using d by simp
  have up: "q < 2 powi (a - b + 1)"
  proof -
    have "of_int n < (2::rat) powi (a - b + 1) * 2 powi (b - 1)"
      using na(2) by (simp flip: pow2_add)
    also have "\<dots> \<le> 2 powi (a - b + 1) * of_int d" using db(1) by simp
    finally show ?thesis using dpos by (simp add: q pos_divide_less_eq)
  qed
  have lo: "2 powi (a - b - 1) \<le> q"
  proof -
    have "2 powi (a - b - 1) * of_int d \<le> (2::rat) powi (a - b - 1) * 2 powi b" using db(2) by simp
    also have "\<dots> \<le> of_int n" using na(1) by (simp flip: pow2_add)
    finally show ?thesis using dpos by (simp add: q pos_le_divide_eq)
  qed
  show "2 powi ilog2 q \<le> q" using lo by (simp add: k)
  show "q < 2 powi (ilog2 q + 1)" using up by (simp add: k)
qed

lemma ilog2_mono: assumes "0 < x" "x \<le> y" shows "ilog2 x \<le> ilog2 y"
proof -
  have "2 powi ilog2 x < (2::rat) powi (ilog2 y + 1)"
    using ilog2_bounds(1)[of x] ilog2_bounds(2)[of y] assms by linarith
  then show ?thesis by (simp add: pow2_less_iff)
qed

lemma ilog2_less: assumes "0 < q" "q < 2 powi e" shows "ilog2 q < e"
proof -
  have "2 powi ilog2 q < (2::rat) powi e" using ilog2_bounds(1)[OF assms(1)] assms(2) by linarith
  then show ?thesis by (simp add: pow2_less_iff)
qed

lemma fexp_mono: "0 < x \<Longrightarrow> x \<le> y \<Longrightarrow> fexp x \<le> fexp y"
  using ilog2_mono[of x y] by (simp add: fexp_def)

lemma fexp_minus [simp]: "fexp (- q) = fexp q"
  by (simp add: fexp_def)

lemma rnd_0 [simp]: "rnd 0 = 0"
  by (simp add: rnd_def)

lemma rnd_minus: "rnd (- q) = - rnd q"
  by (simp add: rnd_def round_even_minus)

lemma mantissa_less: assumes "0 < q" shows "q / 2 powi fexp q < 2 ^ 53"
proof -
  have "q < 2 powi (ilog2 q + 1)" by (rule ilog2_bounds(2)[OF assms])
  also have "\<dots> \<le> 2 powi (53 + fexp q)" using assms by (intro pow2_mono) (simp add: fexp_def)
  also have "\<dots> = 2 ^ 53 * 2 powi fexp q" using pow2_nat[of 53] by (simp add: pow2_add)
  finally show ?thesis by (simp add: pos_divide_less_eq)
qed

lemma mantissa_ge: assumes "0 < q" "- 1074 < fexp q" shows "2 ^ 52 \<le> q / 2 powi fexp q"
proof -
  from assms have e: "ilog2 q = 52 + fexp q" by (simp add: fexp_def)
  have "2 ^ 52 * 2 powi fexp q = (2::rat) powi ilog2 q"
    using pow2_nat[of 52] by (simp add: e pow2_add)
  also have "\<dots> \<le> q" by (rule ilog2_bounds(1)[OF assms(1)])
  finally show ?thesis by (simp add: pos_le_divide_eq)
qed

lemma rnd_nonneg: assumes "0 \<le> q" shows "0 \<le> rnd q"
proof -
  have "round_even 0 \<le> round_even (q / 2 powi fexp q)" using assms by (intro round_even_mono) simp
  then have "0 \<le> round_even (q / 2 powi fexp q)" using round_even_of_int[of 0] by simp
  then show ?thesis by (simp add: rnd_def)
qed

lemma rnd_mono_pos: assumes x: "0 < x" and xy: "x \<le> y" shows "rnd x \<le> rnd y"
proof -
  from x xy have y: "0 < y" by linarith
  have le: "fexp x \<le> fexp y" by (rule fexp_mono[OF x xy])
  show ?thesis
  proof (cases "fexp x = fexp y")
    case True
    have "round_even (x / 2 powi fexp y) \<le> round_even (y / 2 powi fexp y)"
      using xy by (intro round_even_mono divide_right_mono) simp_all
    then show ?thesis using x y True by (simp add: rnd_def)
  next
    case False
    with le have lt: "fexp x + 1 \<le> fexp y" by linarith
    have "round_even (x / 2 powi fexp x) \<le> round_even (of_int (2 ^ 53))"
      using mantissa_less[OF x] by (intro round_even_mono) simp
    then have "of_int (round_even (x / 2 powi fexp x)) \<le> (of_int (2 ^ 53) :: rat)"
      unfolding round_even_of_int by (simp only: of_int_le_iff)
    then have "rnd x \<le> 2 ^ 53 * 2 powi fexp x" using x by (simp add: rnd_def)
    also have "\<dots> = 2 ^ 52 * 2 powi (fexp x + 1)" by (simp add: pow2_add)
    also have "\<dots> \<le> 2 ^ 52 * 2 powi fexp y" using pow2_mono[OF lt] by simp
    also have "\<dots> \<le> rnd y"
    proof -
      have "- 1074 < fexp y" using lt by (simp add: fexp_def)
      then have "round_even (of_int (2 ^ 52)) \<le> round_even (y / 2 powi fexp y)"
        using mantissa_ge[OF y] by (intro round_even_mono) simp
      then have "(of_int (2 ^ 52) :: rat) \<le> of_int (round_even (y / 2 powi fexp y))"
        unfolding round_even_of_int by (simp only: of_int_le_iff)
      then show ?thesis using y by (simp add: rnd_def)
    qed
    finally show ?thesis .
  qed
qed

theorem rnd_mono: assumes "x \<le> y" shows "rnd x \<le> rnd y"
proof (cases "0 < x")
  case True
  then show ?thesis using assms by (rule rnd_mono_pos)
next
  case nx: False
  show ?thesis
  proof (cases "0 \<le> y")
    case True
    have "0 \<le> rnd (- x)" using nx by (intro rnd_nonneg) simp
    then have "rnd x \<le> 0" by (simp add: rnd_minus)
    with rnd_nonneg[OF True] show ?thesis by linarith
  next
    case False
    then have "rnd (- y) \<le> rnd (- x)" using assms by (intro rnd_mono_pos) simp_all
    then show ?thesis by (simp add: rnd_minus)
  qed
qed

text \<open>A rational with a mantissa of at most 53 bits and an exponent in range is representable.\<close>

lemma rnd_exact_pos:
  assumes m: "0 < m" "m < 2 ^ 53" and e: "- 1074 \<le> e"
  shows "rnd (of_int m * 2 powi e) = of_int m * 2 powi e"
proof -
  let ?q = "of_int m * 2 powi e :: rat"
  have q: "0 < ?q" using m by simp
  have "(of_int m :: rat) < of_int (2 ^ 53)" using m(2) by (simp only: of_int_less_iff)
  then have "?q < 2 powi (53 + e)" using pow2_nat[of 53] by (simp add: pow2_add)
  then have "ilog2 ?q < 53 + e" by (rule ilog2_less[OF q])
  then have fe: "fexp ?q \<le> e" using e q by (simp add: fexp_def)
  define k where "k = nat (e - fexp ?q)"
  have ek: "e = int k + fexp ?q" using fe by (simp add: k_def)
  have pw: "2 powi e = (2::rat) ^ k * 2 powi fexp ?q"
    using pow2_add[of "int k" "fexp ?q"] pow2_nat[of k] ek by metis
  have "?q = of_int (m * 2 ^ k) * 2 powi fexp ?q" using pw by simp
  then have "?q / 2 powi fexp ?q = of_int (m * 2 ^ k)"
    by (metis less_numeral_extra(3) nonzero_eq_divide_eq pow2_pos)
  then have "rnd ?q = of_int (m * 2 ^ k) * 2 powi fexp ?q"
    using q unfolding rnd_def by (simp only: round_even_of_int) simp
  with pw show ?thesis by simp
qed

lemma rnd_exact:
  assumes "\<bar>m\<bar> < 2 ^ 53" and "- 1074 \<le> e"
  shows "rnd (of_int m * 2 powi e) = of_int m * 2 powi e"
proof (cases "m = 0")
  case True
  then show ?thesis by simp
next
  case False
  show ?thesis
  proof (cases "0 < m")
    case True
    then show ?thesis using assms by (intro rnd_exact_pos) simp_all
  next
    case neg: False
    then have "rnd (of_int (- m) * 2 powi e) = of_int (- m) * 2 powi e"
      using assms False by (intro rnd_exact_pos) simp_all
    then show ?thesis by (simp add: rnd_minus)
  qed
qed

text \<open>How to evaluate a rounding: exhibit the exponent.\<close>

lemma ilog2_eqI: assumes "2 powi k \<le> q" "q < 2 powi (k + 1)" shows "ilog2 q = k"
proof -
  have q: "0 < q" using assms(1) pow2_pos[of k] by linarith
  have "ilog2 q < k + 1" by (rule ilog2_less[OF q assms(2)])
  moreover have "2 powi k < (2::rat) powi (ilog2 q + 1)"
    using ilog2_bounds(2)[OF q] assms(1) by linarith
  ultimately show ?thesis by (simp add: pow2_less_iff)
qed

lemma rnd_eqI:
  assumes lo: "2 ^ 52 * 2 powi e \<le> q" and hi: "q < 2 ^ 53 * 2 powi e" and e: "- 1074 \<le> e"
    and r: "round_even (q / 2 powi e) = m"
  shows "rnd q = of_int m * 2 powi e"
proof -
  have "0 < 2 ^ 52 * (2::rat) powi e" by simp
  then have q: "0 < q" using lo by (rule less_le_trans)
  have "ilog2 q = 52 + e"
    using lo hi pow2_nat[of 52] pow2_nat[of 53] pow2_add[of 52 e] pow2_add[of 53 e]
    by (intro ilog2_eqI) (simp_all add: add.commute)
  with e q have "fexp q = e" by (simp add: fexp_def)
  with q r show ?thesis by (simp add: rnd_def)
qed

lemma rnd_int_exact: "\<bar>m\<bar> < 2 ^ 53 \<Longrightarrow> rnd (of_int m) = of_int m"
  using rnd_exact[of m 0] by simp

lemma rnd_1 [simp]: "rnd 1 = 1"
  using rnd_int_exact[of 1] by simp

section \<open>Values and operations\<close>

datatype f64 = NaN | PInf | NInf | Fin rat

definition f_max :: rat where
  "f_max = (2 ^ 53 - 1) * 2 ^ 971"

definition to_f64 :: "rat \<Rightarrow> f64" where
  "to_f64 q = (let r = rnd q in if f_max < r then PInf else if r < - f_max then NInf else Fin r)"

fun f_neg :: "f64 \<Rightarrow> f64" where
  "f_neg NaN = NaN"
| "f_neg PInf = NInf"
| "f_neg NInf = PInf"
| "f_neg (Fin a) = Fin (- a)"

fun f_add :: "f64 \<Rightarrow> f64 \<Rightarrow> f64" where
  "f_add (Fin a) (Fin b) = to_f64 (a + b)"
| "f_add NaN y = NaN"
| "f_add x NaN = NaN"
| "f_add PInf NInf = NaN"
| "f_add NInf PInf = NaN"
| "f_add PInf y = PInf"
| "f_add NInf y = NInf"
| "f_add x PInf = PInf"
| "f_add x NInf = NInf"

definition f_sub :: "f64 \<Rightarrow> f64 \<Rightarrow> f64" where
  "f_sub x y = f_add x (f_neg y)"

definition f_signed_inf :: "bool \<Rightarrow> f64" where
  "f_signed_inf neg = (if neg then NInf else PInf)"

fun f_mul :: "f64 \<Rightarrow> f64 \<Rightarrow> f64" where
  "f_mul (Fin a) (Fin b) = to_f64 (a * b)"
| "f_mul NaN y = NaN"
| "f_mul x NaN = NaN"
| "f_mul (Fin a) PInf = (if a = 0 then NaN else f_signed_inf (a < 0))"
| "f_mul (Fin a) NInf = (if a = 0 then NaN else f_signed_inf (0 < a))"
| "f_mul PInf (Fin a) = (if a = 0 then NaN else f_signed_inf (a < 0))"
| "f_mul NInf (Fin a) = (if a = 0 then NaN else f_signed_inf (0 < a))"
| "f_mul PInf PInf = PInf"
| "f_mul NInf NInf = PInf"
| "f_mul PInf NInf = NInf"
| "f_mul NInf PInf = NInf"

fun f_div :: "f64 \<Rightarrow> f64 \<Rightarrow> f64" where
  "f_div (Fin a) (Fin b) = (if b = 0 then (if a = 0 then NaN else f_signed_inf (a < 0))
     else to_f64 (a / b))"
| "f_div NaN y = NaN"
| "f_div x NaN = NaN"
| "f_div (Fin a) y = Fin 0"
| "f_div PInf (Fin b) = f_signed_inf (b < 0)"
| "f_div NInf (Fin b) = f_signed_inf (0 \<le> b)"
| "f_div x y = NaN"

text \<open>Comparisons: every comparison with a NaN is false.\<close>

fun f_less :: "f64 \<Rightarrow> f64 \<Rightarrow> bool" where
  "f_less (Fin a) (Fin b) = (a < b)"
| "f_less NaN y = False"
| "f_less x NaN = False"
| "f_less x NInf = False"
| "f_less NInf y = True"
| "f_less PInf y = False"
| "f_less x PInf = True"

fun f_eq :: "f64 \<Rightarrow> f64 \<Rightarrow> bool" where
  "f_eq (Fin a) (Fin b) = (a = b)"
| "f_eq PInf PInf = True"
| "f_eq NInf NInf = True"
| "f_eq x y = False"

definition f_ge :: "f64 \<Rightarrow> f64 \<Rightarrow> bool" where
  "f_ge x y \<longleftrightarrow> f_less y x \<or> f_eq x y"

definition f_of_int64 :: "i64 \<Rightarrow> f64" where
  "f_of_int64 w = to_f64 (of_int (sint w))"

text \<open>
  A decimal constant of the source denotes the nearest \<open>float64\<close>.
\<close>

definition f_const :: "rat \<Rightarrow> f64" where
  "f_const q = to_f64 q"

lemma rnd_f_max: "rnd f_max = f_max"
  using rnd_exact[of "2 ^ 53 - 1" 971] pow2_nat[of 971] by (simp add: f_max_def)

lemma to_f64_Fin:
  assumes "\<bar>q\<bar> \<le> f_max"
  shows "to_f64 q = Fin (rnd q)"
proof -
  from assms have "q \<le> f_max" "- f_max \<le> q" by linarith+
  then have "rnd q \<le> f_max" "- f_max \<le> rnd q"
    using rnd_mono[of q f_max] rnd_mono[of "- f_max" q] by (simp_all add: rnd_minus rnd_f_max)
  then show ?thesis by (simp add: to_f64_def)
qed

lemma f_max_big: "2 ^ 1000 \<le> f_max"
  by (simp add: f_max_def)

lemma to_f64_small: "\<bar>q\<bar> \<le> 2 ^ 64 \<Longrightarrow> to_f64 q = Fin (rnd q)"
  using f_max_big by (intro to_f64_Fin) simp

lemma f_less_irrefl [simp]: "\<not> f_less x x"
  by (cases x) simp_all

lemma f_less_trans: "f_less x y \<Longrightarrow> f_less y z \<Longrightarrow> f_less x z"
  by (cases x; cases y; cases z) auto

lemma f_less_asym: "f_less x y \<Longrightarrow> \<not> f_less y x"
  by (cases x; cases y) auto

lemma f_add_comm: "f_add x y = f_add y x"
  by (cases x; cases y) (simp_all add: add.commute)

lemma f_of_int64_Fin: "f_of_int64 w = Fin (rnd (of_int (sint w)))"
proof -
  have "- (2 ^ 63) \<le> sint w" "sint w < 2 ^ 63" using sint_ge[of w] sint_lt[of w] by simp_all
  then have "\<bar>sint w\<bar> \<le> 2 ^ 64" by (simp add: abs_if)
  then have "(of_int \<bar>sint w\<bar> :: rat) \<le> of_int (2 ^ 64)" by (simp only: of_int_le_iff)
  then show ?thesis unfolding f_of_int64_def by (intro to_f64_small) simp
qed

text \<open>\<open>%.2f\<close>: the exact value rounded to two decimals, ties to even.\<close>

definition fmt_2f :: "f64 \<Rightarrow> string" where
  "fmt_2f x = (case x of NaN \<Rightarrow> ''NaN'' | PInf \<Rightarrow> ''+Inf'' | NInf \<Rightarrow> ''-Inf''
     | Fin q \<Rightarrow> (let c = nat (round_even (\<bar>q\<bar> * 100)) in
         (if q < 0 then ''-'' else []) @ dec_nat (c div 100) @ ''.'' @ pad_zero 2 (dec_nat (c mod 100))))"

lemma f_const_06: "f_const (6 / 10) = Fin (5404319552844595 / 9007199254740992)"
proof -
  have "rnd (6 / 10) = of_int 5404319552844595 * 2 powi (- 53)"
    by (rule rnd_eqI, simp_all add: power_int_minus) (rule round_even_near; simp)
  then show ?thesis unfolding f_const_def by (subst to_f64_small) (simp_all add: power_int_minus)
qed

lemma f_const_08: "f_const (8 / 10) = Fin (3602879701896397 / 4503599627370496)"
proof -
  have "rnd (8 / 10) = of_int 7205759403792794 * 2 powi (- 53)"
    by (rule rnd_eqI, simp_all add: power_int_minus) (rule round_even_near; simp)
  then show ?thesis unfolding f_const_def by (subst to_f64_small) (simp_all add: power_int_minus)
qed

lemma f_const_09: "f_const (9 / 10) = Fin (8106479329266893 / 9007199254740992)"
proof -
  have "rnd (9 / 10) = of_int 8106479329266893 * 2 powi (- 53)"
    by (rule rnd_eqI, simp_all add: power_int_minus) (rule round_even_near; simp)
  then show ?thesis unfolding f_const_def by (subst to_f64_small) (simp_all add: power_int_minus)
qed

lemma f_const_05: "f_const (1 / 2) = Fin (1 / 2)"
proof -
  have "rnd (1 / 2) = of_int 4503599627370496 * 2 powi (- 53)"
    by (rule rnd_eqI) (simp_all add: power_int_minus round_even_def Let_def)
  then show ?thesis unfolding f_const_def by (subst to_f64_small) (simp_all add: power_int_minus)
qed

lemma f_const_1: "f_const 1 = Fin 1" and f_const_0: "f_const 0 = Fin 0"
  unfolding f_const_def by (simp_all add: to_f64_small)

text \<open>The decimal literals of the code, as opaque names for their binary64 values.\<close>

definition lit_05 :: f64 where "lit_05 = f_const (5 / 10)"
definition lit_06 :: f64 where "lit_06 = f_const (6 / 10)"
definition lit_08 :: f64 where "lit_08 = f_const (8 / 10)"
definition lit_09 :: f64 where "lit_09 = f_const (9 / 10)"

lemma lit_values:
  "lit_05 = Fin (1 / 2)" "lit_06 = Fin (5404319552844595 / 9007199254740992)"
  "lit_08 = Fin (3602879701896397 / 4503599627370496)" "lit_09 = Fin (8106479329266893 / 9007199254740992)"
proof -
  have "(5 / 10 :: rat) = 1 / 2" by simp
  then show "lit_05 = Fin (1 / 2)" unfolding lit_05_def by (metis f_const_05)
qed (unfold lit_06_def lit_08_def lit_09_def, rule f_const_06, rule f_const_08, rule f_const_09)

end
