(* ===== verification/Config.thy ===== *)
theory Config
  imports Go_Net Go_Float "HOL-Library.AList"
begin

text \<open>
  \<open>internal/config/config.go\<close>: the configuration records, the resolution of \<open>env:NAME\<close> values, and
  validation, which also fills in defaults and migrates the legacy export fields. \<open>Load\<close> takes the
  file system, the YAML decoder and the environment as arguments. A Go map with string keys is an
  association list; None is the nil map.
\<close>

section \<open>Records\<close>

record Server =
  srv_Addr :: string

record Privacy =
  pv_Mode :: string
  pv_IDMode :: string
  pv_TenantSalt :: string
  pv_AllowPassthroughExports :: bool

record StripeWebhookRetry =
  rt_MaxAttempts :: i64
  rt_BaseBackoff :: i64
  rt_MaxBackoff :: i64

record StripeWebhook =
  wh_Enabled :: bool
  wh_Path :: string
  wh_SigningSecret :: string
  wh_AllowedIPRanges :: "string list"
  wh_MaxSkew :: i64
  wh_Retry :: StripeWebhookRetry

record StripeSource =
  st_APIKey :: string
  st_Account :: string
  st_MaxRequestsPerSecond :: i64
  st_Webhook :: StripeWebhook

record Sources =
  so_Stripe :: "StripeSource option"

type_synonym string_map = "(string \<times> string) list option"

record ExportHTTPHeaders =
  eh_AuthorizationEnv :: string

record ExportHTTP =
  xh_BaseURL :: string
  xh_Routes :: string_map
  xh_Headers :: ExportHTTPHeaders
  xh_MaxRetries :: i64
  xh_BatchSize :: i64
  xh_FlushEvery :: i64

record ExportFile =
  xf_Paths :: string_map

record Export =
  xp_Mode :: string
  xp_Endpoint :: string
  xp_FilePath :: string
  xp_HTTP :: ExportHTTP
  xp_File :: ExportFile

record MatcherRecipe =
  mr_Name :: string
  mr_Version :: string
  mr_Weights :: "(string \<times> f64) list option"
  mr_Threshold :: f64
  mr_TemporalWindowSec :: i64
  mr_SKUOverlapMin :: f64

record MatchersConfig =
  mc_Recipe :: MatcherRecipe

record HeartbeatConfig =
  hb_Enabled :: bool
  hb_Interval :: i64
  hb_Endpoint :: string
  hb_SignatureSecret :: string

record CommandPolling =
  cp_Enabled :: bool
  cp_Interval :: i64
  cp_SignatureSecret :: string
  cp_MaxClockSkew :: i64
  cp_Timeout :: i64

record AgentConfig =
  ac_ID :: string
  ac_OrganizationID :: string
  ac_Version :: string

record QueueStreamConfig =
  qs_MaxBytes :: i64
  qs_MaxEvents :: i64
  qs_DropPolicy :: string
  qs_SegmentSize :: i64

record QueueDLQConfig =
  qd_MaxBytes :: i64
  qd_RetentionDays :: i64

record QueueConfig =
  qc_Type :: string
  qc_WALPath :: string
  qc_Billing :: QueueStreamConfig
  qc_Usage :: QueueStreamConfig
  qc_Edges :: QueueStreamConfig
  qc_DLQ :: QueueDLQConfig

record Config =
  cfg_CDPBaseURL :: string
  cfg_Agent :: AgentConfig
  cfg_Server :: Server
  cfg_Privacy :: Privacy
  cfg_Sources :: Sources
  cfg_Export :: Export
  cfg_Matchers :: MatchersConfig
  cfg_Heartbeat :: HeartbeatConfig
  cfg_CommandPolling :: CommandPolling
  cfg_Queue :: QueueConfig

datatype config_error =
    ReadFailed | ParseFailed
  | EmptyAddr | BadPrivacyMode | BadIDMode string | SaltRequired | SaltRequiredLegacy
  | EmptyAPIKey | EmptySigningSecret | BadWebhookPath string | BadCIDR string
  | BadExportMode | EmptyBaseURL | EmptyEdgesPath
  | ThresholdRange f64 | NegativeTemporalWindow i64 | OverlapRange f64 | NegativeWeight
  | NoHeartbeatEndpoint | NoHeartbeatSecret | NoPollingSecret

section \<open>Maps\<close>

definition map_get :: "string_map \<Rightarrow> string \<Rightarrow> string" where
  "map_get m k = (case m of None \<Rightarrow> [] | Some kvs \<Rightarrow> (case map_of kvs k of None \<Rightarrow> [] | Some v \<Rightarrow> v))"

text \<open>Assignment. Go panics on a nil map; every use below is guarded by a \<open>make\<close>.\<close>

definition map_put :: "string_map \<Rightarrow> string \<Rightarrow> string \<Rightarrow> string_map" where
  "map_put m k v = map_option (AList.update k v) m"

definition map_make :: "string_map \<Rightarrow> string_map" where
  "map_make m = (case m of None \<Rightarrow> Some [] | Some _ \<Rightarrow> m)"

lemma map_get_put [simp]: "m \<noteq> None \<Longrightarrow> map_get (map_put m k v) k' = (if k' = k then v else map_get m k')"
  by (cases m) (auto simp: map_get_def map_put_def update_conv)

lemma map_make_simps [simp]: "map_make m \<noteq> None" "map_get (map_make m) k = map_get m k"
  "map_make (Some kvs) = Some kvs"
  by (cases m; simp add: map_make_def map_get_def)+

lemma map_get_None [simp]: "map_get None k = []"
  by (simp add: map_get_def)

lemma map_get_nonempty: "map_get m k \<noteq> [] \<Longrightarrow> m \<noteq> None"
  by (cases m) simp_all

definition seconds :: "nat \<Rightarrow> i64" where
  "seconds n = of_nat n * 1000000000"

section \<open>Environment indirection\<close>

definition resolveEnvValue :: "(string \<Rightarrow> string) \<Rightarrow> string \<Rightarrow> string" where
  "resolveEnvValue getenv val =
     (if \<not> has_prefix val ''env:'' then val else getenv (trim_space (trim_prefix val ''env:'')))"

definition resolveEnv :: "(string \<Rightarrow> string) \<Rightarrow> Config \<Rightarrow> Config" where
  "resolveEnv getenv cfg =
     (let r = resolveEnvValue getenv in cfg\<lparr>
        cfg_Privacy := (cfg_Privacy cfg)\<lparr>pv_TenantSalt := r (pv_TenantSalt (cfg_Privacy cfg))\<rparr>,
        cfg_Agent := (cfg_Agent cfg)\<lparr>ac_OrganizationID := r (ac_OrganizationID (cfg_Agent cfg))\<rparr>,
        cfg_Heartbeat := (cfg_Heartbeat cfg)\<lparr>hb_SignatureSecret := r (hb_SignatureSecret (cfg_Heartbeat cfg))\<rparr>,
        cfg_CommandPolling := (cfg_CommandPolling cfg)
          \<lparr>cp_SignatureSecret := r (cp_SignatureSecret (cfg_CommandPolling cfg))\<rparr>,
        cfg_Sources := (cfg_Sources cfg)\<lparr>so_Stripe := map_option (\<lambda>s. s\<lparr>
            st_APIKey := r (st_APIKey s),
            st_Webhook := (st_Webhook s)\<lparr>wh_SigningSecret := r (wh_SigningSecret (st_Webhook s))\<rparr>\<rparr>)
          (so_Stripe (cfg_Sources cfg))\<rparr>\<rparr>)"

section \<open>Validation\<close>

definition default_weights :: "(string \<times> f64) list" where
  "default_weights = [(''deterministic_id'', f_const 1), (''temporal_proximity'', lit_05), (''sku_overlap'', lit_08)]"

definition or_default :: "'a \<Rightarrow> 'a \<Rightarrow> 'a \<Rightarrow> 'a" where
  "or_default zero d x = (if x = zero then d else x)"

lemma or_default_simps [simp]: "d \<noteq> zero \<Longrightarrow> or_default zero d x \<noteq> zero"
  "or_default zero d (or_default zero d x) = or_default zero d x"
  by (simp_all add: or_default_def)

definition f_or_default :: "f64 \<Rightarrow> f64 \<Rightarrow> f64" where
  "f_or_default d x = (if f_eq x (f_const 0) then d else x)"

definition validateMatcherRecipe :: "MatcherRecipe \<Rightarrow> config_error + MatcherRecipe" where
  "validateMatcherRecipe recipe =
     (let r = recipe\<lparr>
          mr_Name := or_default [] ''default'' (mr_Name recipe),
          mr_Version := or_default [] ''v1'' (mr_Version recipe),
          mr_Weights := or_default None (Some default_weights) (mr_Weights recipe),
          mr_Threshold := f_or_default lit_08 (mr_Threshold recipe),
          mr_TemporalWindowSec := or_default 0 3600 (mr_TemporalWindowSec recipe),
          mr_SKUOverlapMin := f_or_default lit_05 (mr_SKUOverlapMin recipe)\<rparr>
      in if f_less (mr_Threshold r) (f_const 0) \<or> f_less (f_const 1) (mr_Threshold r)
         then Inl (ThresholdRange (mr_Threshold r))
         else if sint (mr_TemporalWindowSec r) < 0 then Inl (NegativeTemporalWindow (mr_TemporalWindowSec r))
         else if f_less (mr_SKUOverlapMin r) (f_const 0) \<or> f_less (f_const 1) (mr_SKUOverlapMin r)
         then Inl (OverlapRange (mr_SKUOverlapMin r))
         else if list_ex (\<lambda>(m, w). f_less w (f_const 0)) (case mr_Weights r of None \<Rightarrow> [] | Some ws \<Rightarrow> ws)
         then Inl NegativeWeight
         else Inr r)"

definition migrateLegacyExportConfig :: "Export \<Rightarrow> Export" where
  "migrateLegacyExportConfig e0 =
     (let e1 = (if xp_Endpoint e0 \<noteq> [] \<and> xh_BaseURL (xp_HTTP e0) = []
                then e0\<lparr>xp_HTTP := (xp_HTTP e0)\<lparr>xh_BaseURL := xp_Endpoint e0\<rparr>\<rparr> else e0);
          e2 = (if xp_FilePath e1 \<noteq> []
                then let paths = map_make (xf_Paths (xp_File e1))
                     in e1\<lparr>xp_File := (xp_File e1)\<lparr>xf_Paths :=
                          (if map_get paths ''edges'' = [] then map_put paths ''edges'' (xp_FilePath e1) else paths)\<rparr>\<rparr>
                else e1);
          e3 = (if xh_Routes (xp_HTTP e2) = None \<and> xh_BaseURL (xp_HTTP e2) \<noteq> []
                then e2\<lparr>xp_HTTP := (xp_HTTP e2)\<lparr>xh_Routes := Some []\<rparr>\<rparr> else e2)
      in if xh_BaseURL (xp_HTTP e3) \<noteq> [] \<and> map_get (xh_Routes (xp_HTTP e3)) ''edges'' = []
         then e3\<lparr>xp_HTTP := (xp_HTTP e3)\<lparr>xh_Routes := map_put (xh_Routes (xp_HTTP e3)) ''edges'' ''/ingest/edges''\<rparr>\<rparr>
         else e3)"

definition mode_http :: "Export \<Rightarrow> bool" where
  "mode_http e \<longleftrightarrow> xp_Mode e = ''http'' \<or> xp_Mode e = ''both''"

definition mode_file :: "Export \<Rightarrow> bool" where
  "mode_file e \<longleftrightarrow> xp_Mode e = ''file'' \<or> xp_Mode e = ''both''"

text \<open>The HTTP and file checks after migration, each returning the updated configuration.\<close>

definition validate_export_http :: "Export \<Rightarrow> config_error + Export" where
  "validate_export_http e =
     (if mode_http e then
        (if xh_BaseURL (xp_HTTP e) = [] then Inl EmptyBaseURL
         else let routes = map_make (xh_Routes (xp_HTTP e))
              in Inr (e\<lparr>xp_HTTP := (xp_HTTP e)\<lparr>xh_Routes :=
                   (if map_get routes ''edges'' = [] then map_put routes ''edges'' ''/ingest/edges'' else routes)\<rparr>\<rparr>))
      else Inr e)"

definition validate_export_file :: "Export \<Rightarrow> config_error + Export" where
  "validate_export_file e =
     (if mode_file e then
        let e' = e\<lparr>xp_File := (xp_File e)\<lparr>xf_Paths := map_make (xf_Paths (xp_File e))\<rparr>\<rparr>
        in if map_get (xf_Paths (xp_File e')) ''edges'' = [] then Inl EmptyEdgesPath else Inr e'
      else Inr e)"

definition validateAndMigrateExport :: "Export \<Rightarrow> config_error + Export" where
  "validateAndMigrateExport export =
     (let e0 = export\<lparr>xp_Mode := or_default [] ''http'' (xp_Mode export)\<rparr>
      in if xp_Mode e0 \<noteq> ''http'' \<and> xp_Mode e0 \<noteq> ''file'' \<and> xp_Mode e0 \<noteq> ''both'' then Inl BadExportMode
         else let e1 = migrateLegacyExportConfig e0;
                  e2 = e1\<lparr>xp_HTTP := (xp_HTTP e1)\<lparr>
                    xh_MaxRetries := or_default 0 3 (xh_MaxRetries (xp_HTTP e1)),
                    xh_BatchSize := or_default 0 50 (xh_BatchSize (xp_HTTP e1)),
                    xh_FlushEvery := or_default 0 (seconds 5) (xh_FlushEvery (xp_HTTP e1))\<rparr>\<rparr>
              in case validate_export_http e2 of Inl err \<Rightarrow> Inl err
                 | Inr e3 \<Rightarrow> validate_export_file e3)"

definition validateStripeWebhook :: "StripeWebhook \<Rightarrow> config_error + StripeWebhook" where
  "validateStripeWebhook webhook =
     (if \<not> wh_Enabled webhook then Inr webhook
      else if wh_SigningSecret webhook = [] then Inl EmptySigningSecret
      else let path = or_default [] ''/webhooks/stripe'' (wh_Path webhook)
           in if \<not> has_prefix path ''/'' then Inl (BadWebhookPath path)
              else let r = wh_Retry webhook;
                       w = webhook\<lparr>wh_Path := path,
                         wh_MaxSkew := or_default 0 (seconds 300) (wh_MaxSkew webhook),
                         wh_Retry := r\<lparr>rt_MaxAttempts := or_default 0 5 (rt_MaxAttempts r),
                           rt_BaseBackoff := or_default 0 (seconds 2) (rt_BaseBackoff r),
                           rt_MaxBackoff := or_default 0 (seconds 30) (rt_MaxBackoff r)\<rparr>\<rparr>
                   in case find (\<lambda>cidr. ParseCIDR cidr = None) (wh_AllowedIPRanges w) of
                        Some cidr \<Rightarrow> Inl (BadCIDR cidr) | None \<Rightarrow> Inr w)"

definition validateHeartbeat :: "HeartbeatConfig \<Rightarrow> string \<Rightarrow> config_error + HeartbeatConfig" where
  "validateHeartbeat hb cdpBaseURL =
     (let h = hb\<lparr>hb_Interval := or_default 0 (seconds 30) (hb_Interval hb)\<rparr>
      in if hb_Enabled h then
           (if hb_Endpoint h = [] \<and> cdpBaseURL = [] then Inl NoHeartbeatEndpoint
            else if hb_SignatureSecret h = [] then Inl NoHeartbeatSecret else Inr h)
         else Inr h)"

definition validateCommandPolling :: "CommandPolling \<Rightarrow> config_error + CommandPolling" where
  "validateCommandPolling cp =
     (let c = cp\<lparr>cp_Interval := or_default 0 (seconds 30) (cp_Interval cp),
          cp_MaxClockSkew := or_default 0 (seconds 300) (cp_MaxClockSkew cp),
          cp_Timeout := or_default 0 (seconds 10) (cp_Timeout cp)\<rparr>
      in if cp_Enabled c \<and> cp_SignatureSecret c = [] then Inl NoPollingSecret else Inr c)"

definition validatePrivacy :: "Privacy \<Rightarrow> config_error + Privacy" where
  "validatePrivacy p0 =
     (if pv_Mode p0 \<noteq> ''strict'' \<and> pv_Mode p0 \<noteq> ''standard'' then Inl BadPrivacyMode
      else let p = p0\<lparr>pv_IDMode := or_default [] ''strict'' (pv_IDMode p0)\<rparr>
           in if pv_IDMode p \<noteq> ''strict'' \<and> pv_IDMode p \<noteq> ''passthrough'' then Inl (BadIDMode (pv_IDMode p))
              else if pv_IDMode p = ''strict'' \<and> pv_TenantSalt p = [] then Inl SaltRequired
              else if pv_TenantSalt p = [] \<and> pv_IDMode p = [] then Inl SaltRequiredLegacy
              else Inr p)"

definition validateSources :: "Sources \<Rightarrow> config_error + Sources" where
  "validateSources src = (case so_Stripe src of None \<Rightarrow> Inr src
     | Some s \<Rightarrow> if st_APIKey s = [] then Inl EmptyAPIKey
         else let s' = (if sint (st_MaxRequestsPerSecond s) \<le> 0 then s\<lparr>st_MaxRequestsPerSecond := 8\<rparr> else s)
              in case validateStripeWebhook (st_Webhook s') of Inl e \<Rightarrow> Inl e
                 | Inr w \<Rightarrow> Inr (src\<lparr>so_Stripe := Some (s'\<lparr>st_Webhook := w\<rparr>)\<rparr>))"

definition validate :: "Config \<Rightarrow> config_error + Config" where
  "validate cfg =
     (if srv_Addr (cfg_Server cfg) = [] then Inl EmptyAddr
      else bindE (validatePrivacy (cfg_Privacy cfg)) (\<lambda>privacy.
           bindE (validateSources (cfg_Sources cfg)) (\<lambda>sources.
           bindE (validateAndMigrateExport (cfg_Export cfg)) (\<lambda>export.
           bindE (validateMatcherRecipe (mc_Recipe (cfg_Matchers cfg))) (\<lambda>recipe.
           bindE (validateHeartbeat (cfg_Heartbeat cfg) (cfg_CDPBaseURL cfg)) (\<lambda>heartbeat.
           bindE (validateCommandPolling (cfg_CommandPolling cfg)) (\<lambda>polling.
             Inr (cfg\<lparr>cfg_Privacy := privacy, cfg_Sources := sources, cfg_Export := export,
               cfg_Matchers := (cfg_Matchers cfg)\<lparr>mc_Recipe := recipe\<rparr>, cfg_Heartbeat := heartbeat,
               cfg_CommandPolling := polling\<rparr>))))))))"

definition Load :: "(string \<Rightarrow> bytes option) \<Rightarrow> (bytes \<Rightarrow> Config option) \<Rightarrow> (string \<Rightarrow> string)
    \<Rightarrow> string \<Rightarrow> config_error + Config" where
  "Load read_file yaml getenv path =
     (case read_file path of None \<Rightarrow> Inl ReadFailed
      | Some raw \<Rightarrow> (case yaml raw of None \<Rightarrow> Inl ParseFailed
         | Some cfg \<Rightarrow> validate (resolveEnv getenv cfg)))"

section \<open>What validation guarantees\<close>

lemma f_or_default_idem: "\<not> f_eq d (f_const 0) \<Longrightarrow> f_or_default d (f_or_default d x) = f_or_default d x"
  by (simp add: f_or_default_def)

lemma lits_nonzero: "\<not> f_eq lit_08 (f_const 0)" "\<not> f_eq lit_05 (f_const 0)"
  by (simp_all add: lit_values f_const_0)

lemma or_default_nonzero: "or_default zero d x = zero \<longleftrightarrow> x = zero \<and> d = zero"
  by (simp add: or_default_def)

definition recipe_valid :: "MatcherRecipe \<Rightarrow> bool" where
  "recipe_valid r \<longleftrightarrow> mr_Name r \<noteq> [] \<and> mr_Version r \<noteq> [] \<and> mr_Weights r \<noteq> None
     \<and> (mr_Threshold r = NaN \<or> (\<exists>q. mr_Threshold r = Fin q \<and> 0 < q \<and> q \<le> 1))
     \<and> 0 < sint (mr_TemporalWindowSec r)
     \<and> (\<forall>(m, w)\<in>set (the (mr_Weights r)). \<not> f_less w (Fin 0))"

lemma threshold_cases:
  "\<not> f_eq x (f_const 0) \<Longrightarrow> \<not> f_less x (f_const 0) \<Longrightarrow> \<not> f_less (f_const 1) x \<Longrightarrow>
   x = NaN \<or> (\<exists>q. x = Fin q \<and> 0 < q \<and> q \<le> 1)"
  by (cases x) (auto simp: f_const_0 f_const_1)

lemma f_or_default_nz: "\<not> f_eq d (f_const 0) \<Longrightarrow> \<not> f_eq (f_or_default d x) (f_const 0)"
  by (simp add: f_or_default_def)

lemma sint_pos_or_default: "\<not> sint (or_default 0 (d::i64) x) < 0 \<Longrightarrow> d \<noteq> 0 \<Longrightarrow> 0 < sint (or_default 0 d x)"
  by (metis linorder_neqE_linordered_idom or_default_nonzero signed_word_eqI sint_0)

lemma validateMatcherRecipe_valid:
  assumes "validateMatcherRecipe r = Inr r'" shows "recipe_valid r'"
proof -
  have z: "\<not> f_eq (f_or_default lit_08 (mr_Threshold r)) (f_const 0)"
    by (rule f_or_default_nz[OF lits_nonzero(1)])
  obtain ws where ws: "or_default None (Some default_weights) (mr_Weights r) = Some ws"
    by (cases "mr_Weights r") (simp_all add: or_default_def)
  have "\<not> f_less (mr_Threshold r') (f_const 0)" "\<not> f_less (f_const 1) (mr_Threshold r')"
    "mr_Threshold r' = f_or_default lit_08 (mr_Threshold r)" "\<not> sint (mr_TemporalWindowSec r') < 0"
    "mr_TemporalWindowSec r' = or_default 0 3600 (mr_TemporalWindowSec r)" "mr_Weights r' = Some ws"
    "\<forall>(m, w)\<in>set ws. \<not> f_less w (Fin 0)"
    "mr_Name r' = or_default [] ''default'' (mr_Name r)" "mr_Version r' = or_default [] ''v1'' (mr_Version r)"
    using assms by (auto simp: validateMatcherRecipe_def Let_def ws list_ex_iff f_const_0 split: if_splits)
  then show ?thesis using threshold_cases[OF z] sint_pos_or_default[of 3600 "mr_TemporalWindowSec r"]
    by (simp add: recipe_valid_def or_default_nonzero)
qed

lemma validateMatcherRecipe_idem:
  assumes "validateMatcherRecipe r = Inr r'" shows "validateMatcherRecipe r' = Inr r'"
proof -
  let ?f = "\<lambda>recipe. recipe\<lparr>
          mr_Name := or_default [] ''default'' (mr_Name recipe),
          mr_Version := or_default [] ''v1'' (mr_Version recipe),
          mr_Weights := or_default None (Some default_weights) (mr_Weights recipe),
          mr_Threshold := f_or_default lit_08 (mr_Threshold recipe),
          mr_TemporalWindowSec := or_default 0 3600 (mr_TemporalWindowSec recipe),
          mr_SKUOverlapMin := f_or_default lit_05 (mr_SKUOverlapMin recipe)\<rparr>"
  have r': "r' = ?f r" using assms by (simp add: validateMatcherRecipe_def Let_def split: if_splits)
  have "?f r' = r'" by (simp add: r' f_or_default_idem lits_nonzero)
  with assms r' show ?thesis unfolding validateMatcherRecipe_def Let_def by (metis (no_types, lifting))
qed

lemma migrate_routes:
  "xh_BaseURL (xp_HTTP (migrateLegacyExportConfig e)) \<noteq> [] \<Longrightarrow>
   map_get (xh_Routes (xp_HTTP (migrateLegacyExportConfig e))) ''edges'' \<noteq> []"
  by (auto simp: migrateLegacyExportConfig_def Let_def map_make_def split: option.splits)

lemma seconds_nz [simp]: "seconds 5 \<noteq> 0" "seconds 2 \<noteq> 0" "seconds 30 \<noteq> 0" "seconds 300 \<noteq> 0" "seconds 10 \<noteq> 0"
  by (simp_all add: seconds_def)

text \<open>The legacy fields have been carried over.\<close>

definition migrated :: "Export \<Rightarrow> bool" where
  "migrated e \<longleftrightarrow> (xp_Endpoint e \<noteq> [] \<longrightarrow> xh_BaseURL (xp_HTTP e) \<noteq> [])
     \<and> (xp_FilePath e \<noteq> [] \<longrightarrow> map_get (xf_Paths (xp_File e)) ''edges'' \<noteq> [])
     \<and> (xh_BaseURL (xp_HTTP e) \<noteq> [] \<longrightarrow> map_get (xh_Routes (xp_HTTP e)) ''edges'' \<noteq> [])"

lemma map_make_id: "map_get m k \<noteq> [] \<Longrightarrow> map_make m = m"
  by (cases m) simp_all

lemma migrate_migrated: "migrated (migrateLegacyExportConfig e)"
proof -
  have r: "\<exists>m. xh_Routes h = Some m" if "xh_Routes h \<noteq> None" for h :: ExportHTTP using that by simp
  show ?thesis
    by (cases "xh_Routes (xp_HTTP e)"; cases "xf_Paths (xp_File e)")
      (simp_all add: migrated_def migrateLegacyExportConfig_def Let_def map_make_def)
qed

lemma migrate_fixpoint: "migrated e \<Longrightarrow> migrateLegacyExportConfig e = e"
  by (cases "xh_Routes (xp_HTTP e)")
    (auto simp: migrated_def migrateLegacyExportConfig_def Let_def map_make_id)

lemma migrate_kept [simp]: "xp_Mode (migrateLegacyExportConfig e) = xp_Mode e"
  "xp_Endpoint (migrateLegacyExportConfig e) = xp_Endpoint e"
  "xp_FilePath (migrateLegacyExportConfig e) = xp_FilePath e"
  by (simp_all add: migrateLegacyExportConfig_def Let_def)

text \<open>Existing settings win over legacy ones.\<close>

lemma migrate_baseurl: "xh_BaseURL (xp_HTTP (migrateLegacyExportConfig e))
    = (if xh_BaseURL (xp_HTTP e) = [] then xp_Endpoint e else xh_BaseURL (xp_HTTP e))"
  by (simp add: migrateLegacyExportConfig_def Let_def)

definition export_valid :: "Export \<Rightarrow> bool" where
  "export_valid e \<longleftrightarrow> xp_Mode e \<in> {''http'', ''file'', ''both''}
     \<and> (mode_http e \<longrightarrow> xh_BaseURL (xp_HTTP e) \<noteq> [] \<and> map_get (xh_Routes (xp_HTTP e)) ''edges'' \<noteq> [])
     \<and> (mode_file e \<longrightarrow> map_get (xf_Paths (xp_File e)) ''edges'' \<noteq> [])
     \<and> xh_MaxRetries (xp_HTTP e) \<noteq> 0 \<and> xh_BatchSize (xp_HTTP e) \<noteq> 0 \<and> xh_FlushEvery (xp_HTTP e) \<noteq> 0
     \<and> migrated e"

lemma or_default_id: "x \<noteq> zero \<Longrightarrow> or_default zero d x = x"
  by (simp add: or_default_def)

lemma export_http_Inr:
  assumes "validate_export_http e = Inr e'" "migrated e"
  shows "migrated e'" "xp_Mode e' = xp_Mode e" "xp_File e' = xp_File e"
    "xh_MaxRetries (xp_HTTP e') = xh_MaxRetries (xp_HTTP e)" "xh_BatchSize (xp_HTTP e') = xh_BatchSize (xp_HTTP e)"
    "xh_FlushEvery (xp_HTTP e') = xh_FlushEvery (xp_HTTP e)"
    "mode_http e' \<longrightarrow> xh_BaseURL (xp_HTTP e') \<noteq> [] \<and> map_get (xh_Routes (xp_HTTP e')) ''edges'' \<noteq> []"
  using assms by (auto simp: validate_export_http_def Let_def migrated_def mode_http_def split: if_splits)

lemma export_file_Inr:
  assumes "validate_export_file e = Inr e'" "migrated e"
  shows "migrated e'" "xp_Mode e' = xp_Mode e" "xp_HTTP e' = xp_HTTP e"
    "mode_file e' \<longrightarrow> map_get (xf_Paths (xp_File e')) ''edges'' \<noteq> []"
  using assms by (auto simp: validate_export_file_def Let_def migrated_def mode_file_def split: if_splits)

lemma validateAndMigrateExport_valid:
  assumes "validateAndMigrateExport e = Inr e'" shows "export_valid e'"
proof -
  let ?e1 = "migrateLegacyExportConfig (e\<lparr>xp_Mode := or_default [] ''http'' (xp_Mode e)\<rparr>)"
  let ?e2 = "?e1\<lparr>xp_HTTP := (xp_HTTP ?e1)\<lparr>
                    xh_MaxRetries := or_default 0 3 (xh_MaxRetries (xp_HTTP ?e1)),
                    xh_BatchSize := or_default 0 50 (xh_BatchSize (xp_HTTP ?e1)),
                    xh_FlushEvery := or_default 0 (seconds 5) (xh_FlushEvery (xp_HTTP ?e1))\<rparr>\<rparr>"
  from assms obtain e3 where mode: "or_default [] ''http'' (xp_Mode e) \<in> {''http'', ''file'', ''both''}"
    and e3: "validate_export_http ?e2 = Inr e3" and e': "validate_export_file e3 = Inr e'"
    by (auto simp: validateAndMigrateExport_def Let_def split: if_splits sum.splits)
  have m2: "migrated ?e2" using migrate_migrated[of "e\<lparr>xp_Mode := or_default [] ''http'' (xp_Mode e)\<rparr>"]
    by (simp add: migrated_def)
  note h = export_http_Inr[OF e3 m2] and f = export_file_Inr[OF e' export_http_Inr(1)[OF e3 m2]]
  have mh: "mode_http e' = mode_http e3" using f(2) by (simp add: mode_http_def)
  show ?thesis unfolding export_valid_def using h f mode mh by (simp add: or_default_nonzero)
qed

lemma validate_export_http_fix: "xh_BaseURL (xp_HTTP e) \<noteq> [] \<Longrightarrow> map_get (xh_Routes (xp_HTTP e)) ''edges'' \<noteq> []
    \<Longrightarrow> validate_export_http e = Inr e"
  by (simp add: validate_export_http_def map_make_id[of _ "''edges''"])

lemma validate_export_file_fix: "map_get (xf_Paths (xp_File e)) ''edges'' \<noteq> [] \<Longrightarrow> validate_export_file e = Inr e"
  by (simp add: validate_export_file_def map_make_id[of _ "''edges''"])

lemma validateAndMigrateExport_fix:
  assumes "export_valid e" shows "validateAndMigrateExport e = Inr e"
proof -
  have modes: "xp_Mode e \<noteq> []" "xp_Mode e = ''http'' \<or> xp_Mode e = ''file'' \<or> xp_Mode e = ''both''"
    and nz: "xh_MaxRetries (xp_HTTP e) \<noteq> 0" "xh_BatchSize (xp_HTTP e) \<noteq> 0" "xh_FlushEvery (xp_HTTP e) \<noteq> 0"
    and m: "migrated e"
    using assms unfolding export_valid_def by auto
  have h: "validate_export_http e = Inr e"
    using assms validate_export_http_fix[of e] by (cases "mode_http e") (auto simp: export_valid_def validate_export_http_def)
  have f: "validate_export_file e = Inr e"
    using assms validate_export_file_fix[of e] by (cases "mode_file e") (auto simp: export_valid_def validate_export_file_def)
  from modes nz show ?thesis
    unfolding validateAndMigrateExport_def Let_def by (auto simp: or_default_id migrate_fixpoint[OF m] h f)
qed

definition webhook_valid :: "StripeWebhook \<Rightarrow> bool" where
  "webhook_valid w \<longleftrightarrow> (wh_Enabled w \<longrightarrow> wh_SigningSecret w \<noteq> [] \<and> has_prefix (wh_Path w) ''/''
     \<and> wh_MaxSkew w \<noteq> 0 \<and> rt_MaxAttempts (wh_Retry w) \<noteq> 0 \<and> rt_BaseBackoff (wh_Retry w) \<noteq> 0
     \<and> rt_MaxBackoff (wh_Retry w) \<noteq> 0 \<and> (\<forall>cidr\<in>set (wh_AllowedIPRanges w). ParseCIDR cidr \<noteq> None))"

lemma validateStripeWebhook_valid: "validateStripeWebhook w = Inr w' \<Longrightarrow> webhook_valid w'"
  by (auto simp: validateStripeWebhook_def webhook_valid_def Let_def or_default_nonzero find_None_iff
      split: if_splits option.splits)

lemma validateStripeWebhook_fix:
  assumes "webhook_valid w" shows "validateStripeWebhook w = Inr w"
proof (cases "wh_Enabled w")
  case True
  then have "find (\<lambda>cidr. ParseCIDR cidr = None) (wh_AllowedIPRanges w) = None"
    using assms by (simp add: webhook_valid_def find_None_iff)
  moreover have "wh_Path w \<noteq> []" using assms True by (auto simp: webhook_valid_def has_prefix_iff)
  ultimately show ?thesis using assms True
    by (simp add: validateStripeWebhook_def webhook_valid_def or_default_id)
qed (simp add: validateStripeWebhook_def)

definition privacy_valid :: "Privacy \<Rightarrow> bool" where
  "privacy_valid p \<longleftrightarrow> pv_Mode p \<in> {''strict'', ''standard''} \<and> pv_IDMode p \<in> {''strict'', ''passthrough''}
     \<and> (pv_IDMode p = ''strict'' \<longrightarrow> pv_TenantSalt p \<noteq> [])"

lemma validatePrivacy_valid: "validatePrivacy p = Inr p' \<Longrightarrow> privacy_valid p'"
  by (auto simp: validatePrivacy_def privacy_valid_def Let_def split: if_splits)

lemma validatePrivacy_fix: "privacy_valid p \<Longrightarrow> validatePrivacy p = Inr p"
  by (auto simp: validatePrivacy_def privacy_valid_def Let_def or_default_def)

definition sources_valid :: "Sources \<Rightarrow> bool" where
  "sources_valid src \<longleftrightarrow> (case so_Stripe src of None \<Rightarrow> True
     | Some s \<Rightarrow> st_APIKey s \<noteq> [] \<and> 0 < sint (st_MaxRequestsPerSecond s) \<and> webhook_valid (st_Webhook s))"

lemma validateSources_valid: "validateSources src = Inr src' \<Longrightarrow> sources_valid src'"
  by (auto simp: validateSources_def sources_valid_def Let_def dest!: validateStripeWebhook_valid
      split: option.splits if_splits sum.splits)

lemma validateSources_fix: "sources_valid src \<Longrightarrow> validateSources src = Inr src"
  by (auto simp: validateSources_def sources_valid_def Let_def validateStripeWebhook_fix split: option.splits)

definition heartbeat_valid :: "HeartbeatConfig \<Rightarrow> string \<Rightarrow> bool" where
  "heartbeat_valid h cdp \<longleftrightarrow> hb_Interval h \<noteq> 0
     \<and> (hb_Enabled h \<longrightarrow> (hb_Endpoint h \<noteq> [] \<or> cdp \<noteq> []) \<and> hb_SignatureSecret h \<noteq> [])"

lemma validateHeartbeat_valid: "validateHeartbeat h cdp = Inr h' \<Longrightarrow> heartbeat_valid h' cdp"
  by (auto simp: validateHeartbeat_def heartbeat_valid_def Let_def or_default_nonzero split: if_splits)

lemma validateHeartbeat_fix: "heartbeat_valid h cdp \<Longrightarrow> validateHeartbeat h cdp = Inr h"
  by (auto simp: validateHeartbeat_def heartbeat_valid_def Let_def or_default_id)

definition polling_valid :: "CommandPolling \<Rightarrow> bool" where
  "polling_valid c \<longleftrightarrow> cp_Interval c \<noteq> 0 \<and> cp_MaxClockSkew c \<noteq> 0 \<and> cp_Timeout c \<noteq> 0
     \<and> (cp_Enabled c \<longrightarrow> cp_SignatureSecret c \<noteq> [])"

lemma validateCommandPolling_valid: "validateCommandPolling c = Inr c' \<Longrightarrow> polling_valid c'"
  by (auto simp: validateCommandPolling_def polling_valid_def Let_def or_default_nonzero split: if_splits)

lemma validateCommandPolling_fix: "polling_valid c \<Longrightarrow> validateCommandPolling c = Inr c"
  by (auto simp: validateCommandPolling_def polling_valid_def Let_def or_default_id)

text \<open>What a configuration that passed \<open>validate\<close> satisfies.\<close>

definition config_valid :: "Config \<Rightarrow> bool" where
  "config_valid c \<longleftrightarrow> srv_Addr (cfg_Server c) \<noteq> [] \<and> privacy_valid (cfg_Privacy c) \<and> sources_valid (cfg_Sources c)
     \<and> export_valid (cfg_Export c) \<and> recipe_valid (mc_Recipe (cfg_Matchers c))
     \<and> heartbeat_valid (cfg_Heartbeat c) (cfg_CDPBaseURL c) \<and> polling_valid (cfg_CommandPolling c)"

lemma validate_config_valid: "validate cfg = Inr c \<Longrightarrow> config_valid c"
  unfolding validate_def
  by (auto simp: bindE_Inr_iff config_valid_def validatePrivacy_valid validateSources_valid
      validateAndMigrateExport_valid validateMatcherRecipe_valid validateHeartbeat_valid
      validateCommandPolling_valid split: if_splits)

lemma validate_idem:
  assumes "validate cfg = Inr c" shows "validate c = Inr c"
proof -
  from validate_config_valid[OF assms] have v: "config_valid c" .
  from assms obtain r where "validateMatcherRecipe r = Inr (mc_Recipe (cfg_Matchers c))"
    unfolding validate_def by (auto simp: bindE_Inr_iff split: if_splits)
  from validateMatcherRecipe_idem[OF this] v show ?thesis
    by (simp add: validate_def config_valid_def validatePrivacy_fix validateSources_fix
        validateAndMigrateExport_fix validateHeartbeat_fix validateCommandPolling_fix)
qed

text \<open>The legacy salt check is never reached: by then the mode has been defaulted.\<close>

lemma legacy_salt_unreachable: "validatePrivacy p \<noteq> Inl SaltRequiredLegacy"
  by (auto simp: validatePrivacy_def Let_def split: if_splits)

end
