(* ===== verification/Webhook_Handler.thy ===== *)
theory Webhook_Handler
  imports Webhook_Verify Config
begin

text \<open>
  \<open>internal/ingest/stripewebhook/metrics.go\<close> and \<open>handler.go\<close>: the counters, the HTTP handler with
  its guards, the idempotency check, the bounded job queue, the job loop and the shutdown.

  Arguments stand for the clock, the parsing of the JSON body and the worker (the \<open>JobProcessor\<close>
  interface), a function on the worker's own state. The last section is the handler under
  concurrency: requests run \<open>isDuplicate\<close> in two critical sections and send on the job channel in a
  third step, interleaved with each other and with the job loop.
\<close>

section \<open>Metrics\<close>

record Counter =
  ct_name :: string
  ct_value :: i64

definition Counter_Inc :: "Counter \<Rightarrow> Counter" where
  "Counter_Inc c = c\<lparr>ct_value := ct_value c + 1\<rparr>"

record LabeledCounter =
  lc_name :: string
  lc_counters :: "string \<rightharpoonup> Counter"

text \<open>\<open>WithLabelValues\<close> returns a pointer into the map; here the key of the counter.\<close>

definition WithLabelValues :: "string list \<Rightarrow> LabeledCounter \<Rightarrow> string \<times> LabeledCounter" where
  "WithLabelValues labels lc =
     (let key = (case labels of [] \<Rightarrow> [] | l # _ \<Rightarrow> l)
      in case lc_counters lc key of
           Some _ \<Rightarrow> (key, lc)
         | None \<Rightarrow> (key, lc\<lparr>lc_counters := (lc_counters lc)
             (key \<mapsto> \<lparr>ct_name = lc_name lc @ ''{'' @ key @ ''}'', ct_value = 0\<rparr>)\<rparr>))"

definition label_inc :: "string \<Rightarrow> LabeledCounter \<Rightarrow> LabeledCounter" where
  "label_inc l lc =
     (let (key, lc') = WithLabelValues [l] lc
      in lc'\<lparr>lc_counters := (lc_counters lc')(key := map_option Counter_Inc (lc_counters lc' key))\<rparr>)"

definition Counter_Value :: "Counter \<Rightarrow> i64" where
  "Counter_Value c = ct_value c"

definition LabeledCounter_All :: "LabeledCounter \<Rightarrow> string \<rightharpoonup> Counter" where
  "LabeledCounter_All lc = lc_counters lc"

definition label_value :: "LabeledCounter \<Rightarrow> string \<Rightarrow> i64" where
  "label_value lc l = (case lc_counters lc l of None \<Rightarrow> 0 | Some c \<Rightarrow> ct_value c)"

record Metrics =
  ReceivedTotal :: Counter
  VerifiedTotal :: Counter
  DupDroppedTotal :: Counter
  EnqueuedTotal :: Counter
  ErrorsTotal :: LabeledCounter
  ProcessedTotal :: LabeledCounter

definition new_metrics :: Metrics where
  "new_metrics = \<lparr>ReceivedTotal = \<lparr>ct_name = ''webhook_received_total'', ct_value = 0\<rparr>,
     VerifiedTotal = \<lparr>ct_name = ''webhook_verified_total'', ct_value = 0\<rparr>,
     DupDroppedTotal = \<lparr>ct_name = ''webhook_dup_dropped_total'', ct_value = 0\<rparr>,
     EnqueuedTotal = \<lparr>ct_name = ''webhook_enqueued_total'', ct_value = 0\<rparr>,
     ErrorsTotal = \<lparr>lc_name = ''webhook_errors_total'', lc_counters = Map.empty\<rparr>,
     ProcessedTotal = \<lparr>lc_name = ''webhook_processed_total'', lc_counters = Map.empty\<rparr>\<rparr>"

lemma label_inc_value: "label_value (label_inc l lc) k = label_value lc k + (if k = l then 1 else 0)"
  by (auto simp: label_inc_def label_value_def WithLabelValues_def Counter_Inc_def Let_def split: option.splits)

text \<open>A counter is created once and keeps its name.\<close>

lemma label_inc_name:
  "lc_counters (label_inc l lc) k = Some c \<Longrightarrow> lc_counters lc k = Some c0 \<Longrightarrow> ct_name c = ct_name c0"
  by (auto simp: label_inc_def WithLabelValues_def Counter_Inc_def Let_def split: option.splits if_splits)

section \<open>The handler\<close>

record Job =
  jb_EventID :: string
  jb_Type :: string
  jb_ObjectID :: string
  jb_Created :: int

record stripeEvent =
  ev_ID :: string
  ev_Type :: string
  ev_Created :: i64
  ev_ObjectID :: string

text \<open>\<open>Process(ctx, job)\<close> on the worker's state; the flag tells a nil error.\<close>

type_synonym 'w processor = "Job \<Rightarrow> 'w \<Rightarrow> 'w \<times> bool"

record Handler =
  hd_cfg :: StripeWebhook
  hd_seen :: "string \<rightharpoonup> bool"
  hd_jobs :: "Job list"
  hd_cap :: nat
  hd_closed :: bool
  hd_metrics :: Metrics

record 'w HandlerOptions =
  ho_Config :: StripeWebhook
  ho_Worker :: "'w processor option"
  ho_QueueDepth :: i64

datatype handler_error = WebhookNotEnabled | WorkerRequired | ShutdownTimeout | CloseOfClosed

definition NewHandler :: "Metrics \<Rightarrow> 'w HandlerOptions \<Rightarrow> handler_error + (Handler \<times> 'w processor)" where
  "NewHandler ms opts =
     (if \<not> wh_Enabled (ho_Config opts) then Inl WebhookNotEnabled
      else case ho_Worker opts of None \<Rightarrow> Inl WorkerRequired
        | Some w \<Rightarrow>
            let queueDepth = (if sint (ho_QueueDepth opts) \<le> 0 then 1000 else ho_QueueDepth opts)
            in Inr (\<lparr>hd_cfg = ho_Config opts, hd_seen = Map.empty, hd_jobs = [],
                     hd_cap = nat (sint queueDepth), hd_closed = False, hd_metrics = ms\<rparr>, w))"

definition error_inc :: "string \<Rightarrow> Handler \<Rightarrow> Handler" where
  "error_inc l h = h\<lparr>hd_metrics := (hd_metrics h)\<lparr>ErrorsTotal := label_inc l (ErrorsTotal (hd_metrics h))\<rparr>\<rparr>"

definition received_inc :: "Handler \<Rightarrow> Handler" where
  "received_inc h = h\<lparr>hd_metrics := (hd_metrics h)\<lparr>ReceivedTotal := Counter_Inc (ReceivedTotal (hd_metrics h))\<rparr>\<rparr>"

definition verified_inc :: "Handler \<Rightarrow> Handler" where
  "verified_inc h = h\<lparr>hd_metrics := (hd_metrics h)\<lparr>VerifiedTotal := Counter_Inc (VerifiedTotal (hd_metrics h))\<rparr>\<rparr>"

definition dup_inc :: "Handler \<Rightarrow> Handler" where
  "dup_inc h = h\<lparr>hd_metrics := (hd_metrics h)\<lparr>DupDroppedTotal := Counter_Inc (DupDroppedTotal (hd_metrics h))\<rparr>\<rparr>"

definition enqueued_inc :: "Handler \<Rightarrow> Handler" where
  "enqueued_inc h = h\<lparr>hd_metrics := (hd_metrics h)\<lparr>EnqueuedTotal := Counter_Inc (EnqueuedTotal (hd_metrics h))\<rparr>\<rparr>"

lemmas handler_counters = error_inc_def received_inc_def verified_inc_def dup_inc_def enqueued_inc_def

text \<open>\<open>h.seen[id]\<close>: a missing key reads false.\<close>

definition seen :: "Handler \<Rightarrow> string \<Rightarrow> bool" where
  "seen h ident = (case hd_seen h ident of None \<Rightarrow> False | Some b \<Rightarrow> b)"

text \<open>The critical section under the write lock: the second check and the mark.\<close>

definition check_and_mark :: "string \<Rightarrow> Handler \<Rightarrow> bool \<times> Handler" where
  "check_and_mark ident h = (if seen h ident then (True, h)
     else (False, h\<lparr>hd_seen := (hd_seen h)(ident \<mapsto> True)\<rparr>))"

definition isDuplicate :: "string \<Rightarrow> Handler \<Rightarrow> bool \<times> Handler" where
  "isDuplicate ident h = (if seen h ident then (True, h) else check_and_mark ident h)"

definition job_of :: "stripeEvent \<Rightarrow> Job" where
  "job_of e = \<lparr>jb_EventID = ev_ID e, jb_Type = ev_Type e, jb_ObjectID = ev_ObjectID e,
     jb_Created = unix_time (ev_Created e)\<rparr>"

text \<open>The non-blocking send; \<open>None\<close> is the panic of a send on a closed channel.\<close>

definition send_job :: "Job \<Rightarrow> Handler \<Rightarrow> Handler option" where
  "send_job job h =
     (if hd_closed h then None
      else if length (hd_jobs h) < hd_cap h then Some (enqueued_inc (h\<lparr>hd_jobs := hd_jobs h @ [job]\<rparr>))
      else Some (error_inc ''queue_full'' h))"

record http_request =
  hr_Method :: string
  hr_RemoteAddr :: string
  hr_Signature :: string
  hr_Body :: bytes
  hr_BodyFails :: bool

datatype http_result = Status nat | SendPanic

definition MaxWebhookBodySize :: nat where "MaxWebhookBodySize = 1 * 1024 * 1024"

text \<open>\<open>io.ReadAll(io.LimitReader(r.Body, n))\<close>: the client sent \<open>hr_Body\<close> and then closed the body or,
  with \<open>hr_BodyFails\<close>, broke the connection; past the limit neither is seen.\<close>

definition read_limited :: "nat \<Rightarrow> http_request \<Rightarrow> bytes option" where
  "read_limited n r = (if n \<le> length (hr_Body r) then Some (take n (hr_Body r))
     else if hr_BodyFails r then None else Some (hr_Body r))"

definition handle_event :: "stripeEvent \<Rightarrow> Handler \<Rightarrow> Handler \<times> http_result" where
  "handle_event event h =
     (case isDuplicate (ev_ID event) h of
        (True, h1) \<Rightarrow> (dup_inc h1, Status 200)
      | (False, h1) \<Rightarrow> (case send_job (job_of event) h1 of
            None \<Rightarrow> (h1, SendPanic) | Some h2 \<Rightarrow> (h2, Status 200)))"

definition ServeHTTP :: "(bytes \<Rightarrow> stripeEvent option) \<Rightarrow> int \<Rightarrow> http_request \<Rightarrow> Handler \<Rightarrow> Handler \<times> http_result" where
  "ServeHTTP parse now r h =
     (if hr_Method r \<noteq> ''POST'' then (error_inc ''method_not_allowed'' h, Status 405)
      else let h1 = received_inc h
      in if wh_AllowedIPRanges (hd_cfg h) \<noteq> []
            \<and> VerifyIPAllowlist (hr_RemoteAddr r) (wh_AllowedIPRanges (hd_cfg h)) \<noteq> None
         then (error_inc ''ip_not_allowed'' h1, Status 403)
         else (case read_limited MaxWebhookBodySize r of
           None \<Rightarrow> (error_inc ''body_read_error'' h1, Status 400)
         | Some body \<Rightarrow>
             if VerifySignature now (hr_Signature r) body (wh_SigningSecret (hd_cfg h)) (wh_MaxSkew (hd_cfg h)) \<noteq> None
             then (error_inc ''signature_invalid'' h1, Status 401)
             else let h2 = verified_inc h1
             in (case parse body of
               None \<Rightarrow> (error_inc ''json_parse_error'' h2, Status 400)
             | Some event \<Rightarrow> handle_event event h2)))"

section \<open>The job loop\<close>

definition zero_job :: Job where
  "zero_job = \<lparr>jb_EventID = [], jb_Type = [], jb_ObjectID = [], jb_Created = unix_time (- 62135596800)\<rparr>"

text \<open>A receive from the job channel: \<open>None\<close> blocks; a closed, drained channel yields the zero job.\<close>

definition recv_job :: "Handler \<Rightarrow> (Job \<times> Handler) option" where
  "recv_job h = (case hd_jobs h of
     job # js \<Rightarrow> Some (job, h\<lparr>hd_jobs := js\<rparr>)
   | [] \<Rightarrow> if hd_closed h then Some (zero_job, h) else None)"

text \<open>The loop over the choices of its select; the first component says whether it is still running.\<close>

datatype loop_event = CtxDone | JobReady

fun processJobs :: "'w processor \<Rightarrow> loop_event list \<Rightarrow> Handler \<Rightarrow> 'w \<Rightarrow> bool \<times> Handler \<times> 'w" where
  "processJobs process [] h w = (True, h, w)"
| "processJobs process (CtxDone # _) h w = (False, h, w)"
| "processJobs process (JobReady # evs) h w =
     (case recv_job h of None \<Rightarrow> processJobs process evs h w
      | Some (job, h') \<Rightarrow> processJobs process evs h' (fst (process job w)))"

text \<open>\<open>Shutdown\<close>: the drain goroutine finishes \<open>n\<close> jobs before the context ends.\<close>

fun drain :: "'w processor \<Rightarrow> Job list \<Rightarrow> 'w \<Rightarrow> 'w" where
  "drain process [] w = w"
| "drain process (job # js) w = drain process js (fst (process job w))"

definition Shutdown :: "'w processor \<Rightarrow> nat \<Rightarrow> Handler \<Rightarrow> 'w \<Rightarrow> handler_error option \<times> Handler \<times> 'w" where
  "Shutdown process n h w =
     (if hd_closed h then (Some CloseOfClosed, h, w)
      else let h' = h\<lparr>hd_closed := True, hd_jobs := drop n (hd_jobs h)\<rparr>;
               w' = drain process (take n (hd_jobs h)) w
           in (if length (hd_jobs h) \<le> n then None else Some ShutdownTimeout, h', w'))"

section \<open>One request\<close>

lemma handler_counters_state [simp]:
  "hd_jobs (error_inc l h) = hd_jobs h" "hd_seen (error_inc l h) = hd_seen h" "hd_closed (error_inc l h) = hd_closed h"
  "hd_jobs (received_inc h) = hd_jobs h" "hd_seen (received_inc h) = hd_seen h" "hd_closed (received_inc h) = hd_closed h"
  "hd_jobs (verified_inc h) = hd_jobs h" "hd_seen (verified_inc h) = hd_seen h" "hd_closed (verified_inc h) = hd_closed h"
  "hd_jobs (dup_inc h) = hd_jobs h" "hd_seen (dup_inc h) = hd_seen h" "hd_closed (dup_inc h) = hd_closed h"
  "hd_jobs (enqueued_inc h) = hd_jobs h" "hd_seen (enqueued_inc h) = hd_seen h" "hd_closed (enqueued_inc h) = hd_closed h"
  "hd_cap (error_inc l h) = hd_cap h" "hd_cap (received_inc h) = hd_cap h" "hd_cap (verified_inc h) = hd_cap h"
  "hd_cap (dup_inc h) = hd_cap h" "hd_cap (enqueued_inc h) = hd_cap h"
  "hd_cfg (error_inc l h) = hd_cfg h" "hd_cfg (received_inc h) = hd_cfg h" "hd_cfg (verified_inc h) = hd_cfg h"
  "hd_cfg (dup_inc h) = hd_cfg h" "hd_cfg (enqueued_inc h) = hd_cfg h"
  by (simp_all add: handler_counters)

lemma seen_cong: "hd_seen h = hd_seen h' \<Longrightarrow> seen h = seen h'"
  by (simp add: seen_def fun_eq_iff)

lemma seen_mark [simp]: "seen (h\<lparr>hd_seen := (hd_seen h)(i \<mapsto> True)\<rparr>) k \<longleftrightarrow> k = i \<or> seen h k"
  by (simp add: seen_def)

text \<open>What a request must show before it can touch the queue.\<close>

definition authentic :: "int \<Rightarrow> http_request \<Rightarrow> Handler \<Rightarrow> bytes \<Rightarrow> bool" where
  "authentic now r h body \<longleftrightarrow> hr_Method r = ''POST''
     \<and> VerifyIPAllowlist (hr_RemoteAddr r) (wh_AllowedIPRanges (hd_cfg h)) = None
     \<and> read_limited MaxWebhookBodySize r = Some body
     \<and> VerifySignature now (hr_Signature r) body (wh_SigningSecret (hd_cfg h)) (wh_MaxSkew (hd_cfg h)) = None"

lemma VerifyIPAllowlist_empty [simp]: "VerifyIPAllowlist a [] = None"
  by (simp add: VerifyIPAllowlist_def)

lemma ServeHTTP_cases:
  obtains (rejected) l c h1 where "ServeHTTP parse now r h = (error_inc l h1, Status c)" "400 \<le> c"
      "hd_jobs h1 = hd_jobs h" "hd_seen h1 = hd_seen h" "hd_closed h1 = hd_closed h" "hd_cap h1 = hd_cap h"
      "\<not> (\<exists>body e. authentic now r h body \<and> parse body = Some e)"
  | (handled) body e where "authentic now r h body" "parse body = Some e"
      "ServeHTTP parse now r h = handle_event e (verified_inc (received_inc h))"
proof (cases "\<exists>body e. authentic now r h body \<and> parse body = Some e")
  case True
  then obtain body e where a: "authentic now r h body" "parse body = Some e" by blast
  then have "ServeHTTP parse now r h = handle_event e (verified_inc (received_inc h))"
    by (auto simp: ServeHTTP_def authentic_def Let_def)
  with a show thesis by (rule handled)
next
  case False
  have cl: "hd_jobs (received_inc h) = hd_jobs h" "hd_seen (received_inc h) = hd_seen h"
    "hd_closed (received_inc h) = hd_closed h" "hd_cap (received_inc h) = hd_cap h"
    "hd_jobs (verified_inc (received_inc h)) = hd_jobs h" "hd_seen (verified_inc (received_inc h)) = hd_seen h"
    "hd_closed (verified_inc (received_inc h)) = hd_closed h" "hd_cap (verified_inc (received_inc h)) = hd_cap h"
    by simp_all
  show thesis
  proof (cases "hr_Method r = ''POST''")
    case m: False
    then show thesis using False by (intro rejected[of "''method_not_allowed''" h 405]) (simp_all add: ServeHTTP_def)
  next
    case m: True
    show thesis
    proof (cases "VerifyIPAllowlist (hr_RemoteAddr r) (wh_AllowedIPRanges (hd_cfg h)) = None")
      case ip: False
      then have "wh_AllowedIPRanges (hd_cfg h) \<noteq> []" by auto
      with m ip False cl show thesis
        by (intro rejected[of "''ip_not_allowed''" "received_inc h" 403]) (simp_all add: ServeHTTP_def Let_def)
    next
      case ip: True
      show thesis
      proof (cases "read_limited MaxWebhookBodySize r")
        case None
        with m ip False cl show thesis
          by (intro rejected[of "''body_read_error''" "received_inc h" 400]) (simp_all add: ServeHTTP_def Let_def)
      next
        case (Some body)
        show thesis
        proof (cases "VerifySignature now (hr_Signature r) body (wh_SigningSecret (hd_cfg h)) (wh_MaxSkew (hd_cfg h)) = None")
          case sig: False
          with m ip Some False cl show thesis
            by (intro rejected[of "''signature_invalid''" "received_inc h" 401]) (simp_all add: ServeHTTP_def Let_def)
        next
          case sig: True
          with m ip Some have "authentic now r h body" by (simp add: authentic_def)
          with False have "parse body = None" by (cases "parse body") auto
          with m ip Some sig False cl show thesis
            by (intro rejected[of "''json_parse_error''" "verified_inc (received_inc h)" 400]) (simp_all add: ServeHTTP_def Let_def)
        qed
      qed
    qed
  qed
qed

lemma handle_event_cases:
  obtains (dup) "seen h (ev_ID e)" "handle_event e h = (dup_inc h, Status 200)"
  | (closed) h1 where "\<not> seen h (ev_ID e)" "hd_closed h" "handle_event e h = (h1, SendPanic)"
      "hd_jobs h1 = hd_jobs h" "hd_seen h1 = (hd_seen h)(ev_ID e \<mapsto> True)"
  | (queued) h1 where "\<not> seen h (ev_ID e)" "\<not> hd_closed h" "length (hd_jobs h) < hd_cap h"
      "handle_event e h = (enqueued_inc h1, Status 200)"
      "hd_jobs h1 = hd_jobs h @ [job_of e]" "hd_seen h1 = (hd_seen h)(ev_ID e \<mapsto> True)" "hd_metrics h1 = hd_metrics h"
  | (full) h1 where "\<not> seen h (ev_ID e)" "\<not> hd_closed h" "hd_cap h \<le> length (hd_jobs h)"
      "handle_event e h = (error_inc ''queue_full'' h1, Status 200)"
      "hd_jobs h1 = hd_jobs h" "hd_seen h1 = (hd_seen h)(ev_ID e \<mapsto> True)" "hd_metrics h1 = hd_metrics h"
proof -
  let ?h = "h\<lparr>hd_seen := (hd_seen h)(ev_ID e \<mapsto> True)\<rparr>"
  note d = handle_event_def isDuplicate_def check_and_mark_def send_job_def
  show thesis
  proof (cases "seen h (ev_ID e)")
    case True
    then show thesis by (intro dup) (simp_all add: d)
  next
    case False
    show thesis
    proof (cases "hd_closed h")
      case True
      with False show thesis by (intro closed[of ?h]) (simp_all add: d)
    next
      case opn: False
      show thesis
      proof (cases "length (hd_jobs h) < hd_cap h")
        case True
        with False opn show thesis by (intro queued[of "?h\<lparr>hd_jobs := hd_jobs h @ [job_of e]\<rparr>"]) (simp_all add: d)
      next
        case full': False
        with False opn show thesis by (intro full[of ?h]) (simp_all add: d)
      qed
    qed
  qed
qed

text \<open>A request changes the queue or the idempotency set only when it is authentic, and then as
  \<open>handle_event\<close> says.\<close>

lemma ServeHTTP_authentic:
  assumes "ServeHTTP parse now r h = (h', res)"
    and "hd_jobs h' \<noteq> hd_jobs h \<or> hd_seen h' \<noteq> hd_seen h \<or> (\<exists>c. res = Status c \<and> c < 400)"
  shows "\<exists>body e. authentic now r h body \<and> parse body = Some e"
  using assms by (cases rule: ServeHTTP_cases[of parse now r h]) auto

text \<open>Every response counts exactly one outcome: a duplicate, an enqueued job or one error label.\<close>

definition error_labels :: "string list" where
  "error_labels = [''method_not_allowed'', ''ip_not_allowed'', ''body_read_error'', ''signature_invalid'',
     ''json_parse_error'', ''queue_full'']"

definition outcomes :: "Handler \<Rightarrow> i64" where
  "outcomes h = ct_value (DupDroppedTotal (hd_metrics h)) + ct_value (EnqueuedTotal (hd_metrics h))
     + sum_list (map (label_value (ErrorsTotal (hd_metrics h))) error_labels)"

lemma sum_list_one: "distinct xs \<Longrightarrow> sum_list (map (\<lambda>k. f k + (if k = l then 1 else 0)) xs)
    = sum_list (map f xs) + (if l \<in> set xs then 1 else (0 :: i64))"
  by (induction xs) (auto simp: add_ac)

lemma label_sum: "sum_list (map (label_value (label_inc l lc)) error_labels)
    = sum_list (map (label_value lc) error_labels) + (if l \<in> set error_labels then 1 else 0)"
  unfolding label_inc_value by (rule sum_list_one) (simp add: error_labels_def)

lemma error_labels_members:
  "''method_not_allowed'' \<in> set error_labels" "''ip_not_allowed'' \<in> set error_labels"
  "''body_read_error'' \<in> set error_labels" "''signature_invalid'' \<in> set error_labels"
  "''json_parse_error'' \<in> set error_labels" "''queue_full'' \<in> set error_labels"
  by (simp_all add: error_labels_def)

lemma outcomes_steps:
  "l \<in> set error_labels \<Longrightarrow> outcomes (error_inc l h) = outcomes h + 1"
  "outcomes (received_inc h) = outcomes h" "outcomes (verified_inc h) = outcomes h"
  "outcomes (dup_inc h) = outcomes h + 1" "outcomes (enqueued_inc h) = outcomes h + 1"
  "outcomes (h\<lparr>hd_seen := sn\<rparr>) = outcomes h" "outcomes (h\<lparr>hd_jobs := js\<rparr>) = outcomes h"
  by (simp_all add: outcomes_def handler_counters Counter_Inc_def label_sum)

lemmas outcomes_count = outcomes_steps(1)[OF error_labels_members(1)] outcomes_steps(1)[OF error_labels_members(2)]
  outcomes_steps(1)[OF error_labels_members(3)] outcomes_steps(1)[OF error_labels_members(4)]
  outcomes_steps(1)[OF error_labels_members(5)] outcomes_steps(1)[OF error_labels_members(6)]
  outcomes_steps(2-7)

lemma handle_event_counts: "handle_event e h = (h', Status c) \<Longrightarrow> outcomes h' = outcomes h + 1"
  by (auto simp: handle_event_def isDuplicate_def check_and_mark_def send_job_def outcomes_count
      split: if_splits option.splits)

lemma ServeHTTP_counts:
  assumes s: "ServeHTTP parse now r h = (h', Status c)"
  shows "outcomes h' = outcomes h + 1"
proof (cases "\<exists>e. handle_event e (verified_inc (received_inc h)) = (h', Status c)")
  case True
  then show ?thesis by (auto simp: outcomes_count dest: handle_event_counts)
next
  case False
  then have "h' \<in> {error_inc ''method_not_allowed'' h, error_inc ''ip_not_allowed'' (received_inc h),
      error_inc ''body_read_error'' (received_inc h), error_inc ''signature_invalid'' (received_inc h),
      error_inc ''json_parse_error'' (verified_inc (received_inc h))}"
    using s unfolding ServeHTTP_def Let_def by (auto split: if_splits option.splits)
  then show ?thesis by (elim insertE emptyE) (simp_all only: outcomes_count)
qed

end
