(* ===== verification/Webhook_Concurrency.thy ===== *)
theory Webhook_Concurrency
  imports Once Webhook_Handler
begin

text \<open>
  The webhook handler under concurrency. Verified requests run in parallel; each performs the fast
  check under the read lock, the second check and the mark under the write lock, and the send on the
  job channel, as three separate atomic steps with a program counter of its own (\<open>request_step\<close>).
  \<open>webhook_step\<close> interleaves the steps of all requests with the job loop's receives, which yield the
  zero job once the channel is closed and empty, and with the close in \<open>Shutdown\<close>. The state holds the shared
  handler, the requests between the steps, and as ghosts the jobs received by the loop, the number
  of zero jobs it received, and the jobs lost to a full or closed channel.
\<close>

interpretation webhook_once: once "\<lambda>e h. isDuplicate (ev_ID e) h" seen ev_ID "\<lambda>_. True"
  by unfold_locales (auto simp: isDuplicate_def check_and_mark_def split: if_splits)

record machine =
  mc_handler :: Handler
  mc_missed :: "stripeEvent multiset"
  mc_accepted :: "Job multiset"
  mc_received :: "Job list"
  mc_zeros :: nat
  mc_lost :: "Job list"

text \<open>Where the request of a verified event stands in \<open>ServeHTTP\<close>.\<close>

datatype request_pc = Arrived | Missed | Marked | Answered http_result

inductive request_step :: "stripeEvent \<Rightarrow> request_pc \<times> machine \<Rightarrow> request_pc \<times> machine \<Rightarrow> bool" for e where
  fast_hit: "seen (mc_handler m) (ev_ID e) \<Longrightarrow>
     request_step e (Arrived, m) (Answered (Status 200), m\<lparr>mc_handler := dup_inc (mc_handler m)\<rparr>)"
| fast_miss: "\<not> seen (mc_handler m) (ev_ID e) \<Longrightarrow>
     request_step e (Arrived, m) (Missed, m\<lparr>mc_missed := add_mset e (mc_missed m)\<rparr>)"
| slow_hit: "mc_missed m = add_mset e ms \<Longrightarrow> check_and_mark (ev_ID e) (mc_handler m) = (True, h) \<Longrightarrow>
     request_step e (Missed, m) (Answered (Status 200), m\<lparr>mc_handler := dup_inc h, mc_missed := ms\<rparr>)"
| slow_mark: "mc_missed m = add_mset e ms \<Longrightarrow> check_and_mark (ev_ID e) (mc_handler m) = (False, h) \<Longrightarrow>
     request_step e (Missed, m)
       (Marked, m\<lparr>mc_handler := h, mc_missed := ms, mc_accepted := add_mset (job_of e) (mc_accepted m)\<rparr>)"
| send: "mc_accepted m = add_mset (job_of e) js \<Longrightarrow> send_job (job_of e) (mc_handler m) = Some h \<Longrightarrow>
     request_step e (Marked, m) (Answered (Status 200), m\<lparr>mc_handler := h, mc_accepted := js,
       mc_lost := mc_lost m @ (if hd_jobs h = hd_jobs (mc_handler m) then [job_of e] else [])\<rparr>)"
| send_panic: "mc_accepted m = add_mset (job_of e) js \<Longrightarrow> send_job (job_of e) (mc_handler m) = None \<Longrightarrow>
     request_step e (Marked, m) (Answered SendPanic, m\<lparr>mc_accepted := js, mc_lost := mc_lost m @ [job_of e]\<rparr>)"

inductive webhook_step :: "machine \<Rightarrow> machine \<Rightarrow> bool" where
  request: "request_step e (pc, m) (pc', m') \<Longrightarrow> webhook_step m m'"
| receive: "hd_jobs (mc_handler m) \<noteq> [] \<Longrightarrow> recv_job (mc_handler m) = Some (job, h) \<Longrightarrow>
     webhook_step m (m\<lparr>mc_handler := h, mc_received := mc_received m @ [job]\<rparr>)"
| receive_zero: "hd_jobs (mc_handler m) = [] \<Longrightarrow> recv_job (mc_handler m) = Some (zero_job, h) \<Longrightarrow>
     webhook_step m (m\<lparr>mc_handler := h, mc_zeros := Suc (mc_zeros m)\<rparr>)"
| close_jobs: "webhook_step m (m\<lparr>mc_handler := (mc_handler m)\<lparr>hd_closed := True\<rparr>\<rparr>)"

definition machine_start :: "Handler \<Rightarrow> machine" where
  "machine_start h = \<lparr>mc_handler = h, mc_missed = {#}, mc_accepted = {#}, mc_received = [], mc_zeros = 0, mc_lost = []\<rparr>"

text \<open>Every job in the system: accepted and not yet sent, queued, received, lost.\<close>

definition all_jobs :: "machine \<Rightarrow> Job multiset" where
  "all_jobs m = mc_accepted m + mset (hd_jobs (mc_handler m)) + mset (mc_received m) + mset (mc_lost m)"

definition once_each :: "machine \<Rightarrow> bool" where
  "once_each m \<longleftrightarrow> (\<forall>i. count (image_mset jb_EventID (all_jobs m)) i = (if seen (mc_handler m) i then 1 else 0))"

definition queue_bounded :: "machine \<Rightarrow> bool" where
  "queue_bounded m \<longleftrightarrow> length (hd_jobs (mc_handler m)) \<le> hd_cap (mc_handler m)"

lemma job_of_id [simp]: "jb_EventID (job_of e) = ev_ID e"
  by (simp add: job_of_def)

lemma check_and_mark_iff:
  "check_and_mark i h = (True, h') \<longleftrightarrow> seen h i \<and> h' = h"
  "check_and_mark i h = (False, h') \<longleftrightarrow> \<not> seen h i \<and> h' = h\<lparr>hd_seen := (hd_seen h)(i \<mapsto> True)\<rparr>"
  by (auto simp: check_and_mark_def)

lemma send_job_state:
  assumes "send_job job h = Some h'"
  shows "seen h' = seen h" "hd_cap h' = hd_cap h" "\<not> hd_closed h"
    and "hd_jobs h' = hd_jobs h @ [job] \<and> length (hd_jobs h) < hd_cap h
      \<or> hd_jobs h' = hd_jobs h \<and> hd_cap h \<le> length (hd_jobs h)"
  using assms by (auto simp: send_job_def intro!: seen_cong split: if_splits)

lemma seen_simps [simp]:
  "seen (dup_inc h) = seen h" "seen (h\<lparr>hd_closed := b\<rparr>) = seen h" "seen (h\<lparr>hd_jobs := js\<rparr>) = seen h"
  by (rule seen_cong; simp)+

lemma once_each_cong:
  "all_jobs m' = all_jobs m \<Longrightarrow> seen (mc_handler m') = seen (mc_handler m) \<Longrightarrow> once_each m \<Longrightarrow> once_each m'"
  by (simp add: once_each_def)

text \<open>Zero jobs come from a closed channel only, and the channel stays closed.\<close>

definition zeros_closed :: "machine \<Rightarrow> bool" where
  "zeros_closed m \<longleftrightarrow> (0 < mc_zeros m \<longrightarrow> hd_closed (mc_handler m))"

lemma request_step_inv:
  assumes "request_step e (pc, m) (pc', m')" and "once_each m \<and> queue_bounded m \<and> zeros_closed m"
  shows "once_each m' \<and> queue_bounded m' \<and> zeros_closed m'"
  using assms(1)
proof (cases rule: request_step.cases)
  case (slow_mark ms h)
  then have "\<not> seen (mc_handler m) (ev_ID e)" "h = (mc_handler m)\<lparr>hd_seen := (hd_seen (mc_handler m))(ev_ID e \<mapsto> True)\<rparr>"
    by (simp_all add: check_and_mark_iff)
  with assms(2) slow_mark show ?thesis by (auto simp: once_each_def all_jobs_def queue_bounded_def zeros_closed_def)
next
  case (send js h)
  then have s: "send_job (job_of e) (mc_handler m) = Some h" by simp
  have "all_jobs m' = all_jobs m" using send_job_state(4)[OF s] send by (auto simp: all_jobs_def)
  moreover have "seen (mc_handler m') = seen (mc_handler m)" "queue_bounded m'" "zeros_closed m'"
    using send_job_state[OF s] assms(2) send by (auto simp: queue_bounded_def zeros_closed_def)
  ultimately show ?thesis using assms(2) once_each_cong by blast
qed (use assms(2) in \<open>auto simp: check_and_mark_iff queue_bounded_def zeros_closed_def
    elim!: once_each_cong[rotated 2] simp: all_jobs_def\<close>)

lemma webhook_step_inv:
  "webhook_step m m' \<Longrightarrow> once_each m \<and> queue_bounded m \<and> zeros_closed m \<Longrightarrow> once_each m' \<and> queue_bounded m' \<and> zeros_closed m'"
proof (induction rule: webhook_step.induct)
  case (request e pc m pc' m')
  then show ?case by (rule request_step_inv)
next
  case (receive m job h)
  then obtain js where "hd_jobs (mc_handler m) = job # js" "h = (mc_handler m)\<lparr>hd_jobs := js\<rparr>"
    by (cases "hd_jobs (mc_handler m)") (auto simp: recv_job_def)
  with receive.prems show ?case
    by (auto simp: queue_bounded_def zeros_closed_def elim!: once_each_cong[rotated 2] simp: all_jobs_def)
next
  case (receive_zero m h)
  then have "h = mc_handler m" "hd_closed h" by (auto simp: recv_job_def split: if_splits)
  with receive_zero.prems show ?case
    by (auto simp: queue_bounded_def zeros_closed_def elim!: once_each_cong[rotated 2] simp: all_jobs_def)
next
  case (close_jobs m)
  then show ?case by (auto simp: queue_bounded_def zeros_closed_def elim!: once_each_cong[rotated 2] simp: all_jobs_def)
qed

lemma webhook_run_invariant:
  assumes "webhook_step\<^sup>*\<^sup>* (machine_start h) m" and "hd_seen h = Map.empty" and "hd_jobs h = []"
  shows "once_each m \<and> queue_bounded m \<and> zeros_closed m"
  using assms(1)
proof (induction rule: rtranclp_induct)
  case base
  have "\<not> seen h i" for i using assms(2) by (simp add: seen_def)
  then show ?case using assms(3) by (simp add: once_each_def queue_bounded_def zeros_closed_def all_jobs_def machine_start_def)
qed (rule webhook_step_inv)

text \<open>Consequences: no event is received by the job loop twice, and an event that was marked is
  received, queued, about to be sent, or lost.\<close>

lemma once_each_received: "once_each m \<Longrightarrow> distinct (map jb_EventID (mc_received m @ hd_jobs (mc_handler m)))"
proof -
  assume a: "once_each m"
  let ?M = "image_mset jb_EventID (mset (mc_received m @ hd_jobs (mc_handler m)))"
  have sub: "?M \<subseteq># image_mset jb_EventID (all_jobs m)"
    by (rule image_mset_subseteq_mono) (simp add: all_jobs_def mset_subset_eq_add_right ac_simps)
  have "count ?M i \<le> 1" for i
    using mset_subset_eq_count[OF sub, of i] a by (auto simp: once_each_def split: if_splits)
  then show ?thesis
    unfolding distinct_count_atmost_1 by (smt (verit, best) One_nat_def count_mset_0_iff le_Suc_eq le_zero_eq mset_map)
qed

section \<open>The sequential handler refines the machine\<close>

text \<open>The steps of one request are deterministic, so a request that nothing interrupts has one run.\<close>

lemma star_det: "(\<And>c'. R c c' \<longleftrightarrow> c' = d) \<Longrightarrow> c \<noteq> t \<Longrightarrow> R\<^sup>*\<^sup>* c t \<longleftrightarrow> R\<^sup>*\<^sup>* d t"
  by (metis converse_rtranclpE converse_rtranclp_into_rtranclp)

lemma star_end: "(\<And>c'. \<not> R c c') \<Longrightarrow> R\<^sup>*\<^sup>* c t \<longleftrightarrow> t = c"
  by (metis converse_rtranclpE rtranclp.rtrancl_refl)

inductive_simps request_step_simps:
  "request_step e (Arrived, m) c" "request_step e (Missed, m) c" "request_step e (Marked, m) c" "request_step e (Answered r, m) c"

lemma step_arrived: "request_step e (Arrived, m) c \<longleftrightarrow> c =
    (if seen (mc_handler m) (ev_ID e) then (Answered (Status 200), m\<lparr>mc_handler := dup_inc (mc_handler m)\<rparr>)
     else (Missed, m\<lparr>mc_missed := add_mset e (mc_missed m)\<rparr>))"
  by (auto simp: request_step_simps)

lemma step_missed: "mc_missed m = add_mset e ms \<Longrightarrow> \<not> seen (mc_handler m) (ev_ID e) \<Longrightarrow> request_step e (Missed, m) c \<longleftrightarrow> c =
    (Marked, m\<lparr>mc_handler := (mc_handler m)\<lparr>hd_seen := (hd_seen (mc_handler m))(ev_ID e \<mapsto> True)\<rparr>, mc_missed := ms,
      mc_accepted := add_mset (job_of e) (mc_accepted m)\<rparr>)"
  by (auto simp: request_step_simps check_and_mark_iff)

lemma step_marked: "mc_accepted m = add_mset (job_of e) js \<Longrightarrow> request_step e (Marked, m) c \<longleftrightarrow> c =
    (case send_job (job_of e) (mc_handler m) of
       None \<Rightarrow> (Answered SendPanic, m\<lparr>mc_accepted := js, mc_lost := mc_lost m @ [job_of e]\<rparr>)
     | Some h \<Rightarrow> (Answered (Status 200), m\<lparr>mc_handler := h, mc_accepted := js,
         mc_lost := mc_lost m @ (if hd_jobs h = hd_jobs (mc_handler m) then [job_of e] else [])\<rparr>))"
  by (auto simp: request_step_simps split: option.splits)

lemma step_answered: "\<not> request_step e (Answered r, m) c"
  by (auto simp: request_step_simps)

text \<open>The machine after a request that ran alone: the handler \<open>handle_event\<close> returns, and the job lost if it
  was marked and not queued.\<close>

definition after_alone :: "stripeEvent \<Rightarrow> machine \<Rightarrow> machine" where
  "after_alone e m = (let h = mc_handler m; h' = fst (handle_event e h)
     in m\<lparr>mc_handler := h', mc_lost := mc_lost m @ (if \<not> seen h (ev_ID e) \<and> hd_jobs h' = hd_jobs h then [job_of e] else [])\<rparr>)"

lemma request_alone:
  "(request_step e)\<^sup>*\<^sup>* (Arrived, m) (Answered res, m') \<longleftrightarrow> res = snd (handle_event e (mc_handler m)) \<and> m' = after_alone e m"
proof (cases "seen (mc_handler m) (ev_ID e)")
  case True
  have "(request_step e)\<^sup>*\<^sup>* (Arrived, m) (Answered res, m') \<longleftrightarrow>
      (request_step e)\<^sup>*\<^sup>* (Answered (Status 200), m\<lparr>mc_handler := dup_inc (mc_handler m)\<rparr>) (Answered res, m')"
    by (rule star_det) (simp_all add: step_arrived True)
  also have "\<dots> \<longleftrightarrow> (Answered res, m') = (Answered (Status 200), m\<lparr>mc_handler := dup_inc (mc_handler m)\<rparr>)"
    by (rule star_end) (rule step_answered)
  finally show ?thesis using True by (auto simp: after_alone_def handle_event_def isDuplicate_def Let_def)
next
  case False
  let ?h = "(mc_handler m)\<lparr>hd_seen := (hd_seen (mc_handler m))(ev_ID e \<mapsto> True)\<rparr>"
  let ?m1 = "m\<lparr>mc_missed := add_mset e (mc_missed m)\<rparr>"
  let ?m2 = "m\<lparr>mc_handler := ?h, mc_accepted := add_mset (job_of e) (mc_accepted m)\<rparr>"
  let ?c = "case send_job (job_of e) ?h of None \<Rightarrow> (Answered SendPanic, m\<lparr>mc_handler := ?h, mc_lost := mc_lost m @ [job_of e]\<rparr>)
     | Some h \<Rightarrow> (Answered (Status 200), m\<lparr>mc_handler := h,
         mc_lost := mc_lost m @ (if hd_jobs h = hd_jobs (mc_handler m) then [job_of e] else [])\<rparr>)"
  have "(request_step e)\<^sup>*\<^sup>* (Arrived, m) (Answered res, m') \<longleftrightarrow> (request_step e)\<^sup>*\<^sup>* (Missed, ?m1) (Answered res, m')"
    by (rule star_det) (simp_all add: step_arrived False)
  also have "\<dots> \<longleftrightarrow> (request_step e)\<^sup>*\<^sup>* (Marked, ?m2) (Answered res, m')"
    by (rule star_det) (use False in \<open>simp_all add: step_missed[of _ _ "mc_missed m"]\<close>)
  also have "\<dots> \<longleftrightarrow> (request_step e)\<^sup>*\<^sup>* ?c (Answered res, m')"
    by (rule star_det) (auto simp: step_marked[of _ _ "mc_accepted m"] split: option.splits)
  also have "\<dots> \<longleftrightarrow> (Answered res, m') = ?c"
    by (rule star_end) (auto simp: step_answered split: option.splits)
  finally show ?thesis using False
    by (auto simp: after_alone_def handle_event_def isDuplicate_def check_and_mark_def Let_def split: option.splits)
qed

lemma request_steps_webhook: "(request_step e)\<^sup>*\<^sup>* c c' \<Longrightarrow> webhook_step\<^sup>*\<^sup>* (snd c) (snd c')"
proof (induction rule: rtranclp_induct)
  case (step y z)
  have "webhook_step (snd y) (snd z)"
    by (rule webhook_step.request[of e "fst y" _ "fst z"]) (use step.hyps(2) in simp)
  with step.IH show ?case by (rule rtranclp.rtrancl_into_rtrancl)
qed simp

end
