(* ===== verification/Crypto.thy ===== *)
theory Crypto
  imports Go_Sha256
begin

text \<open>
  \<open>internal/crypto\<close>: the keyed hashes behind synthetic identifiers and link proofs (\<open>crypto.go\<close>,
  \<open>id.go\<close>) and the \<open>IDMapper\<close> interface with its strict and pass-through implementations
  (\<open>mapper.go\<close>). The interface is the locale \<open>id_mapper\<close>; its two refinements say what strict and
  pass-through modes promise, and the implementations interpret them.
\<close>

section \<open>Hashes\<close>

datatype crypto_error = ErrEmptySalt | ErrEmptyInput | ErrInvalidHex | ErrEmptyInputs

definition HMACSHA256Hex :: "bytes \<Rightarrow> string \<Rightarrow> crypto_error + string" where
  "HMACSHA256Hex tenantSalt raw =
     (if tenantSalt = [] then Inl ErrEmptySalt
      else if raw = [] then Inl ErrEmptyInput
      else Inr (hex_encode (hmac_sha256 tenantSalt raw)))"

definition unit_separator :: char where
  "unit_separator = CHR 0x1F"

definition LinkProofHex :: "string list \<Rightarrow> crypto_error + string" where
  "LinkProofHex inputs =
     (if inputs = [] then Inl ErrEmptyInputs
      else Inr (hex_encode (sha256 (join [unit_separator] inputs))))"

definition ConstantTimeEqualHex :: "string \<Rightarrow> string \<Rightarrow> crypto_error + bool" where
  "ConstantTimeEqualHex a b =
     (case hex_decode a of None \<Rightarrow> Inl ErrInvalidHex
      | Some aBytes \<Rightarrow> (case hex_decode b of None \<Rightarrow> Inl ErrInvalidHex
         | Some bBytes \<Rightarrow> Inr (aBytes = bBytes)))"

definition SyntheticID :: "bytes \<Rightarrow> string \<Rightarrow> string \<Rightarrow> crypto_error + string" where
  "SyntheticID tenantSalt raw pref =
     (case HMACSHA256Hex tenantSalt raw of Inl e \<Rightarrow> Inl e
      | Inr h \<Rightarrow> Inr (pref @ ''_'' @ (if 16 < length h then take 16 h else h)))"

lemma HMACSHA256Hex_cases:
  "HMACSHA256Hex salt raw = Inl ErrEmptySalt \<longleftrightarrow> salt = []"
  "HMACSHA256Hex salt raw = Inl ErrEmptyInput \<longleftrightarrow> salt \<noteq> [] \<and> raw = []"
  "is_ok (HMACSHA256Hex salt raw) \<longleftrightarrow> salt \<noteq> [] \<and> raw \<noteq> []"
  by (simp_all add: HMACSHA256Hex_def)

lemma HMACSHA256Hex_Inr:
  "salt \<noteq> [] \<Longrightarrow> raw \<noteq> [] \<Longrightarrow> HMACSHA256Hex salt raw = Inr (hex_encode (hmac_sha256 salt raw))"
  by (simp add: HMACSHA256Hex_def)

lemma HMACSHA256Hex_InrD:
  assumes "HMACSHA256Hex salt raw = Inr h"
  shows "salt \<noteq> []" "raw \<noteq> []" "h = hex_encode (hmac_sha256 salt raw)" "length h = 64"
    "\<forall>c\<in>set h. is_lower_hex c"
  using assms by (auto simp: HMACSHA256Hex_def hex_encode_lower split: if_splits)

lemma SyntheticID_Inr:
  "salt \<noteq> [] \<Longrightarrow> raw \<noteq> [] \<Longrightarrow>
   SyntheticID salt raw p = Inr (p @ ''_'' @ take 16 (hex_encode (hmac_sha256 salt raw)))"
  by (simp add: SyntheticID_def HMACSHA256Hex_Inr)

lemma SyntheticID_InrD:
  assumes "SyntheticID salt raw p = Inr s"
  shows "salt \<noteq> []" "raw \<noteq> []"
    and "s = p @ ''_'' @ take 16 (hex_encode (hmac_sha256 salt raw))"
proof -
  from assms obtain h where h: "HMACSHA256Hex salt raw = Inr h"
    by (auto simp: SyntheticID_def split: sum.splits)
  from HMACSHA256Hex_InrD[OF h] show ne: "salt \<noteq> []" "raw \<noteq> []" by auto
  then show "s = p @ ''_'' @ take 16 (hex_encode (hmac_sha256 salt raw))"
    using assms SyntheticID_Inr[OF ne, of p] by simp
qed

lemma SyntheticID_Inl:
  "SyntheticID salt raw p = Inl e \<longleftrightarrow> salt = [] \<and> e = ErrEmptySalt \<or> salt \<noteq> [] \<and> raw = [] \<and> e = ErrEmptyInput"
  by (auto simp: SyntheticID_def HMACSHA256Hex_def)

section \<open>Classifying identifiers\<close>

definition IsSyntheticID :: "string \<Rightarrow> bool" where
  "IsSyntheticID ident = has_prefix ident ''syn_''"

definition IsStripePlatformID :: "string \<Rightarrow> bool" where
  "IsStripePlatformID ident =
     list_ex (has_prefix ident) [''cus_'', ''sub_'', ''in_'', ''price_'', ''prod_'', ''pi_'', ''pm_'']"

lemma synthetic_not_platform: "IsSyntheticID ident \<Longrightarrow> \<not> IsStripePlatformID ident"
  by (auto simp: IsSyntheticID_def IsStripePlatformID_def has_prefix_iff)

lemma IsSyntheticID_append [simp]: "IsSyntheticID (CHR ''s'' # CHR ''y'' # CHR ''n'' # CHR ''_'' # s)"
  by (simp add: IsSyntheticID_def has_prefix_def)

section \<open>The IDMapper interface\<close>

definition IDModeStrict :: string where "IDModeStrict = ''strict''"
definition IDModePassthrough :: string where "IDModePassthrough = ''passthrough''"

definition ValidateIDMode :: "string \<Rightarrow> bool" where
  "ValidateIDMode mode \<longleftrightarrow> \<not> (mode \<noteq> IDModeStrict \<and> mode \<noteq> IDModePassthrough)"

datatype IDMapper = SyntheticMapper (tenantSalt: bytes) | PassthroughMapper

datatype id_kind = KCustomer | KSubscription | KInvoice | KPrice | KProduct

definition NewSyntheticMapper :: "bytes \<Rightarrow> crypto_error + IDMapper" where
  "NewSyntheticMapper salt = (if salt = [] then Inl ErrEmptySalt else Inr (SyntheticMapper salt))"

definition NewPassthroughMapper :: IDMapper where
  "NewPassthroughMapper = PassthroughMapper"

fun kind_prefix :: "id_kind \<Rightarrow> string" where
  "kind_prefix KCustomer = ''syn_cust''"
| "kind_prefix KSubscription = ''syn_sub''"
| "kind_prefix KInvoice = ''syn_inv''"
| "kind_prefix KPrice = ''syn_price''"
| "kind_prefix KProduct = ''syn_prod''"

text \<open>
  The five methods \<open>CustomerID\<close>, \<open>SubscriptionID\<close>, \<open>InvoiceID\<close>, \<open>PriceID\<close> and \<open>ProductID\<close> of the
  two implementations, selected by the kind.
\<close>

fun synthetic_map :: "bytes \<Rightarrow> id_kind \<Rightarrow> string \<Rightarrow> crypto_error + string" where
  "synthetic_map salt k raw = SyntheticID salt raw (kind_prefix k)"

fun passthrough_map :: "id_kind \<Rightarrow> string \<Rightarrow> crypto_error + string" where
  "passthrough_map k raw = (if raw = [] then Inl ErrEmptyInput else Inr raw)"

fun mapper_id :: "IDMapper \<Rightarrow> id_kind \<Rightarrow> string \<Rightarrow> crypto_error + string" where
  "mapper_id (SyntheticMapper salt) k raw = synthetic_map salt k raw"
| "mapper_id PassthroughMapper k raw = passthrough_map k raw"

fun mapper_mode :: "IDMapper \<Rightarrow> string" where
  "mapper_mode (SyntheticMapper salt) = IDModeStrict"
| "mapper_mode PassthroughMapper = IDModePassthrough"

text \<open>A mapper as its constructor returns it: a strict one carries a non-empty salt.\<close>

definition mapper_ok :: "IDMapper \<Rightarrow> bool" where
  "mapper_ok m = (case m of SyntheticMapper salt \<Rightarrow> salt \<noteq> [] | PassthroughMapper \<Rightarrow> True)"

lemma NewSyntheticMapper_ok: "NewSyntheticMapper salt = Inr m \<Longrightarrow> mapper_ok m"
  by (auto simp: NewSyntheticMapper_def mapper_ok_def split: if_splits)

lemma NewPassthroughMapper_ok: "mapper_ok NewPassthroughMapper"
  by (simp add: NewPassthroughMapper_def mapper_ok_def)

text \<open>
  What every implementation promises its callers; \<open>constructed\<close> says that the value came from a
  constructor.
\<close>

locale id_mapper =
  fixes map_id :: "id_kind \<Rightarrow> string \<Rightarrow> crypto_error + string" and mode :: string
    and constructed :: bool
  assumes empty_rejected: "\<not> is_ok (map_id k [])"
    and total: "constructed \<Longrightarrow> raw \<noteq> [] \<Longrightarrow> is_ok (map_id k raw)"
    and nonempty: "map_id k raw = Inr s \<Longrightarrow> s \<noteq> []"
    and mode_valid: "ValidateIDMode mode"
begin

lemma ok_iff: "constructed \<Longrightarrow> is_ok (map_id k raw) \<longleftrightarrow> raw \<noteq> []"
  using empty_rejected total by blast

lemma mode_cases: "mode = IDModeStrict \<or> mode = IDModePassthrough"
  using mode_valid by (auto simp: ValidateIDMode_def)

lemma map_all_ok: "constructed \<Longrightarrow> (\<forall>raw\<in>set raws. is_ok (map_id k raw)) \<longleftrightarrow> [] \<notin> set raws"
  by (auto simp: ok_iff)

end

text \<open>Strict mode: only synthetic identifiers come out, and kinds never mix.\<close>

locale strict_mapper = id_mapper +
  assumes synthetic: "map_id k raw = Inr s \<Longrightarrow> has_prefix s (kind_prefix k @ ''_'')"
    and strict_mode: "mode = IDModeStrict"
begin

lemma is_synthetic: "map_id k raw = Inr s \<Longrightarrow> IsSyntheticID s"
proof -
  assume "map_id k raw = Inr s"
  then have "has_prefix s (kind_prefix k @ ''_'')" by (rule synthetic)
  then show ?thesis by (cases k) (auto simp: has_prefix_iff)
qed

lemma not_platform: "map_id k raw = Inr s \<Longrightarrow> \<not> IsStripePlatformID s"
  by (rule synthetic_not_platform[OF is_synthetic])

lemma kinds_disjoint: "map_id k raw = Inr s \<Longrightarrow> map_id k' raw' = Inr s \<Longrightarrow> k = k'"
  using synthetic[of k raw s] synthetic[of k' raw' s]
  by (cases k; cases k') (auto simp: has_prefix_iff)

end

text \<open>Pass-through mode: the identifier comes out unchanged.\<close>

locale passthrough_mapper = id_mapper +
  assumes unchanged: "map_id k raw = Inr s \<Longrightarrow> s = raw"
    and passthrough_mode: "mode = IDModePassthrough"
begin

lemma injective: "map_id k raw = Inr s \<Longrightarrow> map_id k' raw' = Inr s \<Longrightarrow> raw = raw'"
  using unchanged by blast

lemma preserves_platform: "map_id k raw = Inr s \<Longrightarrow> IsStripePlatformID s = IsStripePlatformID raw"
  using unchanged by blast

end

interpretation strict: strict_mapper "mapper_id (SyntheticMapper salt)"
  "mapper_mode (SyntheticMapper salt)" "mapper_ok (SyntheticMapper salt)" for salt
proof
  fix k raw s
  show "\<not> is_ok (mapper_id (SyntheticMapper salt) k [])"
    by (auto simp: is_ok_iff dest: SyntheticID_InrD)
  show "mapper_ok (SyntheticMapper salt) \<Longrightarrow> raw \<noteq> [] \<Longrightarrow> is_ok (mapper_id (SyntheticMapper salt) k raw)"
    by (simp add: SyntheticID_Inr mapper_ok_def)
  show "mapper_id (SyntheticMapper salt) k raw = Inr s \<Longrightarrow> s \<noteq> []"
    by (auto dest: SyntheticID_InrD)
  show "mapper_id (SyntheticMapper salt) k raw = Inr s \<Longrightarrow> has_prefix s (kind_prefix k @ ''_'')"
    by (auto dest!: SyntheticID_InrD(3) simp: has_prefix_iff)
qed (simp_all add: ValidateIDMode_def)

interpretation passthrough: passthrough_mapper "mapper_id PassthroughMapper"
  "mapper_mode PassthroughMapper" "mapper_ok PassthroughMapper"
  by unfold_locales (auto simp: ValidateIDMode_def split: if_splits)

text \<open>A caller that holds an \<open>IDMapper\<close> value of either kind.\<close>

interpretation mapper: id_mapper "mapper_id m" "mapper_mode m" "mapper_ok m" for m
  by (cases m) (simp_all only: strict.id_mapper_axioms passthrough.id_mapper_axioms)

end
