(* ===== verification/Stripe_Sanitize.thy ===== *)
theory Stripe_Sanitize
  imports Crypto
begin

text \<open>
  \<open>internal/models\<close>, the sanitizing half of \<open>internal/connectors/stripe\<close> (\<open>sanitize.go\<close>,
  \<open>to_lite.go\<close> and the raw mappers of \<open>stripe.go\<close>) and the lite types of \<open>internal/matchers\<close>.

  The Stripe objects come from the stripe-go package; a record holds the fields the code reads,
  with pointers as options, so that a nil dereference is the \<open>Panic\<close> outcome. Every other field
  of a Stripe object lives in the record's extension: the functions are polymorphic in it.
\<close>

section \<open>Stripe objects as the code reads them\<close>

record stripe_price =
  sp_ID :: string
  sp_Product :: "string option"

record stripe_item =
  si_Price :: "stripe_price option"
  si_Quantity :: i64

record stripe_subscription =
  ss_ID :: string
  ss_Customer :: "string option"
  ss_Status :: string
  ss_Items :: "stripe_item option list option"
  ss_Created :: i64

record stripe_line =
  ln_Subscription :: "string option"

record stripe_invoice =
  sv_ID :: string
  sv_Customer :: "string option"
  sv_Lines :: "stripe_line option list option"
  sv_Total :: i64
  sv_Currency :: string
  sv_Status :: string
  sv_Created :: i64

definition InvoiceStatusPaid :: string where
  "InvoiceStatusPaid = ''paid''"

section \<open>Sanitized models\<close>

record SubItem =
  item_PriceID :: string
  item_ProductID :: string
  item_Quantity :: i64

record Subscription =
  sub_ID :: string
  sub_Customer :: string
  sub_Status :: string
  sub_Items :: "SubItem list"
  sub_CreatedAt :: i64

record Invoice =
  inv_ID :: string
  inv_Customer :: string
  inv_Subscription :: string
  inv_Total :: i64
  inv_Currency :: string
  inv_Status :: string
  inv_CreatedAt :: i64
  inv_Paid :: bool

record SubscriptionLite =
  sl_ID :: string
  sl_Customer :: string
  sl_PriceIDs :: "string list"
  sl_ProductIDs :: "string list"
  sl_CreatedAt :: i64
  sl_Status :: string

record InvoiceLite =
  il_ID :: string
  il_Customer :: string
  il_Subscription :: string
  il_Total :: i64
  il_Currency :: string
  il_Status :: string
  il_CreatedAt :: i64
  il_Paid :: bool

section \<open>Sanitizing\<close>

datatype sanitize_error = Panic | HashFailed crypto_error

text \<open>\<open>id, _ = crypto.SyntheticID(...)\<close>: the error is dropped, leaving the empty string.\<close>

definition synthetic_or_empty :: "bytes \<Rightarrow> string \<Rightarrow> string \<Rightarrow> string" where
  "synthetic_or_empty salt raw p = (case SyntheticID salt raw p of Inl _ \<Rightarrow> [] | Inr s \<Rightarrow> s)"

fun sanitize_item :: "bytes \<Rightarrow> 'a stripe_item_scheme option \<Rightarrow> sanitize_error + SubItem list" where
  "sanitize_item salt None = Inl Panic"
| "sanitize_item salt (Some item) =
     (let priceID = (case si_Price item of None \<Rightarrow> []
            | Some p \<Rightarrow> if sp_ID p \<noteq> [] then synthetic_or_empty salt (sp_ID p) ''syn_price'' else []);
          prodID = (case si_Price item of None \<Rightarrow> []
            | Some p \<Rightarrow> (case sp_Product p of None \<Rightarrow> []
                | Some pr \<Rightarrow> if pr \<noteq> [] then synthetic_or_empty salt pr ''syn_prod'' else []))
      in Inr [\<lparr>item_PriceID = priceID, item_ProductID = prodID, item_Quantity = si_Quantity item\<rparr>])"

definition SanitizeSubscription ::
  "bytes \<Rightarrow> 'a stripe_subscription_scheme \<Rightarrow> sanitize_error + Subscription" where
  "SanitizeSubscription salt s =
     (case SyntheticID salt (ss_ID s) ''syn_sub'' of Inl e \<Rightarrow> Inl (HashFailed e)
      | Inr ident \<Rightarrow>
     (case ss_Customer s of None \<Rightarrow> Inl Panic
      | Some customer \<Rightarrow>
     (case SyntheticID salt customer ''syn_cust'' of Inl e \<Rightarrow> Inl (HashFailed e)
      | Inr cust \<Rightarrow>
     (case ss_Items s of None \<Rightarrow> Inl Panic
      | Some data \<Rightarrow>
     (case appendE (sanitize_item salt) data of Inl e \<Rightarrow> Inl e
      | Inr items \<Rightarrow>
        Inr \<lparr>sub_ID = ident, sub_Customer = cust, sub_Status = ss_Status s, sub_Items = items,
             sub_CreatedAt = ss_Created s\<rparr>)))))"

text \<open>The first invoice line with a subscription gives the identifier; the others are not read.\<close>

fun invoice_subscription :: "bytes \<Rightarrow> 'a stripe_line_scheme option list \<Rightarrow> sanitize_error + string" where
  "invoice_subscription salt [] = Inr []"
| "invoice_subscription salt (None # ls) = Inl Panic"
| "invoice_subscription salt (Some l # ls) =
     (case ln_Subscription l of
        Some (c # cs) \<Rightarrow> (case SyntheticID salt (c # cs) ''syn_sub'' of
            Inl e \<Rightarrow> Inl (HashFailed e) | Inr s \<Rightarrow> Inr s)
      | _ \<Rightarrow> invoice_subscription salt ls)"

definition SanitizeInvoice ::
  "bytes \<Rightarrow> 'a stripe_invoice_scheme \<Rightarrow> sanitize_error + Invoice" where
  "SanitizeInvoice salt i =
     (case SyntheticID salt (sv_ID i) ''syn_inv'' of Inl e \<Rightarrow> Inl (HashFailed e)
      | Inr ident \<Rightarrow>
     (case sv_Customer i of None \<Rightarrow> Inl Panic
      | Some customer \<Rightarrow>
     (case SyntheticID salt customer ''syn_cust'' of Inl e \<Rightarrow> Inl (HashFailed e)
      | Inr cust \<Rightarrow>
     (case (case sv_Lines i of None \<Rightarrow> Inr [] | Some ls \<Rightarrow> invoice_subscription salt ls) of
        Inl e \<Rightarrow> Inl e
      | Inr subscriptionID \<Rightarrow>
        Inr \<lparr>inv_ID = ident, inv_Customer = cust, inv_Subscription = subscriptionID,
             inv_Total = sv_Total i, inv_Currency = sv_Currency i, inv_Status = sv_Status i,
             inv_CreatedAt = sv_Created i, inv_Paid = (sv_Status i = InvoiceStatusPaid)\<rparr>))))"

section \<open>Lite forms for the matchers\<close>

definition ToSubscriptionLite :: "Subscription \<Rightarrow> SubscriptionLite" where
  "ToSubscriptionLite sub =
     \<lparr>sl_ID = sub_ID sub, sl_Customer = sub_Customer sub,
      sl_PriceIDs = filter (\<lambda>p. p \<noteq> []) (map item_PriceID (sub_Items sub)),
      sl_ProductIDs = filter (\<lambda>p. p \<noteq> []) (map item_ProductID (sub_Items sub)),
      sl_CreatedAt = sub_CreatedAt sub, sl_Status = sub_Status sub\<rparr>"

definition ToInvoiceLite :: "Invoice \<Rightarrow> InvoiceLite" where
  "ToInvoiceLite i =
     \<lparr>il_ID = inv_ID i, il_Customer = inv_Customer i, il_Subscription = inv_Subscription i,
      il_Total = inv_Total i, il_Currency = inv_Currency i, il_Status = inv_Status i,
      il_CreatedAt = inv_CreatedAt i, il_Paid = inv_Paid i\<rparr>"

definition ToSubscriptionLites :: "Subscription list \<Rightarrow> SubscriptionLite list" where
  "ToSubscriptionLites subs = map ToSubscriptionLite subs"

definition ToInvoiceLites :: "Invoice list \<Rightarrow> InvoiceLite list" where
  "ToInvoiceLites invs = map ToInvoiceLite invs"

section \<open>The raw mappers of \<open>stripe.go\<close>\<close>

fun raw_item :: "'a stripe_item_scheme option \<Rightarrow> sanitize_error + SubItem list" where
  "raw_item None = Inl Panic"
| "raw_item (Some item) =
     (case si_Price item of None \<Rightarrow> Inl Panic
      | Some p \<Rightarrow> (case sp_Product p of None \<Rightarrow> Inl Panic
         | Some pr \<Rightarrow> Inr [\<lparr>item_PriceID = sp_ID p, item_ProductID = pr,
                           item_Quantity = si_Quantity item\<rparr>]))"

definition sanitizeSubscription ::
  "'a stripe_subscription_scheme \<Rightarrow> sanitize_error + Subscription" where
  "sanitizeSubscription s =
     (case ss_Items s of None \<Rightarrow> Inl Panic
      | Some data \<Rightarrow> (case appendE raw_item data of Inl e \<Rightarrow> Inl e
         | Inr items \<Rightarrow> (case ss_Customer s of None \<Rightarrow> Inl Panic
            | Some c \<Rightarrow> Inr \<lparr>sub_ID = ss_ID s, sub_Customer = c, sub_Status = ss_Status s,
                            sub_Items = items, sub_CreatedAt = ss_Created s\<rparr>)))"

fun raw_line_subscription :: "'a stripe_line_scheme option list \<Rightarrow> sanitize_error + string" where
  "raw_line_subscription [] = Inr []"
| "raw_line_subscription (None # ls) = Inl Panic"
| "raw_line_subscription (Some l # ls) =
     (case ln_Subscription l of Some s \<Rightarrow> Inr s | None \<Rightarrow> raw_line_subscription ls)"

definition sanitizeInvoice :: "'a stripe_invoice_scheme \<Rightarrow> sanitize_error + Invoice" where
  "sanitizeInvoice i =
     (case (case sv_Lines i of None \<Rightarrow> Inr [] | Some ls \<Rightarrow> raw_line_subscription ls) of
        Inl e \<Rightarrow> Inl e
      | Inr subscriptionID \<Rightarrow> (case sv_Customer i of None \<Rightarrow> Inl Panic
         | Some c \<Rightarrow> Inr \<lparr>inv_ID = sv_ID i, inv_Customer = c, inv_Subscription = subscriptionID,
             inv_Total = sv_Total i, inv_Currency = sv_Currency i, inv_Status = sv_Status i,
             inv_CreatedAt = sv_Created i, inv_Paid = (sv_Status i = InvoiceStatusPaid)\<rparr>))"

section \<open>What sanitizing guarantees\<close>

definition synthetic_or_none :: "string \<Rightarrow> bool" where
  "synthetic_or_none s \<longleftrightarrow> s = [] \<or> IsSyntheticID s"

lemma synthetic_or_empty_none:
  "IsSyntheticID p \<Longrightarrow> synthetic_or_none (synthetic_or_empty salt raw p)"
  by (auto simp: synthetic_or_empty_def synthetic_or_none_def IsSyntheticID_def has_prefix_iff
      dest!: SyntheticID_InrD(3) split: sum.splits)

lemma SyntheticID_synthetic: "IsSyntheticID p \<Longrightarrow> SyntheticID salt raw p = Inr s \<Longrightarrow> IsSyntheticID s"
  by (auto simp: IsSyntheticID_def has_prefix_iff dest!: SyntheticID_InrD(3))

lemma sanitize_item_synthetic:
  assumes "sanitize_item salt it = Inr xs" and "x \<in> set xs"
  shows "synthetic_or_none (item_PriceID x) \<and> synthetic_or_none (item_ProductID x)"
proof (cases it)
  case None
  with assms show ?thesis by simp
next
  case (Some item)
  have e: "synthetic_or_none []" by (simp add: synthetic_or_none_def)
  show ?thesis
    using assms Some synthetic_or_empty_none[of "''syn_price''" salt]
      synthetic_or_empty_none[of "''syn_prod''" salt] e
    by (auto simp: Let_def split: option.splits)
qed

lemma invoice_subscription_synthetic:
  "invoice_subscription salt ls = Inr s \<Longrightarrow> synthetic_or_none s"
  by (induction salt ls rule: invoice_subscription.induct)
    (auto simp: synthetic_or_none_def intro: SyntheticID_synthetic[of "''syn_sub''"]
      split: option.splits list.splits sum.splits)

lemma SanitizeSubscription_InrD:
  assumes "SanitizeSubscription salt s = Inr m"
  shows "SyntheticID salt (ss_ID s) ''syn_sub'' = Inr (sub_ID m)"
    and "\<exists>c. ss_Customer s = Some c \<and> SyntheticID salt c ''syn_cust'' = Inr (sub_Customer m)"
    and "\<exists>d. ss_Items s = Some d \<and> appendE (sanitize_item salt) d = Inr (sub_Items m)"
    and "sub_Status m = ss_Status s" "sub_CreatedAt m = ss_Created s"
  using assms by (auto simp: SanitizeSubscription_def split: sum.splits option.splits)

lemma SanitizeInvoice_InrD:
  assumes "SanitizeInvoice salt i = Inr m"
  shows "SyntheticID salt (sv_ID i) ''syn_inv'' = Inr (inv_ID m)"
    and "\<exists>c. sv_Customer i = Some c \<and> SyntheticID salt c ''syn_cust'' = Inr (inv_Customer m)"
    and "(case sv_Lines i of None \<Rightarrow> Inr [] | Some ls \<Rightarrow> invoice_subscription salt ls)
           = Inr (inv_Subscription m)"
    and "inv_Total m = sv_Total i" "inv_Status m = sv_Status i"
    and "inv_Paid m \<longleftrightarrow> sv_Status i = InvoiceStatusPaid"
  using assms by (auto simp: SanitizeInvoice_def split: sum.splits option.splits)

lemma SanitizeSubscription_synthetic:
  assumes "SanitizeSubscription salt s = Inr m"
  shows "IsSyntheticID (sub_ID m)" "IsSyntheticID (sub_Customer m)"
    and "x \<in> set (sub_Items m) \<Longrightarrow> synthetic_or_none (item_PriceID x) \<and> synthetic_or_none (item_ProductID x)"
  using SanitizeSubscription_InrD[OF assms]
  by (auto intro: SyntheticID_synthetic[of "''syn_sub''"] SyntheticID_synthetic[of "''syn_cust''"]
      dest!: appendE_InrD sanitize_item_synthetic)

lemma SanitizeInvoice_synthetic:
  assumes "SanitizeInvoice salt i = Inr m"
  shows "IsSyntheticID (inv_ID m)" "IsSyntheticID (inv_Customer m)" "synthetic_or_none (inv_Subscription m)"
  using SanitizeInvoice_InrD[OF assms]
  by (auto intro: SyntheticID_synthetic[of "''syn_inv''"] SyntheticID_synthetic[of "''syn_cust''"]
      simp: synthetic_or_none_def[of "[]"] dest: invoice_subscription_synthetic split: option.splits)

end
