(* ===== verification/Matchers.thy ===== *)
theory Matchers
  imports Stripe_Sanitize Go_Float
begin

text \<open>
  \<open>internal/matchers/matcher.go\<close>: usage events, link edges, recipes, the time-window test and the
  \<open>Matcher\<close> interface. The interface is the locale \<open>matcher\<close>: what every matching algorithm owes
  the ensemble about the edges it returns. Each of the three matchers interprets it in its theory.
\<close>

section \<open>Data\<close>

record UsageEvent =
  us_User :: string
  us_Feature :: string
  us_SKU :: string
  us_At :: i64

record EdgeMeta =
  meta_Schema :: string
  meta_IDMode :: string

definition no_meta :: EdgeMeta where
  "no_meta = \<lparr>meta_Schema = [], meta_IDMode = []\<rparr>"

record LinkEdge =
  le_Meta :: EdgeMeta
  le_From :: string
  le_To :: string
  le_Kind :: string
  le_Confidence :: f64
  le_Proof :: string
  le_Recipe :: string
  le_At :: i64
  le_Notes :: string

record Recipe =
  rc_Name :: string
  rc_Version :: string
  rc_Weights :: "string \<rightharpoonup> f64"
  rc_Threshold :: f64
  rc_TemporalWindowSec :: i64
  rc_SKUOverlapMin :: f64

datatype match_error = ProofFailed crypto_error

record Matcher =
  mt_Name :: string
  mt_Match :: "UsageEvent list \<Rightarrow> SubscriptionLite list \<Rightarrow> InvoiceLite list \<Rightarrow> match_error + LinkEdge list"

definition kind_subscription :: string where "kind_subscription = ''user->subscription''"
definition kind_invoice :: string where "kind_invoice = ''user->invoice''"
definition kind_price :: string where "kind_price = ''user->price''"
definition kind_product :: string where "kind_product = ''user->product''"

lemmas kind_defs = kind_subscription_def kind_invoice_def kind_price_def kind_product_def

section \<open>The time window\<close>

definition Within :: "i64 \<Rightarrow> i64 \<Rightarrow> i64 \<Rightarrow> bool" where
  "Within ts center windowSec =
     (if sint windowSec \<le> 0 then False
      else let diff = ts - center; diff' = (if sint diff < 0 then - diff else diff)
           in sint diff' \<le> sint windowSec)"

text \<open>No overflow in a signed subtraction.\<close>

definition sub_fits :: "i64 \<Rightarrow> i64 \<Rightarrow> bool" where
  "sub_fits a b \<longleftrightarrow> - (2 ^ 63) < sint a - sint b \<and> sint a - sint b < 2 ^ 63"

lemma sint_diff_fits:
  assumes "sub_fits a b" shows "sint (a - b) = sint a - sint b"
proof -
  have "sint (a - b) = signed_take_bit 63 (sint a - sint b)"
    by (simp add: signed_take_bit_minus sint_word_ariths(2))
  also have "\<dots> = sint a - sint b"
    using assms unfolding sub_fits_def by (intro signed_take_bit_int_eq_self) simp_all
  finally show ?thesis .
qed

lemma sint_neg_fits:
  fixes a :: i64
  assumes "sint a \<noteq> - (2 ^ 63)" shows "sint (- a) = - sint a"
proof -
  have "- (2 ^ 63) \<le> sint a" "sint a < 2 ^ 63" using sint_ge[of a] sint_lt[of a] by simp_all
  then have "sub_fits 0 a" using assms unfolding sub_fits_def by (simp add: less_le)
  from sint_diff_fits[OF this] show ?thesis by simp
qed

lemma sint_abs_fits:
  assumes "sub_fits a b"
  shows "sint (if sint (a - b) < 0 then - (a - b) else a - b) = \<bar>sint a - sint b\<bar>"
proof -
  have d: "sint (a - b) = sint a - sint b" by (rule sint_diff_fits[OF assms])
  have "sint (a - b) \<noteq> - (2 ^ 63)" using assms by (simp add: d sub_fits_def)
  from sint_neg_fits[OF this] show ?thesis by (simp add: d)
qed

lemma Within_exact:
  assumes "sub_fits ts center"
  shows "Within ts center w \<longleftrightarrow> 0 < sint w \<and> \<bar>sint ts - sint center\<bar> \<le> sint w"
  using sint_abs_fits[OF assms] by (auto simp: Within_def Let_def)

text \<open>Beyond that the difference wraps, and the most distant timestamps can count as close.\<close>

lemma Within_wraps: "0 < sint w \<Longrightarrow> Within (2 ^ 63 - 1) (- 1) w"
  by (simp add: Within_def)

section \<open>Recipe validation\<close>

datatype recipe_error = EmptyRecipeName | EmptyRecipeVersion | BadThreshold | NegativeWindow | BadOverlap

definition Recipe_Validate :: "Recipe \<Rightarrow> recipe_error option" where
  "Recipe_Validate r =
     (if rc_Name r = [] then Some EmptyRecipeName
      else if rc_Version r = [] then Some EmptyRecipeVersion
      else if f_less (rc_Threshold r) (f_const 0) \<or> f_less (f_const 1) (rc_Threshold r) then Some BadThreshold
      else if sint (rc_TemporalWindowSec r) < 0 then Some NegativeWindow
      else if f_less (rc_SKUOverlapMin r) (f_const 0) \<or> f_less (f_const 1) (rc_SKUOverlapMin r) then Some BadOverlap
      else None)"

section \<open>The Matcher interface\<close>

definition unit_interval :: "f64 \<Rightarrow> bool" where
  "unit_interval x \<longleftrightarrow> (\<exists>q. x = Fin q \<and> 0 \<le> q \<and> q \<le> 1)"

lemma unit_interval_Fin [simp]: "unit_interval (Fin q) \<longleftrightarrow> 0 \<le> q \<and> q \<le> 1"
  by (simp add: unit_interval_def)

text \<open>An edge is explained by the data: its source is a usage event's user at the event's time, its
  target a billing object of the kind it names.\<close>

definition edge_source_ok :: "UsageEvent list \<Rightarrow> LinkEdge \<Rightarrow> bool" where
  "edge_source_ok us e \<longleftrightarrow> (\<exists>u\<in>set us. le_From e = us_User u \<and> le_At e = us_At u)"

definition edge_target_ok :: "SubscriptionLite list \<Rightarrow> InvoiceLite list \<Rightarrow> LinkEdge \<Rightarrow> bool" where
  "edge_target_ok ss is e \<longleftrightarrow>
     le_Kind e = kind_subscription \<and> (\<exists>s\<in>set ss. le_To e = sl_ID s)
   \<or> le_Kind e = kind_invoice \<and> (\<exists>i\<in>set is. le_To e = il_ID i)
   \<or> le_Kind e = kind_price \<and> (\<exists>s\<in>set ss. le_To e \<in> set (sl_PriceIDs s))
   \<or> le_Kind e = kind_product \<and> (\<exists>s\<in>set ss. le_To e \<in> set (sl_ProductIDs s))"

locale matcher =
  fixes name :: string
    and match :: "UsageEvent list \<Rightarrow> SubscriptionLite list \<Rightarrow> InvoiceLite list \<Rightarrow> match_error + LinkEdge list"
    and salted :: bool
  assumes total: "salted \<Longrightarrow> is_ok (match us ss is)"
    and source: "match us ss is = Inr es \<Longrightarrow> e \<in> set es \<Longrightarrow> edge_source_ok us e"
    and target: "match us ss is = Inr es \<Longrightarrow> e \<in> set es \<Longrightarrow> edge_target_ok ss is e"
    and recipe: "match us ss is = Inr es \<Longrightarrow> e \<in> set es \<Longrightarrow> le_Recipe e = name @ ''/v1''"
    and confidence: "match us ss is = Inr es \<Longrightarrow> e \<in> set es \<Longrightarrow> unit_interval (le_Confidence e)"
    and proof_key: "match us ss is = Inr es \<Longrightarrow> e \<in> set es \<Longrightarrow> salted \<and> length (le_Proof e) = 64"
    and name_ok: "name \<noteq> []" "CHR ''/'' \<notin> set name"
begin

lemma empty_usages:
  assumes "salted" shows "match [] ss is = Inr []"
proof -
  obtain es where es: "match [] ss is = Inr es" using total[OF assms, of "[]" ss "is"] unfolding is_ok_iff by (elim exE)
  have "\<not> edge_source_ok [] (hd es)" by (simp add: edge_source_ok_def)
  then have "hd es \<notin> set es" using source[OF es, of "hd es"] by argo
  then show ?thesis using es by (cases es) simp_all
qed

lemma recipe_index: "match us ss is = Inr es \<Longrightarrow> e \<in> set es
    \<Longrightarrow> index_of CHR ''/'' (le_Recipe e) = Some (length name)"
  using recipe[of us ss "is" es e] index_of_append[OF name_ok(2), of "''v1''"] by simp

lemma no_data:
  assumes "salted" shows "match us [] [] = Inr []"
proof -
  obtain es where es: "match us [] [] = Inr es" using total[OF assms, of us "[]" "[]"] unfolding is_ok_iff by (elim exE)
  have "\<not> edge_target_ok [] [] (hd es)" by (simp add: edge_target_ok_def)
  then have "hd es \<notin> set es" using target[OF es, of "hd es"] by argo
  then show ?thesis using es by (cases es) simp_all
qed

end

definition is_matcher :: "Matcher \<Rightarrow> bool \<Rightarrow> bool" where
  "is_matcher m salted \<longleftrightarrow> matcher (mt_Name m) (mt_Match m) salted"

end
