(* ===== verification/Deterministic.thy ===== *)
theory Deterministic
  imports Matchers
begin

text \<open>
  \<open>internal/matchers/deterministic.go\<close>: exact joins of usage events with subscriptions and invoices
  on the synthetic customer id, through index maps built once per call.
\<close>

record DeterministicIDMatcher =
  det_TenantSalt :: bytes
  det_IDMapper :: "IDMapper option"

definition det_Name :: string where
  "det_Name = ''deterministic_id''"

definition det_getIDMode :: "DeterministicIDMatcher \<Rightarrow> string" where
  "det_getIDMode m = (case det_IDMapper m of Some mp \<Rightarrow> mapper_mode mp | None \<Rightarrow> ''strict'')"

definition det_generateProof ::
  "DeterministicIDMatcher \<Rightarrow> string \<Rightarrow> string \<Rightarrow> string \<Rightarrow> string \<Rightarrow> crypto_error + string" where
  "det_generateProof m from to kind sku =
     HMACSHA256Hex (det_TenantSalt m) (join ''|'' [from, to, kind, det_Name, sku, det_getIDMode m])"

definition det_edge ::
  "DeterministicIDMatcher \<Rightarrow> UsageEvent \<Rightarrow> string \<Rightarrow> string \<Rightarrow> string \<Rightarrow> match_error + LinkEdge list" where
  "det_edge m usage to kind nts =
     (case det_generateProof m (us_User usage) to kind (us_SKU usage) of
        Inl e \<Rightarrow> Inl (ProofFailed e)
      | Inr pr \<Rightarrow> Inr [\<lparr>le_Meta = \<lparr>meta_Schema = ''connektn.edge.v1'', meta_IDMode = det_getIDMode m\<rparr>,
          le_From = us_User usage, le_To = to, le_Kind = kind, le_Confidence = f_const 1,
          le_Proof = pr, le_Recipe = ''deterministic_id/v1'', le_At = us_At usage, le_Notes = nts\<rparr>])"

text \<open>The edges one subscription of the user contributes: itself, then each price and each product
  that equals the event's SKU.\<close>

definition det_sub_edges ::
  "DeterministicIDMatcher \<Rightarrow> UsageEvent \<Rightarrow> SubscriptionLite \<Rightarrow> match_error + LinkEdge list" where
  "det_sub_edges m usage sub =
     seqE (det_edge m usage (sl_ID sub) kind_subscription ''exact customer ID match'')
     (seqE (appendE (\<lambda>priceID. if us_SKU usage = priceID
                then det_edge m usage priceID kind_price ''exact SKU-price match'' else Inr [])
              (sl_PriceIDs sub))
       (appendE (\<lambda>prodID. if us_SKU usage = prodID
                then det_edge m usage prodID kind_product ''exact SKU-product match'' else Inr [])
              (sl_ProductIDs sub)))"

definition det_inv_edges ::
  "DeterministicIDMatcher \<Rightarrow> UsageEvent \<Rightarrow> InvoiceLite \<Rightarrow> match_error + LinkEdge list" where
  "det_inv_edges m usage i = det_edge m usage (il_ID i) kind_invoice ''exact customer ID match''"

definition det_Match :: "DeterministicIDMatcher \<Rightarrow> UsageEvent list \<Rightarrow> SubscriptionLite list
    \<Rightarrow> InvoiceLite list \<Rightarrow> match_error + LinkEdge list" where
  "det_Match m usages subs invs =
     (let subsByCustomer = index_all Map.empty (map (\<lambda>s. (sl_Customer s, s)) subs);
          invsByCustomer = index_all Map.empty (map (\<lambda>i. (il_Customer i, i)) invs)
      in appendE (\<lambda>usage.
           seqE (case subsByCustomer (us_User usage) of None \<Rightarrow> Inr []
                 | Some userSubs \<Rightarrow> appendE (det_sub_edges m usage) userSubs)
                (case invsByCustomer (us_User usage) of None \<Rightarrow> Inr []
                 | Some userInvs \<Rightarrow> appendE (det_inv_edges m usage) userInvs))
         usages)"

definition det_matcher :: "DeterministicIDMatcher \<Rightarrow> Matcher" where
  "det_matcher m = \<lparr>mt_Name = det_Name, mt_Match = det_Match m\<rparr>"

section \<open>The index maps are a nested loop\<close>

text \<open>The reference the indexes optimise: compare every event with every object.\<close>

definition det_Match_ref :: "DeterministicIDMatcher \<Rightarrow> UsageEvent list \<Rightarrow> SubscriptionLite list
    \<Rightarrow> InvoiceLite list \<Rightarrow> match_error + LinkEdge list" where
  "det_Match_ref m usages subs invs =
     appendE (\<lambda>usage.
       seqE (appendE (det_sub_edges m usage) (filter (\<lambda>s. sl_Customer s = us_User usage) subs))
            (appendE (det_inv_edges m usage) (filter (\<lambda>i. il_Customer i = us_User usage) invs)))
       usages"

lemma appendE_index:
  "(case index_all Map.empty (map (\<lambda>x. (key x, x)) xs) k of None \<Rightarrow> Inr [] | Some ys \<Rightarrow> appendE f ys)
   = appendE f (filter (\<lambda>x. key x = k) xs)"
proof -
  have "appendE f (case index_all Map.empty (map (\<lambda>x. (key x, x)) xs) k of None \<Rightarrow> [] | Some ys \<Rightarrow> ys)
    = appendE f (filter (\<lambda>x. key x = k) xs)"
    by (simp add: index_all_empty filter_map_pair)
  then show ?thesis by (cases "index_all Map.empty (map (\<lambda>x. (key x, x)) xs) k") simp_all
qed

lemma det_Match_eq_ref: "det_Match m us ss is = det_Match_ref m us ss is"
  by (simp add: det_Match_def det_Match_ref_def Let_def appendE_index)

section \<open>The laws of the interface\<close>

lemma join_bar_nonempty: "join ''|'' (a # b # cs) \<noteq> []"
  by simp

lemma det_generateProof_cases:
  "det_TenantSalt m \<noteq> [] \<Longrightarrow> \<exists>p. det_generateProof m f t k s = Inr p \<and> length p = 64"
  "det_generateProof m f t k s = Inr p \<Longrightarrow> det_TenantSalt m \<noteq> [] \<and> length p = 64"
  by (auto simp: det_generateProof_def HMACSHA256Hex_def split: if_splits)

lemma det_edge_Inr:
  assumes "det_edge m u to kind nts = Inr es" and "e \<in> set es"
  shows "le_From e = us_User u" "le_At e = us_At u" "le_To e = to" "le_Kind e = kind"
    "le_Recipe e = ''deterministic_id/v1''" "le_Confidence e = f_const 1"
    "det_TenantSalt m \<noteq> []" "length (le_Proof e) = 64"
    "meta_IDMode (le_Meta e) = det_getIDMode m"
  using assms det_generateProof_cases(2) by (auto simp: det_edge_def split: sum.splits)

lemma det_edge_ok: "is_ok (det_edge m u to kind nts) \<longleftrightarrow> det_TenantSalt m \<noteq> []"
  by (auto simp: det_edge_def det_generateProof_def HMACSHA256Hex_def is_ok_def split: sum.splits)

text \<open>Where an edge of the matcher comes from.\<close>

lemma det_sub_edges_Inr:
  assumes "det_sub_edges m u s = Inr es" and "e \<in> set es"
  obtains to kind nts xs where "det_edge m u to kind nts = Inr xs" "e \<in> set xs"
    "kind = kind_subscription \<and> to = sl_ID s
     \<or> kind = kind_price \<and> to = us_SKU u \<and> to \<in> set (sl_PriceIDs s)
     \<or> kind = kind_product \<and> to = us_SKU u \<and> to \<in> set (sl_ProductIDs s)"
  using assms unfolding det_sub_edges_def
  by (fastforce simp: seqE_Inr_iff dest!: appendE_InrD split: if_splits)

lemma det_Match_Inr:
  assumes "det_Match m us ss is = Inr es" and "e \<in> set es"
  obtains u to kind nts xs where "u \<in> set us" "det_edge m u to kind nts = Inr xs" "e \<in> set xs"
    "(\<exists>s\<in>set ss. sl_Customer s = us_User u \<and>
        (kind = kind_subscription \<and> to = sl_ID s
         \<or> kind = kind_price \<and> to = us_SKU u \<and> to \<in> set (sl_PriceIDs s)
         \<or> kind = kind_product \<and> to = us_SKU u \<and> to \<in> set (sl_ProductIDs s)))
     \<or> (\<exists>i\<in>set is. il_Customer i = us_User u \<and> kind = kind_invoice \<and> to = il_ID i)"
proof -
  from assms[unfolded det_Match_eq_ref det_Match_ref_def] obtain u ys where u: "u \<in> set us"
    and ys: "seqE (appendE (det_sub_edges m u) (filter (\<lambda>s. sl_Customer s = us_User u) ss))
       (appendE (det_inv_edges m u) (filter (\<lambda>i. il_Customer i = us_User u) is)) = Inr ys" "e \<in> set ys"
    by (blast dest: appendE_InrD)
  then consider (s) as where "appendE (det_sub_edges m u) (filter (\<lambda>s. sl_Customer s = us_User u) ss) = Inr as" "e \<in> set as"
    | (i) bs where "appendE (det_inv_edges m u) (filter (\<lambda>i. il_Customer i = us_User u) is) = Inr bs" "e \<in> set bs"
    by (auto simp: seqE_Inr_iff)
  then show thesis
  proof cases
    case s
    then obtain sub xs where sub: "sub \<in> set ss" "sl_Customer sub = us_User u"
      and xs: "det_sub_edges m u sub = Inr xs" "e \<in> set xs" by (auto dest!: appendE_InrD)
    from det_sub_edges_Inr[OF xs] show ?thesis using that u sub by metis
  next
    case i
    then obtain inv xs where inv: "inv \<in> set is" "il_Customer inv = us_User u"
      and xs: "det_inv_edges m u inv = Inr xs" "e \<in> set xs" by (auto dest!: appendE_InrD)
    show ?thesis using that[OF u xs[unfolded det_inv_edges_def]] inv by blast
  qed
qed

lemma det_Match_total: "det_TenantSalt m \<noteq> [] \<Longrightarrow> is_ok (det_Match m us ss is)"
  by (auto simp: det_Match_eq_ref det_Match_ref_def appendE_ok det_sub_edges_def det_inv_edges_def
      det_edge_ok)

interpretation det: matcher det_Name "det_Match m" "det_TenantSalt m \<noteq> []" for m
proof
  fix us ss "is" es e
  show "det_TenantSalt m \<noteq> [] \<Longrightarrow> is_ok (det_Match m us ss is)" by (rule det_Match_total)
  assume es: "det_Match m us ss is = Inr es" and e: "e \<in> set es"
  show "edge_source_ok us e"
    using es e by (rule det_Match_Inr) (auto simp: edge_source_ok_def dest: det_edge_Inr)
  show "edge_target_ok ss is e"
    using es e by (rule det_Match_Inr) (frule (1) det_edge_Inr(3), drule (1) det_edge_Inr(4), auto simp: edge_target_ok_def)
  show "le_Recipe e = det_Name @ ''/v1''"
    using es e by (rule det_Match_Inr) (auto simp: det_Name_def dest: det_edge_Inr(5))
  show "unit_interval (le_Confidence e)"
    using es e by (rule det_Match_Inr) (auto simp: unit_interval_def f_const_1 dest: det_edge_Inr(6))
  show "det_TenantSalt m \<noteq> [] \<and> length (le_Proof e) = 64"
    using es e by (rule det_Match_Inr) (auto dest: det_edge_Inr(7,8))
qed (simp_all add: det_Name_def)

end
