(* ===== verification/Temporal.thy ===== *)
theory Temporal
  imports Matchers
begin

text \<open>
  \<open>internal/matchers/temporal.go\<close>: edges between usage events and billing objects created within the
  window, with a confidence that falls linearly from 0.6 to 0 at the edge of the window, computed in
  binary64 as the code does.
\<close>

record TemporalMatcher =
  tm_WindowSec :: i64
  tm_TenantSalt :: bytes

definition temporal_Name :: string where
  "temporal_Name = ''temporal_proximity''"

text \<open>\<open>if diff < 0 { diff = -diff }\<close> on 64-bit integers.\<close>

definition abs_diff :: "i64 \<Rightarrow> i64 \<Rightarrow> i64" where
  "abs_diff a b = (let diff = a - b in if sint diff < 0 then - diff else diff)"

definition calculateConfidence :: "TemporalMatcher \<Rightarrow> i64 \<Rightarrow> i64 \<Rightarrow> f64" where
  "calculateConfidence m ts1 ts2 =
     (if tm_WindowSec m = 0 then f_const 0
      else let diff = abs_diff ts1 ts2;
               baseConfidence = lit_06;
               decay = f_div (f_of_int64 diff) (f_of_int64 (tm_WindowSec m));
               confidence = f_mul baseConfidence (f_sub (f_const 1) decay);
               confidence = (if f_less confidence (f_const 0) then f_const 0 else confidence)
           in if f_less (lit_06) confidence then lit_06 else confidence)"

definition temporal_generateProof ::
  "TemporalMatcher \<Rightarrow> string \<Rightarrow> string \<Rightarrow> string \<Rightarrow> i64 \<Rightarrow> crypto_error + string" where
  "temporal_generateProof m from to kind diffSec =
     HMACSHA256Hex (tm_TenantSalt m) (join ''|'' [from, to, kind, temporal_Name, dec_int (sint diffSec)])"

text \<open>One iteration of either inner loop; \<open>what\<close> is the object named in the note.\<close>

definition temporal_edge ::
  "TemporalMatcher \<Rightarrow> UsageEvent \<Rightarrow> string \<Rightarrow> i64 \<Rightarrow> string \<Rightarrow> string \<Rightarrow> match_error + LinkEdge list" where
  "temporal_edge m usage to createdAt kind what =
     (if Within (us_At usage) createdAt (tm_WindowSec m) then
        let confidence = calculateConfidence m (us_At usage) createdAt;
            diffSec = abs_diff (us_At usage) createdAt
        in case temporal_generateProof m (us_User usage) to kind diffSec of
             Inl e \<Rightarrow> Inl (ProofFailed e)
           | Inr pr \<Rightarrow> Inr [\<lparr>le_Meta = no_meta, le_From = us_User usage, le_To = to, le_Kind = kind,
               le_Confidence = confidence, le_Proof = pr, le_Recipe = ''temporal_proximity/v1'',
               le_At = us_At usage,
               le_Notes = ''usage within '' @ dec_int (sint diffSec) @ ''s of '' @ what @ '' creation''\<rparr>]
      else Inr [])"

definition temporal_Match :: "TemporalMatcher \<Rightarrow> UsageEvent list \<Rightarrow> SubscriptionLite list
    \<Rightarrow> InvoiceLite list \<Rightarrow> match_error + LinkEdge list" where
  "temporal_Match m usages subs invs =
     appendE (\<lambda>usage.
       seqE (appendE (\<lambda>sub. temporal_edge m usage (sl_ID sub) (sl_CreatedAt sub) kind_subscription ''subscription'') subs)
            (appendE (\<lambda>i. temporal_edge m usage (il_ID i) (il_CreatedAt i) kind_invoice ''invoice'') invs))
       usages"

definition temporal_matcher :: "TemporalMatcher \<Rightarrow> Matcher" where
  "temporal_matcher m = \<lparr>mt_Name = temporal_Name, mt_Match = temporal_Match m\<rparr>"

section \<open>The confidence\<close>

definition base06 :: rat where "base06 = 5404319552844595 / 9007199254740992"

lemma f_const_base06: "lit_06 = Fin base06"
  by (simp add: lit_values base06_def)

lemma base06_bounds: "0 < base06" "base06 < 1"
  by (simp_all add: base06_def)

lemma rnd_base06: "rnd base06 = base06"
proof -
  have b: "base06 = of_int 5404319552844595 * 2 powi (- 53)"
    by (simp add: base06_def power_int_minus)
  show ?thesis unfolding b by (rule rnd_exact) simp_all
qed

definition clamp06 :: "rat \<Rightarrow> rat" where "clamp06 q = min base06 (max 0 q)"

lemma rnd_small: assumes "\<bar>q\<bar> \<le> of_int k" "\<bar>k\<bar> < 2 ^ 53" shows "\<bar>rnd q\<bar> \<le> of_int k"
proof -
  have "rnd q \<le> rnd (of_int k)" "rnd (- of_int k) \<le> rnd q" using assms by (auto intro!: rnd_mono)
  then show ?thesis using rnd_int_exact[OF assms(2)] by (simp add: rnd_minus abs_le_iff)
qed

lemma rnd_pow2: "- 1074 \<le> e \<Longrightarrow> rnd (2 powi e) = 2 powi e"
  using rnd_exact[of 1 e] by simp

lemma rnd_le_pow2: assumes "\<bar>q\<bar> \<le> 2 ^ n" shows "\<bar>rnd q\<bar> \<le> 2 ^ n"
proof -
  have "rnd q \<le> rnd (2 ^ n)" "rnd (- (2 ^ n)) \<le> rnd q" using assms by (auto intro!: rnd_mono)
  moreover have "rnd (2 ^ n) = 2 ^ n" using rnd_pow2[of "int n"] by (simp add: pow2_nat)
  ultimately show ?thesis by (simp add: rnd_minus abs_le_iff)
qed

lemma rnd_window_pos: "0 < w \<Longrightarrow> 1 \<le> rnd (of_int w)"
  using rnd_mono[of 1 "of_int w"] by simp

text \<open>The binary64 value of a 64-bit integer.\<close>

definition i64_rat :: "i64 \<Rightarrow> rat" where "i64_rat w = rnd (of_int (sint w))"

lemma f_of_int64_rat: "f_of_int64 w = Fin (i64_rat w)"
  unfolding i64_rat_def by (rule f_of_int64_Fin)

lemma i64_rat_mono: "sint a \<le> sint b \<Longrightarrow> i64_rat a \<le> i64_rat b"
  unfolding i64_rat_def by (rule rnd_mono) (simp only: of_int_le_iff)

lemma i64_rat_0 [simp]: "i64_rat 0 = 0"
  by (simp add: i64_rat_def)

lemma f_of_int64_bound: "\<bar>i64_rat w\<bar> \<le> 2 ^ 63"
  unfolding i64_rat_def
proof (rule rnd_le_pow2)
  have "- (2 ^ 63) \<le> sint w" "sint w < 2 ^ 63" using sint_ge[of w] sint_lt[of w] by simp_all
  then have "\<bar>sint w\<bar> \<le> 2 ^ 63" by (simp add: abs_if)
  then have "of_int \<bar>sint w\<bar> \<le> (of_int (2 ^ 63) :: rat)" by (simp only: of_int_le_iff)
  then show "\<bar>of_int (sint w)\<bar> \<le> (2 ^ 63 :: rat)" by (simp only: of_int_abs of_int_power of_int_numeral)
qed

lemma rnd_window_nz: assumes "w \<noteq> 0" shows "1 \<le> \<bar>i64_rat w\<bar>"
proof (cases "0 < sint w")
  case True then show ?thesis using rnd_window_pos[of "sint w"] by (simp add: i64_rat_def del: of_int_sint)
next
  case False
  moreover have "sint w \<noteq> 0" using assms by (metis signed_word_eqI sint_0)
  ultimately have "1 \<le> rnd (of_int (- sint w))" by (intro rnd_window_pos) simp
  then show ?thesis by (simp add: i64_rat_def rnd_minus del: of_int_sint)
qed

text \<open>The value computed, as a rational: no overflow and no NaN on any input.\<close>

lemma calculateConfidence_Fin:
  assumes "tm_WindowSec m \<noteq> 0"
  shows "calculateConfidence m a b = Fin (clamp06 (rnd (base06 *
     rnd (1 - rnd (i64_rat (abs_diff a b) / i64_rat (tm_WindowSec m))))))"
proof -
  let ?d = "i64_rat (abs_diff a b)" and ?w = "i64_rat (tm_WindowSec m)"
  have w: "1 \<le> \<bar>?w\<bar>" by (rule rnd_window_nz[OF assms])
  have "\<bar>?d / ?w\<bar> \<le> \<bar>?d\<bar>" using w mult_left_mono[OF w, of "\<bar>?d\<bar>"] by (auto simp: abs_divide divide_le_eq)
  with f_of_int64_bound[of "abs_diff a b"] have q: "\<bar>?d / ?w\<bar> \<le> 2 ^ 63" by linarith
  then have rq: "\<bar>rnd (?d / ?w)\<bar> \<le> 2 ^ 63" by (rule rnd_le_pow2)
  then have s: "\<bar>1 - rnd (?d / ?w)\<bar> \<le> 2 ^ 64" by (simp add: abs_le_iff)
  from rnd_le_pow2[OF this] have rs: "\<bar>rnd (1 - rnd (?d / ?w))\<bar> \<le> 2 ^ 64" .
  have "\<bar>base06 * rnd (1 - rnd (?d / ?w))\<bar> = base06 * \<bar>rnd (1 - rnd (?d / ?w))\<bar>"
    using base06_bounds by (simp add: abs_mult)
  also have "\<dots> \<le> 1 * 2 ^ 64" using base06_bounds rs by (intro mult_mono) simp_all
  finally have p: "\<bar>base06 * rnd (1 - rnd (?d / ?w))\<bar> \<le> 2 ^ 64" by simp
  have q64: "\<bar>?d / ?w\<bar> \<le> 2 ^ 64" by (rule order_trans[OF q]) simp
  have wnz: "?w \<noteq> 0" using w by auto
  have "f_div (f_of_int64 (abs_diff a b)) (f_of_int64 (tm_WindowSec m)) = Fin (rnd (?d / ?w))"
    using wnz by (simp add: f_of_int64_rat to_f64_small[OF q64])
  moreover have "f_sub (f_const 1) (Fin (rnd (?d / ?w))) = Fin (rnd (1 - rnd (?d / ?w)))"
    using to_f64_small[OF s] by (simp add: f_sub_def f_const_1)
  moreover have "f_mul (lit_06) (Fin (rnd (1 - rnd (?d / ?w)))) = Fin (rnd (base06 * rnd (1 - rnd (?d / ?w))))"
    using to_f64_small[OF p] by (simp add: f_const_base06)
  ultimately show ?thesis using assms base06_bounds
    by (auto simp: calculateConfidence_def Let_def f_const_0 f_const_base06 clamp06_def)
qed

lemma calculateConfidence_range:
  "\<exists>q. calculateConfidence m a b = Fin q \<and> 0 \<le> q \<and> q \<le> base06"
proof (cases "tm_WindowSec m = 0")
  case True
  then show ?thesis using base06_bounds by (simp add: calculateConfidence_def f_const_0)
next
  case False
  from calculateConfidence_Fin[OF this, of a b] base06_bounds show ?thesis by (simp add: clamp06_def)
qed

lemma clamp06_mono: "x \<le> y \<Longrightarrow> clamp06 x \<le> clamp06 y"
  by (auto simp: clamp06_def min_def max_def)

lemma abs_diff_exact: "sub_fits a b \<Longrightarrow> sint (abs_diff a b) = \<bar>sint a - sint b\<bar>"
  unfolding abs_diff_def Let_def by (rule sint_abs_fits)

text \<open>Closer events never score lower.\<close>

lemma calculateConfidence_antimono:
  assumes w: "0 < sint (tm_WindowSec m)"
    and d: "sint (abs_diff a b) \<le> sint (abs_diff a' b')"
    and q: "calculateConfidence m a b = Fin q" "calculateConfidence m a' b' = Fin q'"
  shows "q' \<le> q"
proof -
  let ?w = "i64_rat (tm_WindowSec m)"
  have w1: "1 \<le> ?w" unfolding i64_rat_def by (rule rnd_window_pos[OF w])
  have nz: "tm_WindowSec m \<noteq> 0" using w by auto
  have "i64_rat (abs_diff a b) \<le> i64_rat (abs_diff a' b')"
    using d by (rule i64_rat_mono)
  then have "i64_rat (abs_diff a b) / ?w \<le> i64_rat (abs_diff a' b') / ?w"
    using w1 by (intro divide_right_mono) simp_all
  then have "rnd (1 - rnd (i64_rat (abs_diff a' b') / ?w))
    \<le> rnd (1 - rnd (i64_rat (abs_diff a b) / ?w))" by (intro rnd_mono diff_left_mono)
  then have "base06 * rnd (1 - rnd (i64_rat (abs_diff a' b') / ?w))
    \<le> base06 * rnd (1 - rnd (i64_rat (abs_diff a b) / ?w))"
    using base06_bounds by (intro mult_left_mono) simp_all
  from clamp06_mono[OF rnd_mono[OF this]] q show ?thesis by (simp add: calculateConfidence_Fin[OF nz])
qed

lemma calculateConfidence_same:
  assumes "tm_WindowSec m \<noteq> 0"
  shows "calculateConfidence m a a = lit_06"
  using base06_bounds
  by (simp add: calculateConfidence_Fin[OF assms] abs_diff_def f_const_base06 rnd_base06 clamp06_def)

lemma calculateConfidence_boundary:
  assumes "abs_diff a b = tm_WindowSec m"
  shows "calculateConfidence m a b = f_const 0"
proof (cases "tm_WindowSec m = 0")
  case False
  have "i64_rat (tm_WindowSec m) \<noteq> 0" using rnd_window_nz[OF False] by auto
  with base06_bounds show ?thesis
    by (simp add: calculateConfidence_Fin[OF False] assms f_const_0 clamp06_def)
qed (simp add: calculateConfidence_def)

section \<open>The laws of the interface\<close>

lemma temporal_generateProof_cases:
  "tm_TenantSalt m \<noteq> [] \<Longrightarrow> is_ok (temporal_generateProof m f t k d)"
  "temporal_generateProof m f t k d = Inr p \<Longrightarrow> tm_TenantSalt m \<noteq> [] \<and> length p = 64"
  by (auto simp: temporal_generateProof_def HMACSHA256Hex_def split: if_splits)

lemma temporal_edge_Inr:
  assumes "temporal_edge m u to c kind what = Inr es" and "e \<in> set es"
  shows "le_From e = us_User u" "le_At e = us_At u" "le_To e = to" "le_Kind e = kind"
    "le_Recipe e = ''temporal_proximity/v1''" "le_Confidence e = calculateConfidence m (us_At u) c"
    "tm_TenantSalt m \<noteq> []" "length (le_Proof e) = 64" "Within (us_At u) c (tm_WindowSec m)"
  using assms temporal_generateProof_cases(2) by (auto simp: temporal_edge_def Let_def split: sum.splits if_splits)

lemma temporal_edge_ok: "tm_TenantSalt m \<noteq> [] \<Longrightarrow> is_ok (temporal_edge m u to c kind what)"
  by (auto simp: temporal_edge_def Let_def temporal_generateProof_def HMACSHA256Hex_def is_ok_def
      split: sum.splits)

lemma temporal_Match_Inr:
  assumes "temporal_Match m us ss is = Inr es" and "e \<in> set es"
  obtains u s xs where "u \<in> set us" "s \<in> set ss" "e \<in> set xs"
      "temporal_edge m u (sl_ID s) (sl_CreatedAt s) kind_subscription ''subscription'' = Inr xs"
  | u i xs where "u \<in> set us" "i \<in> set is" "e \<in> set xs"
      "temporal_edge m u (il_ID i) (il_CreatedAt i) kind_invoice ''invoice'' = Inr xs"
proof -
  from assms(1)[unfolded temporal_Match_def] assms(2) obtain u ys where u: "u \<in> set us" and ys: "e \<in> set ys"
    "seqE (appendE (\<lambda>sub. temporal_edge m u (sl_ID sub) (sl_CreatedAt sub) kind_subscription ''subscription'') ss)
       (appendE (\<lambda>i. temporal_edge m u (il_ID i) (il_CreatedAt i) kind_invoice ''invoice'') is) = Inr ys"
    by (blast dest: appendE_InrD)
  from ys(2) obtain as bs where ab: "ys = as @ bs"
    "appendE (\<lambda>sub. temporal_edge m u (sl_ID sub) (sl_CreatedAt sub) kind_subscription ''subscription'') ss = Inr as"
    "appendE (\<lambda>i. temporal_edge m u (il_ID i) (il_CreatedAt i) kind_invoice ''invoice'') is = Inr bs"
    by (auto simp: seqE_Inr_iff)
  from ys(1) ab(1) consider "e \<in> set as" | "e \<in> set bs" by auto
  then show thesis
  proof cases
    case 1 then show ?thesis using that(1)[OF u] appendE_InrD[OF ab(2)] by blast
  next
    case 2 then show ?thesis using that(2)[OF u] appendE_InrD[OF ab(3)] by blast
  qed
qed

lemma temporal_Match_total: "tm_TenantSalt m \<noteq> [] \<Longrightarrow> is_ok (temporal_Match m us ss is)"
  by (simp add: temporal_Match_def appendE_ok temporal_edge_ok)

interpretation temporal: matcher temporal_Name "temporal_Match m" "tm_TenantSalt m \<noteq> []" for m
proof
  fix us ss "is" es e
  show "tm_TenantSalt m \<noteq> [] \<Longrightarrow> is_ok (temporal_Match m us ss is)" by (rule temporal_Match_total)
  assume es: "temporal_Match m us ss is = Inr es" and e: "e \<in> set es"
  show "edge_source_ok us e"
    using es e by (rule temporal_Match_Inr) (auto simp: edge_source_ok_def dest: temporal_edge_Inr(1,2))
  show "edge_target_ok ss is e"
    using es e by (rule temporal_Match_Inr)
      (frule (1) temporal_edge_Inr(3), drule (1) temporal_edge_Inr(4), auto simp: edge_target_ok_def)+
  show "le_Recipe e = temporal_Name @ ''/v1''"
    using es e by (rule temporal_Match_Inr) (auto simp: temporal_Name_def dest: temporal_edge_Inr(5))
  show "unit_interval (le_Confidence e)"
  proof -
    obtain u c where "le_Confidence e = calculateConfidence m u c"
      using es e by (rule temporal_Match_Inr) (auto dest: temporal_edge_Inr(6))
    with calculateConfidence_range[of m u c] base06_bounds show ?thesis by (auto simp: unit_interval_def)
  qed
  show "tm_TenantSalt m \<noteq> [] \<and> length (le_Proof e) = 64"
    using es e by (rule temporal_Match_Inr) (auto dest: temporal_edge_Inr(7,8))
qed (simp_all add: temporal_Name_def)

end
