(* ===== verification/Sku_Overlap.thy ===== *)
theory Sku_Overlap
  imports Matchers
begin

text \<open>
  \<open>internal/matchers/sku_overlap.go\<close>: edges to subscriptions that carry the event's SKU among their
  prices or products, and to the price or product itself. The index holds one entry per occurrence, so
  a subscription that lists a SKU twice produces its edges twice.
\<close>

record SKUOverlapMatcher =
  sku_TenantSalt :: bytes

definition sku_Name :: string where
  "sku_Name = ''sku_overlap''"

definition sku_generateProof ::
  "SKUOverlapMatcher \<Rightarrow> string \<Rightarrow> string \<Rightarrow> string \<Rightarrow> string \<Rightarrow> crypto_error + string" where
  "sku_generateProof m from to kind sku =
     HMACSHA256Hex (sku_TenantSalt m) (join ''|'' [from, to, kind, sku_Name, sku])"

definition sku_edge ::
  "SKUOverlapMatcher \<Rightarrow> UsageEvent \<Rightarrow> string \<Rightarrow> string \<Rightarrow> f64 \<Rightarrow> string \<Rightarrow> match_error + LinkEdge list" where
  "sku_edge m usage to kind confidence nts =
     (case sku_generateProof m (us_User usage) to kind (us_SKU usage) of
        Inl e \<Rightarrow> Inl (ProofFailed e)
      | Inr pr \<Rightarrow> Inr [\<lparr>le_Meta = no_meta, le_From = us_User usage, le_To = to, le_Kind = kind,
          le_Confidence = confidence, le_Proof = pr, le_Recipe = ''sku_overlap/v1'',
          le_At = us_At usage, le_Notes = nts\<rparr>])"

definition sku_matchType :: "UsageEvent \<Rightarrow> SubscriptionLite \<Rightarrow> string" where
  "sku_matchType usage sub =
     (if list_ex (\<lambda>priceID. us_SKU usage = priceID) (sl_PriceIDs sub) then ''price''
      else if list_ex (\<lambda>prodID. us_SKU usage = prodID) (sl_ProductIDs sub) then ''product'' else [])"

definition sku_sub_edges ::
  "SKUOverlapMatcher \<Rightarrow> UsageEvent \<Rightarrow> SubscriptionLite \<Rightarrow> match_error + LinkEdge list" where
  "sku_sub_edges m usage sub =
     (let matchType = sku_matchType usage sub
      in seqE (sku_edge m usage (sl_ID sub) kind_subscription (lit_08)
                 (''SKU matched subscription '' @ matchType))
           (if matchType = ''price''
            then sku_edge m usage (us_SKU usage) kind_price (lit_09) ''exact SKU-price match''
            else if matchType = ''product''
            then sku_edge m usage (us_SKU usage) kind_product (lit_09) ''exact SKU-product match''
            else Inr []))"

definition sku_index :: "SubscriptionLite list \<Rightarrow> (string \<times> SubscriptionLite) list" where
  "sku_index subs = concat (map (\<lambda>sub. map (\<lambda>p. (p, sub)) (sl_PriceIDs sub @ sl_ProductIDs sub)) subs)"

definition sku_Match :: "SKUOverlapMatcher \<Rightarrow> UsageEvent list \<Rightarrow> SubscriptionLite list
    \<Rightarrow> InvoiceLite list \<Rightarrow> match_error + LinkEdge list" where
  "sku_Match m usages subs invs =
     (let skuToSubs = index_all Map.empty (sku_index subs)
      in appendE (\<lambda>usage. case skuToSubs (us_SKU usage) of None \<Rightarrow> Inr []
           | Some matchingSubs \<Rightarrow> appendE (sku_sub_edges m usage) matchingSubs) usages)"

definition sku_matcher :: "SKUOverlapMatcher \<Rightarrow> Matcher" where
  "sku_matcher m = \<lparr>mt_Name = sku_Name, mt_Match = sku_Match m\<rparr>"

section \<open>The index\<close>

lemma sku_index_lookup:
  "map snd (filter (\<lambda>kv. fst kv = k) (sku_index subs))
   = concat (map (\<lambda>s. replicate (count_list (sl_PriceIDs s @ sl_ProductIDs s) k) s) subs)"
proof -
  have one: "map snd (filter (\<lambda>kv. fst kv = k) (map (\<lambda>p. (p, s)) ps)) = replicate (count_list ps k) s"
    for s :: SubscriptionLite and ps
    by (induction ps) simp_all
  show ?thesis
    unfolding sku_index_def by (induction subs) (simp_all add: one replicate_add)
qed

lemma sku_lookup_case:
  "(case index_all Map.empty (sku_index subs) k of None \<Rightarrow> Inr [] | Some ys \<Rightarrow> appendE f ys)
   = appendE f (concat (map (\<lambda>s. replicate (count_list (sl_PriceIDs s @ sl_ProductIDs s) k) s) subs))"
proof -
  have "appendE f (case index_all Map.empty (sku_index subs) k of None \<Rightarrow> [] | Some ys \<Rightarrow> ys)
    = appendE f (map snd (filter (\<lambda>kv. fst kv = k) (sku_index subs)))"
    by (simp add: index_all_empty)
  then show ?thesis
    by (cases "index_all Map.empty (sku_index subs) k") (simp_all add: sku_index_lookup)
qed

text \<open>The reference: every subscription, once per occurrence of the SKU.\<close>

definition sku_Match_ref :: "SKUOverlapMatcher \<Rightarrow> UsageEvent list \<Rightarrow> SubscriptionLite list
    \<Rightarrow> match_error + LinkEdge list" where
  "sku_Match_ref m usages subs =
     appendE (\<lambda>usage. appendE (sku_sub_edges m usage)
       (concat (map (\<lambda>s. replicate (count_list (sl_PriceIDs s @ sl_ProductIDs s) (us_SKU usage)) s) subs)))
       usages"

lemma sku_Match_eq_ref: "sku_Match m us ss is = sku_Match_ref m us ss"
  by (simp add: sku_Match_def sku_Match_ref_def sku_lookup_case)

section \<open>The laws of the interface\<close>

lemma sku_edge_Inr:
  assumes "sku_edge m u to kind c nts = Inr es" and "e \<in> set es"
  shows "le_From e = us_User u" "le_At e = us_At u" "le_To e = to" "le_Kind e = kind"
    "le_Recipe e = ''sku_overlap/v1''" "le_Confidence e = c"
    "sku_TenantSalt m \<noteq> []" "length (le_Proof e) = 64"
  using assms by (auto simp: sku_edge_def sku_generateProof_def HMACSHA256Hex_def split: sum.splits if_splits)

lemma sku_edge_ok: "is_ok (sku_edge m u to kind c nts) \<longleftrightarrow> sku_TenantSalt m \<noteq> []"
  by (auto simp: sku_edge_def sku_generateProof_def HMACSHA256Hex_def is_ok_def split: sum.splits)

lemma sku_matchType_cases:
  "sku_matchType u s = ''price'' \<longleftrightarrow> us_SKU u \<in> set (sl_PriceIDs s)"
  "sku_matchType u s = ''product'' \<longleftrightarrow> us_SKU u \<notin> set (sl_PriceIDs s) \<and> us_SKU u \<in> set (sl_ProductIDs s)"
  by (auto simp: sku_matchType_def list_ex_iff)

lemma sku_sub_edges_Inr:
  assumes "sku_sub_edges m u s = Inr es" and "e \<in> set es"
  obtains to kind c nts xs where "sku_edge m u to kind c nts = Inr xs" "e \<in> set xs"
    "kind = kind_subscription \<and> to = sl_ID s \<and> c = lit_08
     \<or> kind = kind_price \<and> to = us_SKU u \<and> to \<in> set (sl_PriceIDs s) \<and> c = lit_09
     \<or> kind = kind_product \<and> to = us_SKU u \<and> to \<in> set (sl_ProductIDs s) \<and> c = lit_09"
proof -
  from assms consider
      (s) nts xs where "sku_edge m u (sl_ID s) kind_subscription (lit_08) nts = Inr xs" "e \<in> set xs"
    | (p) nts xs where "sku_edge m u (us_SKU u) kind_price (lit_09) nts = Inr xs" "e \<in> set xs"
        "sku_matchType u s = ''price''"
    | (q) nts xs where "sku_edge m u (us_SKU u) kind_product (lit_09) nts = Inr xs" "e \<in> set xs"
        "sku_matchType u s = ''product''"
    unfolding sku_sub_edges_def by (auto simp: Let_def seqE_Inr_iff split: if_splits)
  then show thesis
  proof cases
    case s then show ?thesis using that by blast
  next
    case p then show ?thesis using that[OF p(1,2)] by (simp add: sku_matchType_cases)
  next
    case q then show ?thesis using that[OF q(1,2)] by (simp add: sku_matchType_cases)
  qed
qed

lemma sku_Match_Inr:
  assumes "sku_Match m us ss is = Inr es" and "e \<in> set es"
  obtains u s to kind c nts xs where "u \<in> set us" "s \<in> set ss" "sku_edge m u to kind c nts = Inr xs" "e \<in> set xs"
    "us_SKU u \<in> set (sl_PriceIDs s) \<union> set (sl_ProductIDs s)"
    "kind = kind_subscription \<and> to = sl_ID s \<and> c = lit_08
     \<or> kind = kind_price \<and> to = us_SKU u \<and> to \<in> set (sl_PriceIDs s) \<and> c = lit_09
     \<or> kind = kind_product \<and> to = us_SKU u \<and> to \<in> set (sl_ProductIDs s) \<and> c = lit_09"
proof -
  from assms[unfolded sku_Match_eq_ref sku_Match_ref_def] obtain u ys where u: "u \<in> set us"
    and ys: "appendE (sku_sub_edges m u) (concat (map (\<lambda>s.
       replicate (count_list (sl_PriceIDs s @ sl_ProductIDs s) (us_SKU u)) s) ss)) = Inr ys" "e \<in> set ys"
    by (blast dest: appendE_InrD)
  from appendE_InrD[OF ys] obtain s xs where s: "s \<in> set ss"
    "count_list (sl_PriceIDs s @ sl_ProductIDs s) (us_SKU u) \<noteq> 0"
    and xs: "sku_sub_edges m u s = Inr xs" "e \<in> set xs" by auto
  have k: "us_SKU u \<in> set (sl_PriceIDs s) \<union> set (sl_ProductIDs s)"
    using s(2) by (metis count_list_0_iff set_append)
  from sku_sub_edges_Inr[OF xs] show thesis using that[OF u s(1)] k by metis
qed

lemma sku_Match_total: "sku_TenantSalt m \<noteq> [] \<Longrightarrow> is_ok (sku_Match m us ss is)"
  by (simp add: sku_Match_eq_ref sku_Match_ref_def appendE_ok sku_sub_edges_def Let_def sku_edge_ok)

lemma sku_confidences: "unit_interval (lit_08)" "unit_interval (lit_09)"
  by (simp_all add: lit_values)

interpretation sku: matcher sku_Name "sku_Match m" "sku_TenantSalt m \<noteq> []" for m
proof
  fix us ss "is" es e
  show "sku_TenantSalt m \<noteq> [] \<Longrightarrow> is_ok (sku_Match m us ss is)" by (rule sku_Match_total)
  assume es: "sku_Match m us ss is = Inr es" and e: "e \<in> set es"
  show "edge_source_ok us e"
    using es e by (rule sku_Match_Inr) (auto simp: edge_source_ok_def dest: sku_edge_Inr(1,2))
  show "edge_target_ok ss is e"
    using es e by (rule sku_Match_Inr)
      (frule (1) sku_edge_Inr(3), drule (1) sku_edge_Inr(4), auto simp: edge_target_ok_def)
  show "le_Recipe e = sku_Name @ ''/v1''"
    using es e by (rule sku_Match_Inr) (auto simp: sku_Name_def dest: sku_edge_Inr(5))
  show "unit_interval (le_Confidence e)"
    using es e by (rule sku_Match_Inr) (drule (1) sku_edge_Inr(6), auto simp: sku_confidences)
  show "sku_TenantSalt m \<noteq> [] \<and> length (le_Proof e) = 64"
    using es e by (rule sku_Match_Inr) (auto dest: sku_edge_Inr(7,8))
qed (simp_all add: sku_Name_def)

end
