(* ===== verification/Ensemble.thy ===== *)
theory Ensemble
  imports Deterministic Temporal Sku_Overlap "HOL-Library.AList"
begin

text \<open>
  \<open>internal/matchers/ensemble.go\<close>: running the matchers, grouping their edges by candidate key,
  weighing the evidence and emitting one edge per accepted candidate.

  The code iterates over two Go maps, whose order is unspecified. The orders are an argument
  (\<open>map_order\<close>) of the definitions that iterate; \<open>map_order_ok\<close> says that an iteration visits every
  entry once. Every theorem holds for all such orders.
\<close>

record Ensemble =
  en_Recipe :: Recipe
  en_Matchers :: "Matcher list"
  en_TenantSalt :: bytes

record CandidateKey =
  ck_From :: string
  ck_To :: string
  ck_Kind :: string

record candidateEvidence =
  ce_Key :: CandidateKey
  ce_Edges :: "LinkEdge list"
  ce_CombinedScore :: f64
  ce_BestConfidence :: f64
  ce_Timestamp :: i64
  ce_Proofs :: "string list"
  ce_Notes :: "string list"
  ce_Recipes :: "string list"

record map_order =
  mo_candidates :: "candidateEvidence list \<Rightarrow> candidateEvidence list"
  mo_scores :: "CandidateKey \<Rightarrow> (string \<times> f64) list \<Rightarrow> (string \<times> f64) list"

definition map_order_ok :: "map_order \<Rightarrow> bool" where
  "map_order_ok ord \<longleftrightarrow> (\<forall>cs. mset (mo_candidates ord cs) = mset cs)
     \<and> (\<forall>k ss. mset (mo_scores ord k ss) = mset ss)"

definition insertion_order :: map_order where
  "insertion_order = \<lparr>mo_candidates = (\<lambda>cs. cs), mo_scores = (\<lambda>_ ss. ss)\<rparr>"

lemma insertion_order_ok: "map_order_ok insertion_order"
  by (simp add: map_order_ok_def insertion_order_def)

section \<open>Running the matchers\<close>

datatype ensemble_error = MatcherFailed string match_error

definition Ensemble_Match :: "Ensemble \<Rightarrow> UsageEvent list \<Rightarrow> SubscriptionLite list \<Rightarrow> InvoiceLite list
    \<Rightarrow> ensemble_error + LinkEdge list" where
  "Ensemble_Match e usages subs invs =
     appendE (\<lambda>m. case mt_Match m usages subs invs of
         Inl err \<Rightarrow> Inl (MatcherFailed (mt_Name m) err) | Inr es \<Rightarrow> Inr es) (en_Matchers e)"

section \<open>Grouping\<close>

definition edge_key :: "LinkEdge \<Rightarrow> CandidateKey" where
  "edge_key e = \<lparr>ck_From = le_From e, ck_To = le_To e, ck_Kind = le_Kind e\<rparr>"

definition new_candidate :: "LinkEdge \<Rightarrow> candidateEvidence" where
  "new_candidate e = \<lparr>ce_Key = edge_key e, ce_Edges = [], ce_CombinedScore = f_const 0,
     ce_BestConfidence = f_const 0, ce_Timestamp = le_At e, ce_Proofs = [], ce_Notes = [], ce_Recipes = []\<rparr>"

definition add_evidence :: "LinkEdge \<Rightarrow> candidateEvidence \<Rightarrow> candidateEvidence" where
  "add_evidence e c = c\<lparr>
     ce_Edges := ce_Edges c @ [e],
     ce_Proofs := ce_Proofs c @ [le_Proof e],
     ce_Notes := ce_Notes c @ [le_Notes e],
     ce_Recipes := ce_Recipes c @ [le_Recipe e],
     ce_BestConfidence := (if f_less (ce_BestConfidence c) (le_Confidence e) then le_Confidence e else ce_BestConfidence c),
     ce_Timestamp := (if sint (le_At e) > sint (ce_Timestamp c) then le_At e else ce_Timestamp c)\<rparr>"

definition group_edge ::
  "(CandidateKey \<times> candidateEvidence) list \<Rightarrow> LinkEdge \<Rightarrow> (CandidateKey \<times> candidateEvidence) list" where
  "group_edge candidates e =
     (let key = edge_key e;
          candidate = (case map_of candidates key of None \<Rightarrow> new_candidate e | Some c \<Rightarrow> c)
      in AList.update key (add_evidence e candidate) candidates)"

definition group_edges :: "LinkEdge list \<Rightarrow> (CandidateKey \<times> candidateEvidence) list" where
  "group_edges es = foldl group_edge [] es"

section \<open>Scoring\<close>

definition matcher_name :: "string \<Rightarrow> string" where
  "matcher_name rec = (case index_of CHR ''/'' rec of
     Some i \<Rightarrow> if 0 < i then take i rec else rec | None \<Rightarrow> rec)"

definition weighted_score :: "Recipe \<Rightarrow> LinkEdge \<Rightarrow> f64" where
  "weighted_score r e = f_mul (case rc_Weights r (matcher_name (le_Recipe e)) of
       None \<Rightarrow> f_const 0 | Some w \<Rightarrow> w) (le_Confidence e)"

definition score_edge :: "Recipe \<Rightarrow> (string \<times> f64) list \<Rightarrow> LinkEdge \<Rightarrow> (string \<times> f64) list" where
  "score_edge r scoreByRecipe e =
     (let matcherName = matcher_name (le_Recipe e); weightedScore = weighted_score r e;
          current = (case map_of scoreByRecipe matcherName of None \<Rightarrow> f_const 0 | Some x \<Rightarrow> x)
      in if f_less current weightedScore then AList.update matcherName weightedScore scoreByRecipe
         else scoreByRecipe)"

definition scores_by_recipe :: "Recipe \<Rightarrow> LinkEdge list \<Rightarrow> (string \<times> f64) list" where
  "scores_by_recipe r es = foldl (score_edge r) [] es"

definition f_total :: "f64 list \<Rightarrow> f64" where
  "f_total xs = foldl f_add (f_const 0) xs"

definition calculateWeightedScore ::
  "((string \<times> f64) list \<Rightarrow> (string \<times> f64) list) \<Rightarrow> Ensemble \<Rightarrow> LinkEdge list \<Rightarrow> f64" where
  "calculateWeightedScore iter e es = f_total (map snd (iter (scores_by_recipe (en_Recipe e) es)))"

section \<open>Consolidation\<close>

definition generateCombinedProof :: "Ensemble \<Rightarrow> candidateEvidence \<Rightarrow> crypto_error + string" where
  "generateCombinedProof e c =
     HMACSHA256Hex (en_TenantSalt e) (join ''|'' [ck_From (ce_Key c), ck_To (ce_Key c), ck_Kind (ce_Key c),
        ''ensemble'', join '','' (sort (ce_Proofs c))])"

definition selectBestProof :: "LinkEdge list \<Rightarrow> string" where
  "selectBestProof es = (case es of [] \<Rightarrow> []
     | x # xs \<Rightarrow> le_Proof (foldl (\<lambda>best e. if f_less (le_Confidence best) (le_Confidence e) then e else best) x xs))"

text \<open>The set of distinct non-empty notes is collected in a map and sorted, so its iteration order
  does not matter: the parts are the sorted distinct notes.\<close>

definition consolidateNotes :: "string list \<Rightarrow> f64 \<Rightarrow> string" where
  "consolidateNotes nts combinedScore =
     (if nts = [] then ''ensemble match (score='' @ fmt_2f combinedScore @ '')''
      else let parts = sort (remdups (filter (\<lambda>n. n \<noteq> []) nts));
               result = join ''; '' parts @ '' (score='' @ fmt_2f combinedScore @ '')''
           in if 200 < length result then take 197 result @ ''...'' else result)"

definition consolidated :: "Ensemble \<Rightarrow> f64 \<Rightarrow> candidateEvidence \<Rightarrow> LinkEdge" where
  "consolidated e combinedScore c =
     \<lparr>le_Meta = no_meta, le_From = ck_From (ce_Key c), le_To = ck_To (ce_Key c), le_Kind = ck_Kind (ce_Key c),
      le_Confidence = (if f_less (f_const 1) combinedScore then f_const 1 else combinedScore),
      le_Proof = (case generateCombinedProof e c of Inl _ \<Rightarrow> selectBestProof (ce_Edges c) | Inr p \<Rightarrow> p),
      le_Recipe = rc_Name (en_Recipe e) @ ''/'' @ rc_Version (en_Recipe e),
      le_At = ce_Timestamp c,
      le_Notes = consolidateNotes (ce_Notes c) combinedScore\<rparr>"

definition candidate_score :: "map_order \<Rightarrow> Ensemble \<Rightarrow> candidateEvidence \<Rightarrow> f64" where
  "candidate_score ord e c = calculateWeightedScore (mo_scores ord (ce_Key c)) e (ce_Edges c)"

definition accept_candidate :: "map_order \<Rightarrow> Ensemble \<Rightarrow> candidateEvidence \<Rightarrow> LinkEdge list" where
  "accept_candidate ord e c =
     (let combinedScore = candidate_score ord e c
      in if f_less combinedScore (rc_Threshold (en_Recipe e)) then [] else [consolidated e combinedScore c])"

definition edge_before :: "LinkEdge \<Rightarrow> LinkEdge \<Rightarrow> bool" where
  "edge_before a b = (if \<not> f_eq (le_Confidence a) (le_Confidence b)
     then f_less (le_Confidence b) (le_Confidence a) else le_From a < le_From b)"

definition Combine :: "map_order \<Rightarrow> Ensemble \<Rightarrow> LinkEdge list \<Rightarrow> LinkEdge list" where
  "Combine ord e allEdges =
     (if allEdges = [] then []
      else go_sort edge_before
        (concat (map (accept_candidate ord e) (mo_candidates ord (map snd (group_edges allEdges))))))"

definition RunEnsemble :: "map_order \<Rightarrow> Ensemble \<Rightarrow> UsageEvent list \<Rightarrow> SubscriptionLite list
    \<Rightarrow> InvoiceLite list \<Rightarrow> ensemble_error + LinkEdge list" where
  "RunEnsemble ord e usages subs invs =
     (case Ensemble_Match e usages subs invs of Inl err \<Rightarrow> Inl err | Inr es \<Rightarrow> Inr (Combine ord e es))"

section \<open>The groups\<close>

lemma add_evidence_simps [simp]:
  "ce_Key (add_evidence e c) = ce_Key c" "ce_Edges (add_evidence e c) = ce_Edges c @ [e]"
  "ce_Proofs (add_evidence e c) = ce_Proofs c @ [le_Proof e]"
  "ce_Notes (add_evidence e c) = ce_Notes c @ [le_Notes e]"
  "ce_Recipes (add_evidence e c) = ce_Recipes c @ [le_Recipe e]"
  "sint (ce_Timestamp (add_evidence e c)) = max (sint (ce_Timestamp c)) (sint (le_At e))"
  by (simp_all add: add_evidence_def)

lemma new_candidate_simps [simp]:
  "ce_Key (new_candidate e) = edge_key e" "ce_Edges (new_candidate e) = []" "ce_Proofs (new_candidate e) = []"
  "ce_Notes (new_candidate e) = []" "ce_Recipes (new_candidate e) = []" "ce_Timestamp (new_candidate e) = le_At e"
  by (simp_all add: new_candidate_def)

text \<open>What a group holds after the edges \<open>es\<close>.\<close>

definition group_ok :: "LinkEdge list \<Rightarrow> CandidateKey \<Rightarrow> candidateEvidence \<Rightarrow> bool" where
  "group_ok es k c \<longleftrightarrow>
     (let gs = filter (\<lambda>e. edge_key e = k) es
      in gs \<noteq> [] \<and> ce_Key c = k \<and> ce_Edges c = gs \<and> ce_Proofs c = map le_Proof gs
         \<and> ce_Notes c = map le_Notes gs \<and> ce_Recipes c = map le_Recipe gs
         \<and> sint (ce_Timestamp c) = Max ((\<lambda>e. sint (le_At e)) ` set gs))"

lemma group_ok_new: "filter (\<lambda>x. edge_key x = edge_key e) es = [] \<Longrightarrow>
    group_ok (es @ [e]) (edge_key e) (add_evidence e (new_candidate e))"
  by (simp add: group_ok_def)

lemma group_ok_add:
  assumes "group_ok es (edge_key e) c"
  shows "group_ok (es @ [e]) (edge_key e) (add_evidence e c)"
proof -
  let ?A = "(\<lambda>x. sint (le_At x)) ` set (filter (\<lambda>x. edge_key x = edge_key e) es)"
  from assms have "?A \<noteq> {}" by (simp add: group_ok_def Let_def filter_empty_conv) blast
  then have "Max (insert (sint (le_At e)) ?A) = max (sint (le_At e)) (Max ?A)" by (intro Max_insert) simp_all
  with assms show ?thesis by (simp add: group_ok_def Let_def max.commute)
qed

lemma group_ok_other: "k \<noteq> edge_key e \<Longrightarrow> group_ok (es @ [e]) k c \<longleftrightarrow> group_ok es k c"
  by (simp add: group_ok_def)

lemma group_edges_snoc: "group_edges (es @ [e]) = group_edge (group_edges es) e"
  by (simp add: group_edges_def)

lemma group_edges_distinct: "distinct (map fst (group_edges es))"
proof (induction es rule: rev_induct)
  case (snoc e es)
  then show ?case by (simp add: group_edges_snoc group_edge_def Let_def distinct_update)
qed (simp add: group_edges_def)

lemma group_edges_lookup:
  "(case map_of (group_edges es) k of None \<Rightarrow> filter (\<lambda>e. edge_key e = k) es = [] | Some c \<Rightarrow> group_ok es k c)"
proof (induction es arbitrary: k rule: rev_induct)
  case (snoc e es)
  show ?case
  proof (cases "k = edge_key e")
    case True
    show ?thesis
    proof (cases "map_of (group_edges es) (edge_key e)")
      case None
      with snoc[of "edge_key e"] have "filter (\<lambda>x. edge_key x = edge_key e) es = []" by simp
      from group_ok_new[OF this] None True show ?thesis
        by (simp add: group_edges_snoc group_edge_def update_conv)
    next
      case (Some c)
      with snoc[of "edge_key e"] have "group_ok es (edge_key e) c" by simp
      from group_ok_add[OF this] Some True show ?thesis
        by (simp add: group_edges_snoc group_edge_def update_conv)
    qed
  next
    case False
    with snoc[of k] show ?thesis
      by (auto simp: group_edges_snoc group_edge_def Let_def update_conv group_ok_other split: option.splits)
  qed
qed (simp add: group_edges_def)

lemma group_edges_dom: "fst ` set (group_edges es) = edge_key ` set es"
proof (induction es rule: rev_induct)
  case (snoc e es)
  then show ?case by (auto simp: group_edges_snoc group_edge_def Let_def dom_update)
qed (simp add: group_edges_def)

lemma group_edges_mem: "(k, c) \<in> set (group_edges es) \<Longrightarrow> group_ok es k c"
  using group_edges_lookup[of k es] group_edges_distinct[of es] by (simp add: map_of_is_SomeI)

lemma group_edges_keys: "map (\<lambda>c. ce_Key c) (map snd (group_edges es)) = map fst (group_edges es)"
proof -
  have "ce_Key (snd kc) = fst kc" if "kc \<in> set (group_edges es)" for kc
    using group_edges_mem[of "fst kc" "snd kc" es] that by (simp add: group_ok_def Let_def)
  then show ?thesis by simp
qed

section \<open>The score\<close>

definition f_nonneg :: "f64 \<Rightarrow> bool" where
  "f_nonneg x \<longleftrightarrow> x = PInf \<or> (\<exists>q\<ge>0. x = Fin q)"

text \<open>At least an exactly representable bound.\<close>

definition f_atleast :: "rat \<Rightarrow> f64 \<Rightarrow> bool" where
  "f_atleast c x \<longleftrightarrow> x = PInf \<or> (\<exists>q\<ge>c. x = Fin q)"

lemma f_nonneg_atleast: "f_nonneg x \<longleftrightarrow> f_atleast 0 x"
  by (simp add: f_nonneg_def f_atleast_def)

lemma f_less_0_nonneg: "f_less (Fin 0) x \<Longrightarrow> f_nonneg x"
  by (cases x) (auto simp: f_nonneg_def)

lemma to_f64_atleast:
  assumes "c \<le> q" "rnd c = c" "0 \<le> c" shows "f_atleast c (to_f64 q)"
proof -
  have "c \<le> rnd q" using rnd_mono[OF assms(1)] assms(2) by simp
  moreover have "0 \<le> f_max" using f_max_big by (rule order_trans[rotated]) simp
  ultimately show ?thesis using assms(3) by (auto simp: to_f64_def Let_def f_atleast_def)
qed

lemma f_add_atleast:
  assumes "f_atleast c x" "f_nonneg y" "rnd c = c" "0 \<le> c"
  shows "f_atleast c (f_add x y)" "f_atleast c (f_add y x)"
proof -
  show "f_atleast c (f_add x y)"
  proof (cases "\<exists>p q. x = Fin p \<and> y = Fin q")
    case True
    with assms show ?thesis by (auto simp: f_atleast_def[of c "Fin _"] f_nonneg_def intro!: to_f64_atleast)
  next
    case False
    with assms show ?thesis by (auto simp: f_atleast_def f_nonneg_def)
  qed
  then show "f_atleast c (f_add y x)" by (simp add: f_add_comm)
qed

lemma f_total_foldl:
  assumes "\<forall>x\<in>set xs. f_nonneg x" "f_atleast c t" "rnd c = c" "0 \<le> c"
  shows "f_atleast c (foldl f_add t xs)"
  using assms by (induction xs arbitrary: t) (simp_all add: f_add_atleast)

lemma f_total_nonneg: "\<forall>x\<in>set xs. f_nonneg x \<Longrightarrow> f_nonneg (f_total xs)"
  unfolding f_total_def f_nonneg_atleast
  by (rule f_total_foldl) (simp_all add: f_nonneg_atleast, simp add: f_atleast_def f_const_0)

lemma f_total_ge:
  assumes "\<forall>x\<in>set xs. f_nonneg x" "x \<in> set xs" "f_atleast c x" "rnd c = c" "0 \<le> c"
  shows "f_atleast c (f_total xs)"
proof -
  from assms(2) obtain as bs where xs: "xs = as @ x # bs" by (meson split_list)
  have "f_nonneg (f_total as)" by (rule f_total_nonneg) (use assms(1) xs in simp)
  then have "f_atleast c (f_add (f_total as) x)" by (intro f_add_atleast) (use assms in simp_all)
  then show ?thesis
    using assms(1) xs assms(4,5) by (simp add: f_total_def) (rule f_total_foldl, simp_all)
qed

lemma score_edge_distinct: "distinct (map fst (scores_by_recipe r es))"
proof (induction es rule: rev_induct)
  case (snoc e es)
  then show ?case
    by (simp add: scores_by_recipe_def) (simp add: score_edge_def Let_def distinct_update)
qed (simp add: scores_by_recipe_def)

lemma scores_snoc: "scores_by_recipe r (es @ [e]) = score_edge r (scores_by_recipe r es) e"
  by (simp add: scores_by_recipe_def)

text \<open>Per matcher the best positive weighted score counts, and only if there is one.\<close>

definition scores_spec :: "Recipe \<Rightarrow> LinkEdge list \<Rightarrow> string \<Rightarrow> f64 option \<Rightarrow> bool" where
  "scores_spec r es n s \<longleftrightarrow>
     (let cands = filter (\<lambda>e. matcher_name (le_Recipe e) = n) es
      in case s of None \<Rightarrow> (\<forall>e\<in>set cands. \<not> f_less (Fin 0) (weighted_score r e))
         | Some x \<Rightarrow> (\<exists>e\<in>set cands. x = weighted_score r e) \<and> f_less (Fin 0) x
             \<and> (\<forall>e\<in>set cands. \<not> f_less x (weighted_score r e)))"

lemma f_less_le_trans: "f_less x y \<Longrightarrow> \<not> f_less x z \<Longrightarrow> \<not> f_less y z"
  by (cases x; cases y; cases z) auto

lemma scores_lookup: "scores_spec r es n (map_of (scores_by_recipe r es) n)"
proof (induction es arbitrary: n rule: rev_induct)
  case Nil
  show ?case by (simp add: scores_spec_def scores_by_recipe_def)
next
  case (snoc e es)
  let ?n = "matcher_name (le_Recipe e)" and ?w = "weighted_score r e"
  show ?case
  proof (cases "n = ?n")
    case False
    with snoc[of n] show ?thesis
      by (simp add: scores_snoc score_edge_def Let_def update_conv scores_spec_def)
  next
    case True
    show ?thesis
    proof (cases "map_of (scores_by_recipe r es) ?n")
      case None
      with snoc[of ?n] True show ?thesis
        by (auto simp: scores_snoc score_edge_def Let_def update_conv scores_spec_def f_const_0
            dest: f_less_trans)
    next
      case (Some x)
      with snoc[of ?n] True show ?thesis
        by (auto simp: scores_snoc score_edge_def Let_def update_conv scores_spec_def
            dest: f_less_trans f_less_le_trans)
    qed
  qed
qed

lemma scores_mem: "(n, x) \<in> set (scores_by_recipe r es) \<Longrightarrow> scores_spec r es n (Some x)"
  using scores_lookup[of r es n] score_edge_distinct[of r es] by (simp add: map_of_is_SomeI)

lemma scores_nonneg: "(n, x) \<in> set (scores_by_recipe r es) \<Longrightarrow> f_nonneg x"
  by (drule scores_mem) (auto simp: scores_spec_def Let_def intro: f_less_0_nonneg)

lemma iter_set: "map_order_ok ord \<Longrightarrow> set (mo_scores ord k ss) = set ss"
    "map_order_ok ord \<Longrightarrow> set (mo_candidates ord cs) = set cs"
  by (metis map_order_ok_def set_mset_mset)+

lemma score_nonneg:
  assumes "map_order_ok ord"
  shows "f_nonneg (calculateWeightedScore (mo_scores ord k) e es)"
  unfolding calculateWeightedScore_def
  by (rule f_total_nonneg) (auto simp: iter_set[OF assms] dest: scores_nonneg)

text \<open>A matcher whose best weighted score is at least \<open>c\<close> lifts the combined score to at least \<open>c\<close>.\<close>

lemma score_ge:
  assumes ord: "map_order_ok ord" and g: "g \<in> set es" and c: "f_atleast c (weighted_score (en_Recipe e) g)"
    and pos: "0 < c" and r: "rnd c = c"
  shows "f_atleast c (calculateWeightedScore (mo_scores ord k) e es)"
proof -
  let ?r = "en_Recipe e" and ?n = "matcher_name (le_Recipe g)"
  have gpos: "f_less (Fin 0) (weighted_score ?r g)" using c pos by (auto simp: f_atleast_def)
  then obtain x where x: "map_of (scores_by_recipe ?r es) ?n = Some x"
    using scores_lookup[of ?r es ?n] g by (cases "map_of (scores_by_recipe ?r es) ?n") (auto simp: scores_spec_def)
  with scores_lookup[of ?r es ?n] g have "\<not> f_less x (weighted_score ?r g)" "f_less (Fin 0) x"
    by (auto simp: scores_spec_def)
  with c have "f_atleast c x"
    by (cases x; cases "weighted_score ?r g") (auto simp: f_atleast_def)
  moreover from map_of_SomeD[OF x] have "x \<in> set (map snd (mo_scores ord k (scores_by_recipe ?r es)))"
    by (force simp: iter_set[OF ord])
  ultimately show ?thesis unfolding calculateWeightedScore_def using pos r
    by (intro f_total_ge) (auto simp: iter_set[OF ord] dest: scores_nonneg)
qed

text \<open>Evidence from a single matcher: the combined score is that matcher's best weighted score.\<close>

lemma score_single:
  assumes ord: "map_order_ok ord" and all: "\<forall>g\<in>set es. matcher_name (le_Recipe g) = n"
  shows "(\<exists>g\<in>set es. calculateWeightedScore (mo_scores ord k) e es = f_add (Fin 0) (weighted_score (en_Recipe e) g))
    \<or> calculateWeightedScore (mo_scores ord k) e es = Fin 0"
proof -
  let ?ss = "scores_by_recipe (en_Recipe e) es"
  have names: "fst ` set ?ss \<subseteq> {n}"
    using all by (force dest: scores_mem simp: scores_spec_def)
  have "length ?ss \<le> 1"
    using distinct_card[OF score_edge_distinct[of "en_Recipe e" es]] card_mono[OF _ names] by simp
  then consider "?ss = []" | m x where "?ss = [(m, x)]" by (cases ?ss rule: list.exhaust) (auto simp: length_Suc_conv)
  then show ?thesis
  proof cases
    case 1
    then have "mo_scores ord k ?ss = []" using ord by (metis map_order_ok_def mset_zero_iff_right)
    then show ?thesis by (simp add: calculateWeightedScore_def f_total_def f_const_0)
  next
    case 2
    then have "mset (mo_scores ord k ?ss) = {#(m, x)#}" using ord by (simp add: map_order_ok_def)
    then have "mo_scores ord k ?ss = [(m, x)]" by simp
    moreover from 2 have "\<exists>g\<in>set es. x = weighted_score (en_Recipe e) g"
      using scores_mem[of m x "en_Recipe e" es] by (auto simp: scores_spec_def)
    ultimately show ?thesis by (auto simp: calculateWeightedScore_def f_total_def f_const_0)
  qed
qed

section \<open>The output of \<open>Combine\<close>\<close>

definition evidence_for :: "LinkEdge list \<Rightarrow> CandidateKey \<Rightarrow> LinkEdge list" where
  "evidence_for es k = filter (\<lambda>e. edge_key e = k) es"

definition score_for :: "map_order \<Rightarrow> Ensemble \<Rightarrow> LinkEdge list \<Rightarrow> CandidateKey \<Rightarrow> f64" where
  "score_for ord e es k = calculateWeightedScore (mo_scores ord k) e (evidence_for es k)"

lemma group_score: "group_ok es k c \<Longrightarrow> candidate_score ord e c = score_for ord e es k"
  by (simp add: candidate_score_def score_for_def evidence_for_def group_ok_def Let_def)

lemma bex_snd_iff: "(\<exists>kc\<in>A. P (snd kc)) \<longleftrightarrow> (\<exists>k c. (k, c) \<in> A \<and> P c)"
  by force

lemma fst_image_filter: "{k. \<exists>c. (k, c) \<in> A \<and> P k} = {k \<in> fst ` A. P k}"
  by force

lemma Combine_mem:
  assumes "map_order_ok ord"
  shows "x \<in> set (Combine ord e es) \<longleftrightarrow> (\<exists>k c. (k, c) \<in> set (group_edges es)
     \<and> \<not> f_less (score_for ord e es k) (rc_Threshold (en_Recipe e))
     \<and> x = consolidated e (score_for ord e es k) c)"
proof (cases "es = []")
  case True
  then show ?thesis by (simp add: Combine_def group_edges_def)
next
  case False
  then have "x \<in> set (Combine ord e es) \<longleftrightarrow> (\<exists>kc\<in>set (group_edges es). x \<in> set (accept_candidate ord e (snd kc)))"
    by (simp add: Combine_def iter_set[OF assms])
  also have "\<dots> \<longleftrightarrow> (\<exists>k c. (k, c) \<in> set (group_edges es) \<and> x \<in> set (accept_candidate ord e c))"
    by (rule bex_snd_iff)
  also have "\<dots> \<longleftrightarrow> (\<exists>k c. (k, c) \<in> set (group_edges es)
     \<and> \<not> f_less (score_for ord e es k) (rc_Threshold (en_Recipe e))
     \<and> x = consolidated e (score_for ord e es k) c)"
  proof -
    have "(k, c) \<in> set (group_edges es) \<and> x \<in> set (accept_candidate ord e c) \<longleftrightarrow> (k, c) \<in> set (group_edges es)
      \<and> \<not> f_less (score_for ord e es k) (rc_Threshold (en_Recipe e)) \<and> x = consolidated e (score_for ord e es k) c" for k c
      using group_score[OF group_edges_mem[of k c es], of ord e] by (simp add: accept_candidate_def Let_def cong: conj_cong)
    then show ?thesis by (simp only:)
  qed
  finally show ?thesis .
qed

lemma consolidated_simps [simp]:
  "le_From (consolidated e s c) = ck_From (ce_Key c)" "le_To (consolidated e s c) = ck_To (ce_Key c)"
  "le_Kind (consolidated e s c) = ck_Kind (ce_Key c)" "le_At (consolidated e s c) = ce_Timestamp c"
  "le_Meta (consolidated e s c) = no_meta" "edge_key (consolidated e s c) = ce_Key c"
  "le_Confidence (consolidated e s c) = (if f_less (f_const 1) s then f_const 1 else s)"
  "le_Recipe (consolidated e s c) = rc_Name (en_Recipe e) @ ''/'' @ rc_Version (en_Recipe e)"
  by (simp_all add: consolidated_def edge_key_def)

text \<open>What the proof and the notes of an accepted edge are: \<open>proof_of_evidence\<close> and \<open>notes_of_evidence\<close> describe
  them by the evidence alone, without the accumulators of the grouping.\<close>

definition proof_of_evidence :: "bytes \<Rightarrow> CandidateKey \<Rightarrow> LinkEdge list \<Rightarrow> string \<Rightarrow> bool" where
  "proof_of_evidence salt k gs p \<longleftrightarrow>
     (if salt \<noteq> [] then \<exists>ps. sorted ps \<and> mset ps = image_mset le_Proof (mset gs)
         \<and> p = hex_encode (hmac_sha256 salt
             (ck_From k @ ''|'' @ ck_To k @ ''|'' @ ck_Kind k @ ''|ensemble|'' @ join '','' ps))
      else \<exists>g\<in>set gs. p = le_Proof g \<and> (\<forall>h\<in>set gs. \<not> f_less (le_Confidence g) (le_Confidence h)))"

definition notes_of_evidence :: "LinkEdge list \<Rightarrow> f64 \<Rightarrow> string \<Rightarrow> bool" where
  "notes_of_evidence gs score n \<longleftrightarrow>
     (\<exists>parts full. sorted parts \<and> distinct parts \<and> set parts = le_Notes ` set gs - {[]}
        \<and> full = join ''; '' parts @ '' (score='' @ fmt_2f score @ '')''
        \<and> n = (if length full \<le> 200 then full else take 197 full @ ''...''))"

lemma best_edge:
  "b = foldl (\<lambda>best e. if f_less (le_Confidence best) (le_Confidence e) then e else best) x xs \<Longrightarrow>
    b \<in> set (x # xs) \<and> (\<forall>h\<in>set (x # xs). \<not> f_less (le_Confidence b) (le_Confidence h))"
proof (induction xs arbitrary: b rule: rev_induct)
  case Nil
  then show ?case by (cases "le_Confidence x") simp_all
next
  case (snoc y ys)
  let ?c = "foldl (\<lambda>best e. if f_less (le_Confidence best) (le_Confidence e) then e else best) x ys"
  note c = snoc.IH[OF refl]
  have "\<not> f_less (le_Confidence y) (le_Confidence y)" by (cases "le_Confidence y") simp_all
  with snoc.prems c f_less_le_trans[of "le_Confidence ?c" "le_Confidence y"] show ?case by auto
qed

lemma selectBestProof_best:
  "gs \<noteq> [] \<Longrightarrow> \<exists>g\<in>set gs. selectBestProof gs = le_Proof g
     \<and> (\<forall>h\<in>set gs. \<not> f_less (le_Confidence g) (le_Confidence h))"
proof (cases gs)
  case (Cons x xs)
  show ?thesis unfolding Cons selectBestProof_def list.case
    by (rule bexI[of _ "foldl (\<lambda>best e. if f_less (le_Confidence best) (le_Confidence e) then e else best) x xs"])
      (use best_edge[OF refl, of x xs] in blast)+
qed simp

lemma generateCombinedProof_hmac:
  assumes "en_TenantSalt e \<noteq> []"
  shows "generateCombinedProof e c = Inr (hex_encode (hmac_sha256 (en_TenantSalt e)
    (ck_From (ce_Key c) @ ''|'' @ ck_To (ce_Key c) @ ''|'' @ ck_Kind (ce_Key c) @ ''|ensemble|'' @ join '','' (sort (ce_Proofs c)))))"
  using assms by (simp add: generateCombinedProof_def HMACSHA256Hex_Inr)

lemma consolidated_proof:
  assumes "group_ok es k c"
  shows "proof_of_evidence (en_TenantSalt e) k (evidence_for es k) (le_Proof (consolidated e s c))"
proof (cases "en_TenantSalt e = []")
  case True
  then have "le_Proof (consolidated e s c) = selectBestProof (ce_Edges c)"
    by (simp add: consolidated_def generateCombinedProof_def HMACSHA256Hex_def)
  moreover have "ce_Edges c = evidence_for es k" "evidence_for es k \<noteq> []"
    using assms by (simp_all add: group_ok_def evidence_for_def Let_def)
  ultimately show ?thesis using True selectBestProof_best[of "evidence_for es k"] by (simp add: proof_of_evidence_def)
next
  case False
  have "mset (sort (ce_Proofs c)) = image_mset le_Proof (mset (evidence_for es k))"
    using assms by (simp add: group_ok_def evidence_for_def Let_def)
  moreover have "ce_Key c = k" using assms by (simp add: group_ok_def Let_def)
  ultimately show ?thesis using False unfolding proof_of_evidence_def
    by (intro iffD2[OF if_P] exI[of _ "sort (ce_Proofs c)"]) (simp_all add: consolidated_def generateCombinedProof_hmac)
qed

lemma proof_of_evidence_length:
  "salt \<noteq> [] \<Longrightarrow> proof_of_evidence salt k gs p \<Longrightarrow> length p = 64"
  by (auto simp: proof_of_evidence_def)

lemma consolidated_notes:
  assumes "group_ok es k c"
  shows "notes_of_evidence (evidence_for es k) s (le_Notes (consolidated e s c))"
proof -
  let ?ns = "map le_Notes (evidence_for es k)" and ?parts = "sort (remdups (filter (\<lambda>n. n \<noteq> []) (map le_Notes (evidence_for es k))))"
  have n: "ce_Notes c = ?ns" "?ns \<noteq> []" using assms by (simp_all add: group_ok_def Let_def evidence_for_def)
  have "set ?parts = le_Notes ` set (evidence_for es k) - {[]}" by auto
  with n show ?thesis unfolding notes_of_evidence_def
    by (intro exI[of _ ?parts] exI[of _ "join ''; '' ?parts @ '' (score='' @ fmt_2f s @ '')''"])
      (simp add: consolidated_def consolidateNotes_def Let_def not_less)
qed

lemma consolidateNotes_length: "nts \<noteq> [] \<Longrightarrow> length (consolidateNotes nts s) \<le> 200"
proof -
  have cut: "length (if 200 < length r then take 197 r @ ''...'' else r) \<le> 200" for r :: string by simp
  show "nts \<noteq> [] \<Longrightarrow> ?thesis" unfolding consolidateNotes_def Let_def using cut by presburger
qed

lemma Combine_keys:
  assumes "map_order_ok ord"
  shows "edge_key ` set (Combine ord e es)
     = {k \<in> edge_key ` set es. \<not> f_less (score_for ord e es k) (rc_Threshold (en_Recipe e))}"
proof -
  have key: "ce_Key c = k" if "(k, c) \<in> set (group_edges es)" for k c
    using group_edges_mem[OF that] by (simp add: group_ok_def Let_def)
  let ?acc = "\<lambda>k. \<not> f_less (score_for ord e es k) (rc_Threshold (en_Recipe e))"
  have "k \<in> edge_key ` set (Combine ord e es) \<longleftrightarrow> (\<exists>c. (k, c) \<in> set (group_edges es) \<and> ?acc k)" for k
  proof
    assume "k \<in> edge_key ` set (Combine ord e es)"
    then obtain x where x: "x \<in> set (Combine ord e es)" "k = edge_key x" by blast
    from x(1)[unfolded Combine_mem[OF assms]] obtain k' c where "(k', c) \<in> set (group_edges es)" "?acc k'"
      "x = consolidated e (score_for ord e es k') c" by blast
    with x(2) key[of k' c] show "\<exists>c. (k, c) \<in> set (group_edges es) \<and> ?acc k" by (simp only: consolidated_simps) blast
  next
    assume "\<exists>c. (k, c) \<in> set (group_edges es) \<and> ?acc k"
    then obtain c where c: "(k, c) \<in> set (group_edges es)" "?acc k" by blast
    then have "consolidated e (score_for ord e es k) c \<in> set (Combine ord e es)"
      unfolding Combine_mem[OF assms] by blast
    from imageI[OF this, of edge_key] key[OF c(1)] show "k \<in> edge_key ` set (Combine ord e es)" by simp
  qed
  then have "edge_key ` set (Combine ord e es) = {k. \<exists>c. (k, c) \<in> set (group_edges es) \<and> ?acc k}" by blast
  then show ?thesis by (simp only: fst_image_filter group_edges_dom)
qed

lemma accept_keys:
  "map edge_key (concat (map (accept_candidate ord e) cs))
   = map ce_Key (filter (\<lambda>c. \<not> f_less (candidate_score ord e c) (rc_Threshold (en_Recipe e))) cs)"
  by (induction cs) (simp_all add: accept_candidate_def Let_def)

lemma distinct_mset_eq: "mset xs = mset ys \<Longrightarrow> distinct xs = distinct ys"
  by (metis distinct_count_atmost_1 mset_eq_setD)

lemma Combine_distinct:
  assumes "map_order_ok ord"
  shows "distinct (map edge_key (Combine ord e es))"
proof (cases "es = []")
  case False
  let ?cs = "mo_candidates ord (map snd (group_edges es))"
  have "mset (map ce_Key ?cs) = mset (map ce_Key (map snd (group_edges es)))"
    using assms by (simp only: map_order_ok_def mset_map)
  moreover have "distinct (map ce_Key (map snd (group_edges es)))"
    unfolding group_edges_keys by (rule group_edges_distinct)
  ultimately have "distinct (map ce_Key ?cs)" using distinct_mset_eq by blast
  then have "distinct (map edge_key (concat (map (accept_candidate ord e) ?cs)))"
    unfolding accept_keys by (rule distinct_map_filter)
  moreover have "mset (map edge_key (Combine ord e es))
     = mset (map edge_key (concat (map (accept_candidate ord e) ?cs)))"
    using False by (simp add: Combine_def)
  ultimately show ?thesis using distinct_mset_eq by blast
qed (simp add: Combine_def)

lemma Combine_confidence:
  assumes "map_order_ok ord" and "x \<in> set (Combine ord e es)"
  shows "\<exists>q. le_Confidence x = Fin q \<and> 0 \<le> q \<and> q \<le> 1"
proof -
  from assms(2)[unfolded Combine_mem[OF assms(1)]] obtain k c where "x = consolidated e (score_for ord e es k) c"
    by blast
  then obtain s where "f_nonneg s" and x: "le_Confidence x = (if f_less (f_const 1) s then f_const 1 else s)"
    using score_nonneg[OF assms(1)] unfolding score_for_def by (metis consolidated_simps(7))
  then show ?thesis by (cases s) (auto simp: f_nonneg_def f_const_1)
qed

lemma edge_before_order:
  assumes "\<exists>q. le_Confidence a = Fin q" "\<exists>q. le_Confidence b = Fin q" "\<exists>q. le_Confidence c = Fin q"
  shows "edge_before a b \<Longrightarrow> \<not> edge_before b a"
    and "\<not> edge_before b a \<Longrightarrow> \<not> edge_before c b \<Longrightarrow> \<not> edge_before c a"
  using assms by (auto simp: edge_before_def split: if_splits)

lemma Combine_sorted:
  assumes "map_order_ok ord"
  shows "sorted_wrt (\<lambda>a b. \<not> edge_before b a) (Combine ord e es)"
proof (cases "es = []")
  case False
  let ?xs = "concat (map (accept_candidate ord e) (mo_candidates ord (map snd (group_edges es))))"
  have s: "set ?xs = set (Combine ord e es)" using False by (simp add: Combine_def)
  have fin: "\<exists>q. le_Confidence x = Fin q" if "x \<in> set ?xs" for x
    using Combine_confidence[OF assms] that unfolding s by blast
  have "sorted_wrt (\<lambda>a b. \<not> edge_before b a) (go_sort edge_before ?xs)"
    by (rule go_sort_sorted) (metis edge_before_order(1) fin, metis edge_before_order(2) fin)
  then show ?thesis using False by (simp add: Combine_def)
qed (simp add: Combine_def)

lemma Combine_evidence:
  assumes "map_order_ok ord" and "x \<in> set (Combine ord e es)"
  shows "sint (le_At x) = Max ((\<lambda>g. sint (le_At g)) ` set (evidence_for es (edge_key x)))"
    and "evidence_for es (edge_key x) \<noteq> []"
    and "le_Notes x = consolidateNotes (map le_Notes (evidence_for es (edge_key x))) (score_for ord e es (edge_key x))"
    and "\<not> f_less (score_for ord e es (edge_key x)) (rc_Threshold (en_Recipe e))"
    and "le_Confidence x = (if f_less (f_const 1) (score_for ord e es (edge_key x)) then f_const 1
           else score_for ord e es (edge_key x))"
    and "proof_of_evidence (en_TenantSalt e) (edge_key x) (evidence_for es (edge_key x)) (le_Proof x)"
    and "notes_of_evidence (evidence_for es (edge_key x)) (score_for ord e es (edge_key x)) (le_Notes x)"
proof -
  from assms(2)[unfolded Combine_mem[OF assms(1)]] obtain k c where kc: "(k, c) \<in> set (group_edges es)"
    and thr: "\<not> f_less (score_for ord e es k) (rc_Threshold (en_Recipe e))"
    and x: "x = consolidated e (score_for ord e es k) c" by blast
  note g = group_edges_mem[OF kc, unfolded group_ok_def Let_def]
  then have k: "edge_key x = k" by (simp add: x)
  show "sint (le_At x) = Max ((\<lambda>g. sint (le_At g)) ` set (evidence_for es (edge_key x)))"
    unfolding k evidence_for_def using g by (simp add: x)
  show "evidence_for es (edge_key x) \<noteq> []" unfolding k evidence_for_def using g by simp
  show "le_Notes x = consolidateNotes (map le_Notes (evidence_for es (edge_key x))) (score_for ord e es (edge_key x))"
    unfolding k evidence_for_def using g by (simp add: x consolidated_def)
  show "\<not> f_less (score_for ord e es (edge_key x)) (rc_Threshold (en_Recipe e))" unfolding k by (rule thr)
  show "le_Confidence x = (if f_less (f_const 1) (score_for ord e es (edge_key x)) then f_const 1
      else score_for ord e es (edge_key x))" unfolding k by (simp add: x)
  show "proof_of_evidence (en_TenantSalt e) (edge_key x) (evidence_for es (edge_key x)) (le_Proof x)"
    unfolding k using consolidated_proof[OF group_edges_mem[OF kc]] by (simp only: x)
  show "notes_of_evidence (evidence_for es (edge_key x)) (score_for ord e es (edge_key x)) (le_Notes x)"
    unfolding k using consolidated_notes[OF group_edges_mem[OF kc]] by (simp only: x)
qed

end
