(* ===== verification/Exporter_Queue.thy ===== *)
theory Exporter_Queue
  imports Prelude "HOL-Library.Sublist"
begin

text \<open>
  \<open>internal/exporter/queue.go\<close>: the bounded drop-oldest queue in front of each export stream.

  \<open>enqueue\<close> holds the queue's mutex, which keeps other producers and \<open>close\<close> out, but the stream's
  worker receives from the channel without it. \<open>enqueue_with t1 t2\<close> is one call during which the
  worker receives \<open>t1\<close> items between the failed send and the drop, and \<open>t2\<close> between the drop and the
  second send; it also returns what the worker received. \<open>enqueue\<close> is the call with no such receive.
\<close>

record queue =
  q_ch :: "bytes list"
  q_cap :: nat
  q_closed :: bool
  q_droppedCount :: u64
  q_enqueuedCount :: u64

definition newQueue :: "nat \<Rightarrow> queue" where
  "newQueue capacity = \<lparr>q_ch = [], q_cap = capacity, q_closed = False, q_droppedCount = 0, q_enqueuedCount = 0\<rparr>"

text \<open>A non-blocking send; false when the buffer is full.\<close>

definition try_send :: "bytes \<Rightarrow> queue \<Rightarrow> bool \<times> queue" where
  "try_send x q = (if length (q_ch q) < q_cap q then (True, q\<lparr>q_ch := q_ch q @ [x]\<rparr>) else (False, q))"

text \<open>The worker receives up to \<open>n\<close> items.\<close>

definition recv :: "nat \<Rightarrow> queue \<Rightarrow> bytes list \<times> queue" where
  "recv n q = (take n (q_ch q), q\<lparr>q_ch := drop n (q_ch q)\<rparr>)"

definition add_dropped :: "queue \<Rightarrow> queue" where
  "add_dropped q = q\<lparr>q_droppedCount := q_droppedCount q + 1\<rparr>"

definition add_enqueued :: "queue \<Rightarrow> queue" where
  "add_enqueued q = q\<lparr>q_enqueuedCount := q_enqueuedCount q + 1\<rparr>"

text \<open>The non-blocking receive of the drop: nothing happens on an empty buffer.\<close>

definition drop_oldest :: "queue \<Rightarrow> queue" where
  "drop_oldest q = (if q_ch q = [] then q else add_dropped (q\<lparr>q_ch := tl (q_ch q)\<rparr>))"

definition enqueue_with :: "nat \<Rightarrow> nat \<Rightarrow> bytes \<Rightarrow> queue \<Rightarrow> queue \<times> bytes list" where
  "enqueue_with t1 t2 x q =
     (if q_closed q then (add_dropped q, [])
      else case try_send x q of
        (True, q1) \<Rightarrow> (add_enqueued q1, [])
      | (False, _) \<Rightarrow>
          let (r1, q1) = recv t1 q; q2 = drop_oldest q1; (r2, q3) = recv t2 q2
          in case try_send x q3 of
               (True, q4) \<Rightarrow> (add_enqueued q4, r1 @ r2)
             | (False, _) \<Rightarrow> (add_dropped q3, r1 @ r2))"

definition enqueue :: "bytes \<Rightarrow> queue \<Rightarrow> queue" where
  "enqueue x q = fst (enqueue_with 0 0 x q)"

definition close :: "queue \<Rightarrow> queue" where
  "close q = (if \<not> q_closed q then q\<lparr>q_closed := True\<rparr> else q)"

definition depth :: "queue \<Rightarrow> nat" where "depth q = length (q_ch q)"
definition dropped :: "queue \<Rightarrow> u64" where "dropped q = q_droppedCount q"
definition enqueued :: "queue \<Rightarrow> u64" where "enqueued q = q_enqueuedCount q"
definition dlqSize :: "queue \<Rightarrow> nat" where "dlqSize q = 0"

lemmas queue_ops = try_send_def recv_def add_dropped_def add_enqueued_def drop_oldest_def

section \<open>One call\<close>

lemma enqueue_closed: "q_closed q \<Longrightarrow> enqueue x q = add_dropped q"
  by (simp add: enqueue_def enqueue_with_def)

lemma enqueue_room: "\<not> q_closed q \<Longrightarrow> depth q < q_cap q \<Longrightarrow>
    enqueue x q = q\<lparr>q_ch := q_ch q @ [x], q_enqueuedCount := q_enqueuedCount q + 1\<rparr>"
  by (simp add: enqueue_def enqueue_with_def depth_def queue_ops)

lemma enqueue_full: "\<not> q_closed q \<Longrightarrow> depth q = q_cap q \<Longrightarrow> 0 < q_cap q \<Longrightarrow>
    enqueue x q = q\<lparr>q_ch := tl (q_ch q) @ [x], q_droppedCount := q_droppedCount q + 1,
       q_enqueuedCount := q_enqueuedCount q + 1\<rparr>"
  by (cases "q_ch q") (simp_all add: enqueue_def enqueue_with_def depth_def queue_ops)

section \<open>The queue as a state machine\<close>

text \<open>
  The producers, the worker and \<open>close\<close>. The ghost fields record every item offered to \<open>enqueue\<close>,
  every item the worker received, and every item that was discarded.
\<close>

record ghost =
  g_queue :: queue
  g_offered :: "bytes list"
  g_received :: "bytes list"

datatype queue_event = Enq nat nat bytes | Recv nat | Close

fun queue_step :: "queue_event \<Rightarrow> ghost \<Rightarrow> ghost" where
  "queue_step (Enq t1 t2 x) g =
     (let (q, r) = enqueue_with t1 t2 x (g_queue g)
      in g\<lparr>g_queue := q, g_offered := g_offered g @ [x], g_received := g_received g @ r\<rparr>)"
| "queue_step (Recv n) g =
     (let (r, q) = recv n (g_queue g) in g\<lparr>g_queue := q, g_received := g_received g @ r\<rparr>)"
| "queue_step Close g = g\<lparr>g_queue := close (g_queue g)\<rparr>"

definition start :: "nat \<Rightarrow> ghost" where
  "start cap = \<lparr>g_queue = newQueue cap, g_offered = [], g_received = []\<rparr>"

definition run :: "nat \<Rightarrow> queue_event list \<Rightarrow> ghost" where
  "run cap evs = fold queue_step evs (start cap)"

text \<open>
  Nothing is lost silently: an offered item was received, is in the buffer, or was counted as dropped.
  The counters are 64-bit and wrap, so the balance is stated modulo \<open>2 ^ 64\<close>; the other two counters
  determine \<open>enqueuedCount\<close> in the same way.
\<close>

definition balanced :: "ghost \<Rightarrow> bool" where
  "balanced g \<longleftrightarrow> (of_nat (length (g_offered g)) :: u64)
     = of_nat (length (g_received g)) + of_nat (depth (g_queue g)) + dropped (g_queue g)"

definition bounded :: "ghost \<Rightarrow> bool" where
  "bounded g \<longleftrightarrow> depth (g_queue g) \<le> q_cap (g_queue g)"

definition in_order :: "ghost \<Rightarrow> bool" where
  "in_order g \<longleftrightarrow> subseq (g_received g @ q_ch (g_queue g)) (g_offered g)"

text \<open>The effect of one \<open>enqueue\<close>, worker receives included.\<close>

lemma enqueue_with_balance:
  assumes "enqueue_with t1 t2 x q = (q', r)"
  shows "1 + (of_nat (depth q) :: u64) + dropped q = of_nat (length r) + of_nat (depth q') + dropped q'"
proof -
  have take_drop: "(of_nat (length (take n xs)) :: u64) + of_nat (length (drop n xs)) = of_nat (length xs)"
    for n and xs :: "bytes list"
    by (metis append_take_drop_id length_append of_nat_add)
  have tl: "1 + (of_nat (length (tl xs)) :: u64) = of_nat (length xs)" if "xs \<noteq> []" for xs :: "bytes list"
    using that by (cases xs) simp_all
  show ?thesis
    using assms take_drop[of t1 "q_ch q"]
      take_drop[of t2 "drop t1 (q_ch q)"] take_drop[of t2 "tl (drop t1 (q_ch q))"] tl[of "drop t1 (q_ch q)"]
    by (auto simp: enqueue_with_def queue_ops depth_def dropped_def Let_def algebra_simps split: if_splits)
qed

lemma enqueue_with_bound:
  assumes "enqueue_with t1 t2 x q = (q', r)" and "depth q \<le> q_cap q"
  shows "depth q' \<le> q_cap q' \<and> q_cap q' = q_cap q"
  using assms by (auto simp: enqueue_with_def queue_ops depth_def Let_def split: if_splits)

lemma subseq_tl: "subseq (tl xs) xs"
  by (cases xs) (auto intro: list_emb_Cons)

lemma enqueue_with_order:
  assumes "enqueue_with t1 t2 x q = (q', r)"
  shows "subseq (r @ q_ch q') (q_ch q @ [x])"
proof -
  have s: "subseq (take t1 c @ take t2 d @ drop t2 d @ ys) (c @ [x])" if "subseq d (drop t1 c)" "subseq ys [x]" for c d ys
  proof -
    have "subseq (take t1 c @ d) (take t1 c @ drop t1 c)" using that(1) by (simp only: subseq_append')
    then have "subseq (take t1 c @ d) c" by (simp only: append_take_drop_id)
    from list_emb_append_mono[OF this that(2)] show ?thesis by (metis append_assoc append_take_drop_id)
  qed
  show ?thesis
    using assms s[of "drop t1 (q_ch q)" "q_ch q" "[x]"] s[of "drop t1 (q_ch q)" "q_ch q" "[]"]
      s[of "tl (drop t1 (q_ch q))" "q_ch q" "[x]", OF subseq_tl] s[of "tl (drop t1 (q_ch q))" "q_ch q" "[]", OF subseq_tl]
    by (auto simp: enqueue_with_def queue_ops Let_def split: if_splits)
qed

lemma recv_order: "recv n q = (r, q') \<Longrightarrow> r @ q_ch q' = q_ch q \<and> q_cap q' = q_cap q \<and> dropped q' = dropped q"
  by (auto simp: recv_def dropped_def)

lemma queue_step_bounded: "bounded g \<Longrightarrow> bounded (queue_step ev g)"
  by (cases ev) (auto simp: bounded_def recv_def close_def depth_def Let_def split: prod.splits
      dest: enqueue_with_bound[unfolded depth_def])

lemma queue_step_balanced:
  assumes "balanced g" shows "balanced (queue_step ev g)"
proof (cases ev)
  case (Enq t1 t2 x)
  obtain q r where e: "enqueue_with t1 t2 x (g_queue g) = (q, r)" by force
  from enqueue_with_balance[OF e] assms show ?thesis
    by (simp add: Enq e balanced_def algebra_simps)
next
  case (Recv n)
  obtain r q where e: "recv n (g_queue g) = (r, q)" by force
  have "(of_nat (length r + depth q) :: u64) = of_nat (depth (g_queue g))"
    using recv_order[OF e] by (metis depth_def length_append)
  with recv_order[OF e] assms show ?thesis by (simp add: Recv e balanced_def algebra_simps)
next
  case Close
  with assms show ?thesis by (simp add: balanced_def close_def depth_def dropped_def)
qed

lemma queue_step_order:
  assumes "in_order g" shows "in_order (queue_step ev g)"
proof (cases ev)
  case (Enq t1 t2 x)
  obtain q r where e: "enqueue_with t1 t2 x (g_queue g) = (q, r)" by force
  have "subseq (g_received g @ r @ q_ch q) (g_received g @ q_ch (g_queue g) @ [x])"
    using enqueue_with_order[OF e] by (simp add: subseq_append')
  moreover have "subseq ((g_received g @ q_ch (g_queue g)) @ [x]) (g_offered g @ [x])"
    using assms by (simp only: in_order_def subseq_append)
  ultimately have "subseq (g_received g @ r @ q_ch q) (g_offered g @ [x])"
    by (metis append.assoc subseq_order.order_trans)
  then show ?thesis by (simp add: Enq e in_order_def)
next
  case (Recv n)
  obtain r q where e: "recv n (g_queue g) = (r, q)" by force
  from recv_order[OF e] assms show ?thesis by (simp add: Recv e in_order_def)
next
  case Close
  with assms show ?thesis by (simp add: in_order_def close_def)
qed

lemma run_invariant: "bounded (run cap evs) \<and> balanced (run cap evs) \<and> in_order (run cap evs)"
proof -
  have "bounded g \<and> balanced g \<and> in_order g \<Longrightarrow>
    bounded (fold queue_step evs g) \<and> balanced (fold queue_step evs g) \<and> in_order (fold queue_step evs g)" for g
    by (induction evs arbitrary: g) (simp_all add: queue_step_bounded queue_step_balanced queue_step_order)
  moreover have "bounded (start cap) \<and> balanced (start cap) \<and> in_order (start cap)"
    by (simp add: start_def newQueue_def bounded_def balanced_def in_order_def depth_def dropped_def)
  ultimately show ?thesis unfolding run_def by blast
qed

text \<open>After \<open>close\<close> the buffer only shrinks.\<close>

lemma closed_step: "q_closed (g_queue g) \<Longrightarrow> q_closed (g_queue (queue_step ev g))
    \<and> enqueued (g_queue (queue_step ev g)) = enqueued (g_queue g)"
  by (cases ev) (auto simp: enqueue_with_def queue_ops close_def enqueued_def)

end
