(* ===== verification/Exporter.thy ===== *)
theory Exporter
  imports Exporter_Queue Config Go_Encoding
begin

text \<open>
  \<open>internal/exporter/exporter.go\<close>: the stream exporter. Construction and its defaults, \<open>Enqueue\<close>,
  the worker that batches what it receives from a stream's queue, the flush to the file and HTTP sinks
  with its retry loop, and the passthrough export check.

  The outside world is an argument (\<open>export_env\<close>): environment variables, the random bytes of the
  idempotency key, whether a URL parses, the HTTP response to the n-th attempt and the outcome of a
  file append. JSON marshalling of a payload is an argument of \<open>Enqueue\<close>. What the sinks received is
  the list of \<open>sink_event\<close>s.
\<close>

definition StreamEdges :: string where "StreamEdges = ''edges''"
definition StreamBilling :: string where "StreamBilling = ''billing''"
definition StreamUsage :: string where "StreamUsage = ''usage''"

record Exporter =
  ex_cfg :: Export
  ex_tenantKey :: string
  ex_maxRetries :: i64
  ex_streams :: "(string \<times> queue) list"
  ex_batchSize :: i64
  ex_flushEvery :: i64

record Options =
  op_Config :: Export
  op_TenantKey :: string
  op_QueueCapacity :: i64

datatype export_error =
    PassthroughNotAllowed string | TenantKeyRequired | MkdirFailed | ChannelPanic
  | UndefinedStream string | RouteUndefined string | PathUndefined string | MarshalFailed

section \<open>The passthrough check\<close>

definition ValidatePassthroughExportOptions :: "string \<Rightarrow> bool \<Rightarrow> string \<Rightarrow> string \<Rightarrow> export_error option" where
  "ValidatePassthroughExportOptions idMode allowPassthrough exportMode baseURL =
     (if idMode \<noteq> ''passthrough'' then None
      else if exportMode \<noteq> ''http'' \<and> exportMode \<noteq> ''both'' then None
      else let isConnektnEndpoint = list_ex (\<lambda>endpoint. baseURL = endpoint \<or> baseURL = endpoint @ ''/'')
                 [''https://api.connektn.dev'', ''https://api.connektn.io'']
           in if \<not> isConnektnEndpoint \<and> \<not> allowPassthrough then Some (PassthroughNotAllowed baseURL) else None)"

section \<open>Construction\<close>

definition positive_or :: "i64 \<Rightarrow> i64 \<Rightarrow> i64" where
  "positive_or d x = (if sint x \<le> 0 then d else x)"

text \<open>\<open>make(chan []byte, capacity)\<close> panics on a negative capacity.\<close>

definition New :: "(string \<Rightarrow> bool) \<Rightarrow> Options \<Rightarrow> export_error + Exporter" where
  "New mkdirAll opts =
     (let cfg = op_Config opts
      in if mode_http cfg \<and> op_TenantKey opts = [] then Inl TenantKeyRequired
         else let batchSize = positive_or 50 (xh_BatchSize (xp_HTTP cfg));
                  flushEvery = positive_or (seconds 5) (xh_FlushEvery (xp_HTTP cfg));
                  maxRetries = positive_or 3 (xh_MaxRetries (xp_HTTP cfg));
                  capacity = positive_or (batchSize * 5) (op_QueueCapacity opts)
              in if sint capacity < 0 then Inl ChannelPanic
                 else let streams = map (\<lambda>s. (s, newQueue (nat (sint capacity)))) [StreamEdges, StreamBilling, StreamUsage]
                      in if mode_file cfg \<and> \<not> list_all (\<lambda>(_, path). mkdirAll path)
                              (case xf_Paths (xp_File cfg) of None \<Rightarrow> [] | Some kvs \<Rightarrow> kvs)
                         then Inl MkdirFailed
                         else Inr \<lparr>ex_cfg = cfg, ex_tenantKey = op_TenantKey opts, ex_maxRetries = maxRetries,
                                ex_streams = streams, ex_batchSize = batchSize, ex_flushEvery = flushEvery\<rparr>)"

section \<open>Enqueue\<close>

definition validateStreamConfig :: "Exporter \<Rightarrow> string \<Rightarrow> export_error option" where
  "validateStreamConfig e stream =
     (if mode_http (ex_cfg e) \<and> map_get (xh_Routes (xp_HTTP (ex_cfg e))) stream = [] then Some (RouteUndefined stream)
      else if mode_file (ex_cfg e) \<and> map_get (xf_Paths (xp_File (ex_cfg e))) stream = [] then Some (PathUndefined stream)
      else None)"

definition Enqueue :: "('p \<Rightarrow> bytes option) \<Rightarrow> Exporter \<Rightarrow> string \<Rightarrow> 'p \<Rightarrow> export_error + Exporter" where
  "Enqueue marshal e stream payload =
     (case map_of (ex_streams e) stream of None \<Rightarrow> Inl (UndefinedStream stream)
      | Some q \<Rightarrow> (case validateStreamConfig e stream of Some err \<Rightarrow> Inl err
         | None \<Rightarrow> (case marshal payload of None \<Rightarrow> Inl MarshalFailed
            | Some d \<Rightarrow> Inr (e\<lparr>ex_streams := AList.update stream (enqueue d q) (ex_streams e)\<rparr>))))"

section \<open>The sinks\<close>

record request =
  rq_Endpoint :: string
  rq_Authorization :: "string option"
  rq_ContentType :: string
  rq_IdempotencyKey :: string
  rq_Body :: bytes

datatype http_outcome = HTTP_Status int | NetworkError

datatype file_outcome = OpenFailed | WriteFailed nat | NewlineFailed nat | Appended

record export_env =
  ee_getenv :: "string \<Rightarrow> string"
  ee_random :: "nat \<Rightarrow> bytes option"
  ee_nanos :: "nat \<Rightarrow> i64"
  ee_url_ok :: "string \<Rightarrow> bool"
  ee_response :: "nat \<Rightarrow> request \<Rightarrow> http_outcome"
  ee_file :: "string \<Rightarrow> bytes \<Rightarrow> file_outcome"

datatype sink_event = Sleep i64 | Posted request | FileBytes string bytes

record exportError =
  xe_statusCode :: int
  xe_retryable :: bool

definition isRetryable :: "exportError \<Rightarrow> bool" where
  "isRetryable err = xe_retryable err"

text \<open>\<open>crypto/rand\<close> gives 16 bytes or fails; version and variant bits follow RFC 4122.\<close>

definition set_uuid_bits :: "bytes \<Rightarrow> bytes" where
  "set_uuid_bits b = b[6 := char_of ((byte_nat (b ! 6) AND 15) OR 64), 8 := char_of ((byte_nat (b ! 8) AND 63) OR 128)]"

definition generateUUID :: "bytes option \<Rightarrow> i64 \<Rightarrow> string" where
  "generateUUID rand nanos = (case rand of None \<Rightarrow> dec_int (sint nanos)
     | Some b0 \<Rightarrow> let b = set_uuid_bits b0
         in join ''-'' [hex_encode (take 4 b), hex_encode (take 2 (drop 4 b)), hex_encode (take 2 (drop 6 b)),
              hex_encode (take 2 (drop 8 b)), hex_encode (drop 10 b)])"

definition export_request :: "Exporter \<Rightarrow> export_env \<Rightarrow> nat \<Rightarrow> string \<Rightarrow> bytes \<Rightarrow> request" where
  "export_request e env attempt route payload =
     (let envName = eh_AuthorizationEnv (xh_Headers (xp_HTTP (ex_cfg e)));
          authToken = (if envName \<noteq> [] then ee_getenv env envName else ex_tenantKey e)
      in \<lparr>rq_Endpoint = xh_BaseURL (xp_HTTP (ex_cfg e)) @ route,
          rq_Authorization = (if authToken \<noteq> [] then Some (''Bearer '' @ authToken) else None),
          rq_ContentType = ''application/json'',
          rq_IdempotencyKey = generateUUID (ee_random env attempt) (ee_nanos env attempt),
          rq_Body = payload\<rparr>)"

definition sendStream :: "Exporter \<Rightarrow> export_env \<Rightarrow> nat \<Rightarrow> string \<Rightarrow> bytes \<Rightarrow> sink_event list \<times> exportError option" where
  "sendStream e env attempt stream payload =
     (case Option.bind (xh_Routes (xp_HTTP (ex_cfg e))) (\<lambda>kvs. map_of kvs stream) of
        None \<Rightarrow> ([], Some \<lparr>xe_statusCode = 0, xe_retryable = False\<rparr>)
      | Some route \<Rightarrow>
          let rq = export_request e env attempt route payload
          in if \<not> ee_url_ok env (rq_Endpoint rq) then ([], Some \<lparr>xe_statusCode = 0, xe_retryable = False\<rparr>)
             else ([Posted rq], case ee_response env attempt rq of
                 NetworkError \<Rightarrow> Some \<lparr>xe_statusCode = 0, xe_retryable = True\<rparr>
               | HTTP_Status c \<Rightarrow> if 200 \<le> c \<and> c < 300 then None
                   else Some \<lparr>xe_statusCode = c, xe_retryable = (500 \<le> c)\<rparr>))"

definition send_backoff :: "nat \<Rightarrow> i64" where
  "send_backoff attempt = push_bit (attempt - 1) 1 * 2 * seconds 1"

text \<open>The retry loop; \<open>left\<close> is the number of attempts after this one. The flag tells delivery.\<close>

fun deliver :: "Exporter \<Rightarrow> export_env \<Rightarrow> string \<Rightarrow> bytes \<Rightarrow> nat \<Rightarrow> nat \<Rightarrow> sink_event list \<times> bool" where
  "deliver e env stream payload attempt left =
     (let pause = (if 0 < attempt then [Sleep (send_backoff attempt)] else []);
          (evs, err) = sendStream e env attempt stream payload
      in case err of None \<Rightarrow> (pause @ evs, True)
         | Some x \<Rightarrow> (case left of 0 \<Rightarrow> (pause @ evs, False)
             | Suc l \<Rightarrow> if isRetryable x
                 then let (evs', ok) = deliver e env stream payload (Suc attempt) l in (pause @ evs @ evs', ok)
                 else (pause @ evs, False)))"

declare deliver.simps [simp del]

definition writeToFileStream :: "Exporter \<Rightarrow> export_env \<Rightarrow> string \<Rightarrow> bytes \<Rightarrow> sink_event list \<times> bool" where
  "writeToFileStream e env stream payload =
     (case Option.bind (xf_Paths (xp_File (ex_cfg e))) (\<lambda>kvs. map_of kvs stream) of
        None \<Rightarrow> ([], False)
      | Some path \<Rightarrow> (case ee_file env path payload of
            OpenFailed \<Rightarrow> ([], False)
          | WriteFailed n \<Rightarrow> ([FileBytes path (take n payload)], False)
          | NewlineFailed n \<Rightarrow> ([FileBytes path (payload @ take n [CHR 0x0A])], False)
          | Appended \<Rightarrow> ([FileBytes path (payload @ [CHR 0x0A])], True)))"

text \<open>\<open>json.Marshal\<close> of the raw messages: each was produced by \<open>json.Marshal\<close>, so it is already compact.\<close>

definition json_array :: "bytes list \<Rightarrow> bytes" where
  "json_array batch = ''['' @ join '','' batch @ '']''"

definition flushStream :: "Exporter \<Rightarrow> export_env \<Rightarrow> string \<Rightarrow> bytes list \<Rightarrow> sink_event list" where
  "flushStream e env stream batch =
     (if batch = [] then []
      else let payload = json_array batch
           in (if mode_file (ex_cfg e) then fst (writeToFileStream e env stream payload) else [])
              @ (if mode_http (ex_cfg e)
                 then fst (deliver e env stream payload 0 (nat (sint (ex_maxRetries e)))) else []))"

section \<open>The worker\<close>

datatype worker_event = Data bytes | Closed | Tick | Done

record worker =
  wk_batch :: "bytes list"
  wk_flushed :: "bytes list list"
  wk_running :: bool

definition worker_flush :: "worker \<Rightarrow> worker" where
  "worker_flush w = (if wk_batch w = [] then w else w\<lparr>wk_flushed := wk_flushed w @ [wk_batch w], wk_batch := []\<rparr>)"

fun worker_step :: "i64 \<Rightarrow> worker_event \<Rightarrow> worker \<Rightarrow> worker" where
  "worker_step batchSize ev w =
     (if \<not> wk_running w then w
      else case ev of
        Data d \<Rightarrow> let w' = w\<lparr>wk_batch := wk_batch w @ [d]\<rparr>
                  in if sint batchSize \<le> int (length (wk_batch w')) then worker_flush w' else w'
      | Tick \<Rightarrow> worker_flush w
      | Closed \<Rightarrow> (worker_flush w)\<lparr>wk_running := False\<rparr>
      | Done \<Rightarrow> (worker_flush w)\<lparr>wk_running := False\<rparr>)"

declare worker_step.simps [simp del]

definition worker_start :: worker where
  "worker_start = \<lparr>wk_batch = [], wk_flushed = [], wk_running = True\<rparr>"

definition worker_run :: "i64 \<Rightarrow> worker_event list \<Rightarrow> worker" where
  "worker_run batchSize evs = fold (worker_step batchSize) evs worker_start"

text \<open>\<open>Shutdown\<close> closes every queue and cancels the workers' context.\<close>

definition Shutdown_queues :: "Exporter \<Rightarrow> Exporter" where
  "Shutdown_queues e = e\<lparr>ex_streams := map (\<lambda>(s, q). (s, close q)) (ex_streams e)\<rparr>"

section \<open>Metrics\<close>

definition Depth :: "Exporter \<Rightarrow> nat" where
  "Depth e = sum_list (map (\<lambda>(_, q). depth q) (ex_streams e))"

definition DLQSize :: "Exporter \<Rightarrow> nat" where
  "DLQSize e = sum_list (map (\<lambda>(_, q). dlqSize q) (ex_streams e))"

definition DroppedCount :: "Exporter \<Rightarrow> u64" where
  "DroppedCount e = sum_list (map (\<lambda>(_, q). dropped q) (ex_streams e))"

definition EnqueuedCount :: "Exporter \<Rightarrow> u64" where
  "EnqueuedCount e = sum_list (map (\<lambda>(_, q). enqueued q) (ex_streams e))"

section \<open>Construction and \<open>Enqueue\<close>\<close>

lemma positive_or_pos: "0 < sint d \<Longrightarrow> 0 < sint (positive_or d x)"
  by (simp add: positive_or_def)

lemma times5_nz: assumes "(b::i64) \<noteq> 0" shows "b * 5 \<noteq> 0"
proof
  assume "b * 5 = 0"
  then have "b * 5 * 14757395258967641293 = 0" by simp
  then have "b * (5 * 14757395258967641293) = 0" by (simp only: mult.assoc)
  moreover have "(5 * 14757395258967641293 :: i64) = 1" by simp
  ultimately show False using assms by (simp only: mult_1_right)
qed

lemma map_of_Some_fst: "map_of xs k = Some v \<Longrightarrow> k \<in> fst ` set xs"
  by (force dest: map_of_SomeD)

lemma New_Inr:
  assumes "New mk opts = Inr e"
  shows "0 < sint (ex_batchSize e)" "0 < sint (ex_maxRetries e)" "0 < sint (ex_flushEvery e)"
    and "ex_cfg e = op_Config opts"
    and "map fst (ex_streams e) = [StreamEdges, StreamBilling, StreamUsage]"
    and "\<forall>(s, q)\<in>set (ex_streams e). \<exists>cap. 0 < cap \<and> q = newQueue cap"
    and "mode_http (ex_cfg e) \<Longrightarrow> ex_tenantKey e \<noteq> []"
proof -
  let ?bs = "positive_or 50 (xh_BatchSize (xp_HTTP (op_Config opts)))"
  let ?cap = "positive_or (?bs * 5) (op_QueueCapacity opts)"
  have bs: "0 < sint ?bs" by (simp add: positive_or_pos)
  then have "?bs * 5 \<noteq> 0" by (intro times5_nz) auto
  then have nz: "sint ?cap \<noteq> 0" by (auto simp: positive_or_def sint_0 dest: signed_word_eqI[of _ 0, simplified])
  from assms have cap: "\<not> sint ?cap < 0" and e: "e = \<lparr>ex_cfg = op_Config opts, ex_tenantKey = op_TenantKey opts,
      ex_maxRetries = positive_or 3 (xh_MaxRetries (xp_HTTP (op_Config opts))),
      ex_streams = map (\<lambda>s. (s, newQueue (nat (sint ?cap)))) [StreamEdges, StreamBilling, StreamUsage],
      ex_batchSize = ?bs, ex_flushEvery = positive_or (seconds 5) (xh_FlushEvery (xp_HTTP (op_Config opts)))\<rparr>"
    and key: "\<not> (mode_http (op_Config opts) \<and> op_TenantKey opts = [])"
    unfolding New_def Let_def by (simp_all split: if_splits)
  have "0 < nat (sint ?cap)" using cap nz by simp
  then show "\<forall>(s, q)\<in>set (ex_streams e). \<exists>cap. 0 < cap \<and> q = newQueue cap"
    unfolding e by (auto intro!: exI[of _ "nat (sint ?cap)"])
  show "0 < sint (ex_batchSize e)" "ex_cfg e = op_Config opts"
    "map fst (ex_streams e) = [StreamEdges, StreamBilling, StreamUsage]" using bs by (simp_all add: e)
  show "0 < sint (ex_maxRetries e)" by (simp add: e positive_or_pos)
  show "0 < sint (ex_flushEvery e)" by (simp add: e positive_or_pos seconds_def)
  show "mode_http (ex_cfg e) \<Longrightarrow> ex_tenantKey e \<noteq> []" using key by (simp add: e)
qed

lemma Enqueue_Inr_iff:
  "Enqueue marshal e s p = Inr e' \<longleftrightarrow> (\<exists>q d. map_of (ex_streams e) s = Some q \<and> validateStreamConfig e s = None
     \<and> marshal p = Some d \<and> e' = e\<lparr>ex_streams := AList.update s (enqueue d q) (ex_streams e)\<rparr>)"
  by (auto simp: Enqueue_def split: option.splits)

lemma validateStreamConfig_None:
  "validateStreamConfig e s = None \<longleftrightarrow>
     (mode_http (ex_cfg e) \<longrightarrow> map_get (xh_Routes (xp_HTTP (ex_cfg e))) s \<noteq> [])
   \<and> (mode_file (ex_cfg e) \<longrightarrow> map_get (xf_Paths (xp_File (ex_cfg e))) s \<noteq> [])"
  by (simp add: validateStreamConfig_def)

lemma Enqueue_streams:
  assumes "Enqueue marshal e s p = Inr e'"
  shows "map_of (ex_streams e') s' = (if s' = s then map_option (enqueue (the (marshal p))) (map_of (ex_streams e) s)
      else map_of (ex_streams e) s')"
    and "ex_cfg e' = ex_cfg e" and "fst ` set (ex_streams e') = fst ` set (ex_streams e)"
proof -
  from assms obtain q d where q: "map_of (ex_streams e) s = Some q" and d: "marshal p = Some d"
    and e': "e' = e\<lparr>ex_streams := AList.update s (enqueue d q) (ex_streams e)\<rparr>"
    by (auto simp: Enqueue_Inr_iff)
  show "map_of (ex_streams e') s' = (if s' = s then map_option (enqueue (the (marshal p))) (map_of (ex_streams e) s)
      else map_of (ex_streams e) s')" using q d by (simp add: e' update_conv)
  show "ex_cfg e' = ex_cfg e" by (simp add: e')
  have "fst ` set (ex_streams e') = insert s (fst ` set (ex_streams e))" by (simp add: e' dom_update)
  then show "fst ` set (ex_streams e') = fst ` set (ex_streams e)" using map_of_Some_fst[OF q] by (simp only: insert_absorb)
qed

lemma validateStreamConfig_cong: "ex_cfg e' = ex_cfg e \<Longrightarrow> validateStreamConfig e' s = validateStreamConfig e s"
  by (simp add: validateStreamConfig_def)

text \<open>Enqueuing is accepted or refused by the configuration and the payload alone.\<close>

lemma Enqueue_ok_iff: "is_ok (Enqueue marshal e s p) \<longleftrightarrow>
    s \<in> fst ` set (ex_streams e) \<and> validateStreamConfig e s = None \<and> marshal p \<noteq> None"
  by (auto simp: Enqueue_def map_of_eq_None_iff map_of_Some_fst split: option.splits)

section \<open>Delivery\<close>

definition attempt_result :: "Exporter \<Rightarrow> export_env \<Rightarrow> string \<Rightarrow> bytes \<Rightarrow> nat \<Rightarrow> exportError option" where
  "attempt_result e env stream payload attempt = snd (sendStream e env attempt stream payload)"

definition retryable_failure :: "exportError option \<Rightarrow> bool" where
  "retryable_failure r = (case r of None \<Rightarrow> False | Some x \<Rightarrow> isRetryable x)"

lemma deliver_step:
  "deliver e env stream payload a l =
     (let evs = (if 0 < a then [Sleep (send_backoff a)] else []) @ fst (sendStream e env a stream payload)
      in case attempt_result e env stream payload a of None \<Rightarrow> (evs, True)
         | Some x \<Rightarrow> (if l = 0 \<or> \<not> isRetryable x then (evs, False)
             else let (evs', ok) = deliver e env stream payload (Suc a) (l - 1) in (evs @ evs', ok)))"
  by (subst deliver.simps)
    (auto simp: attempt_result_def Let_def split: prod.splits option.splits nat.splits)

text \<open>Delivered iff some attempt within the budget succeeds and all earlier ones failed retryably.\<close>

lemma deliver_ok_iff:
  "snd (deliver e env stream payload a l) \<longleftrightarrow>
     (\<exists>k\<le>l. attempt_result e env stream payload (a + k) = None
        \<and> (\<forall>j<k. retryable_failure (attempt_result e env stream payload (a + j))))"
  (is "_ \<longleftrightarrow> (\<exists>k\<le>l. ?S (a + k) \<and> (\<forall>j<k. ?R (a + j)))")
proof (induction l arbitrary: a)
  case 0
  show ?case by (subst deliver_step) (simp add: Let_def split: option.splits)
next
  case (Suc l)
  have split_k: "(\<exists>k\<le>Suc l. ?S (a + k) \<and> (\<forall>j<k. ?R (a + j))) \<longleftrightarrow>
      ?S a \<or> ?R a \<and> (\<exists>k\<le>l. ?S (Suc a + k) \<and> (\<forall>j<k. ?R (Suc a + j)))" (is "?lhs \<longleftrightarrow> ?rhs")
  proof
    assume ?lhs
    then obtain k where k: "k \<le> Suc l" "?S (a + k)" "\<forall>j<k. ?R (a + j)" by blast
    show ?rhs
    proof (cases k)
      case 0 with k show ?thesis by simp
    next
      case (Suc m)
      with k(3) have "?R a" "\<forall>j<m. ?R (Suc a + j)" by (force, fastforce)
      with k Suc show ?thesis by auto
    qed
  next
    assume ?rhs
    then show ?lhs
    proof
      assume "?S a" then show ?thesis by (intro exI[of _ 0]) simp
    next
      assume "?R a \<and> (\<exists>k\<le>l. ?S (Suc a + k) \<and> (\<forall>j<k. ?R (Suc a + j)))"
      then obtain k where k: "?R a" "k \<le> l" "?S (Suc a + k)" "\<forall>j<k. ?R (Suc a + j)" by blast
      then have "?R (a + j)" if "j < Suc k" for j using that by (cases j) auto
      with k show ?thesis by (intro exI[of _ "Suc k"]) simp
    qed
  qed
  show ?case unfolding split_k Suc.IH[symmetric]
    by (subst deliver_step) (auto simp: Let_def retryable_failure_def split: option.splits prod.splits)
qed

definition posts :: "sink_event list \<Rightarrow> request list" where
  "posts evs = concat (map (\<lambda>ev. case ev of Posted r \<Rightarrow> [r] | _ \<Rightarrow> []) evs)"

lemma posts_simps [simp]: "posts [] = []" "posts (Posted r # evs) = r # posts evs"
  "posts (Sleep d # evs) = posts evs" "posts (FileBytes p b # evs) = posts evs" "posts (xs @ ys) = posts xs @ posts ys"
  by (simp_all add: posts_def)

lemma export_request_body [simp]: "rq_Body (export_request e env a route payload) = payload"
  by (simp add: export_request_def Let_def)

lemma sendStream_posts: "length (posts (fst (sendStream e env a stream payload))) \<le> 1"
    "r \<in> set (posts (fst (sendStream e env a stream payload))) \<Longrightarrow> rq_Body r = payload"
  by (auto simp: sendStream_def Let_def split: option.splits if_splits)

lemma deliver_posts: "length (posts (fst (deliver e env stream payload a l))) \<le> Suc l"
proof (induction l arbitrary: a)
  case 0
  show ?case using sendStream_posts(1)[of e env a stream payload]
    by (subst deliver_step) (auto simp: Let_def split: option.splits)
next
  case (Suc l)
  show ?case using sendStream_posts(1)[of e env a stream payload] Suc[of "Suc a"]
    by (subst deliver_step) (auto simp: Let_def split: option.splits prod.splits)
qed

text \<open>Every post of a batch carries the same body.\<close>

lemma deliver_body: "r \<in> set (posts (fst (deliver e env stream payload a l))) \<Longrightarrow> rq_Body r = payload"
proof (induction l arbitrary: a)
  case 0
  then show ?case using sendStream_posts(2)[of r e env a stream payload]
    by (subst (asm) deliver_step) (simp add: Let_def split: option.splits if_splits)
next
  case (Suc l)
  from Suc.prems show ?case using sendStream_posts(2)[of r e env a stream payload] Suc.IH[of "Suc a"]
    by (subst (asm) deliver_step) (auto simp: Let_def split: option.splits prod.splits if_splits)
qed

section \<open>The worker\<close>

definition data_of :: "worker_event list \<Rightarrow> bytes list" where
  "data_of evs = concat (map (\<lambda>ev. case ev of Data d \<Rightarrow> [d] | _ \<Rightarrow> []) evs)"

text \<open>The events the worker acts on: up to the first that stops it.\<close>

fun live :: "worker_event list \<Rightarrow> worker_event list" where
  "live [] = []"
| "live (ev # evs) = (if ev = Closed \<or> ev = Done then [ev] else ev # live evs)"

definition worker_inv :: "i64 \<Rightarrow> worker \<Rightarrow> bool" where
  "worker_inv bs w \<longleftrightarrow> (\<forall>b\<in>set (wk_flushed w). b \<noteq> [] \<and> int (length b) \<le> sint bs)
     \<and> int (length (wk_batch w)) < sint bs \<and> (\<not> wk_running w \<longrightarrow> wk_batch w = [])"

lemma worker_step_inv: "0 < sint bs \<Longrightarrow> worker_inv bs w \<Longrightarrow> worker_inv bs (worker_step bs ev w)"
  by (auto simp: worker_step.simps worker_inv_def worker_flush_def Let_def split: worker_event.splits)

lemma worker_step_content:
  "wk_running w \<Longrightarrow> concat (wk_flushed (worker_step bs ev w)) @ wk_batch (worker_step bs ev w)
     = concat (wk_flushed w) @ wk_batch w @ data_of [ev]
   \<and> wk_running (worker_step bs ev w) = (ev \<noteq> Closed \<and> ev \<noteq> Done)"
  by (auto simp: worker_step.simps worker_flush_def Let_def data_of_def split: worker_event.splits)

lemma worker_stopped: "\<not> wk_running w \<Longrightarrow> fold (worker_step bs) evs w = w"
  by (induction evs) (simp_all add: worker_step.simps)

lemma worker_fold:
  assumes "0 < sint bs" "worker_inv bs w" "wk_running w"
  shows "worker_inv bs (fold (worker_step bs) evs w)"
    and "concat (wk_flushed (fold (worker_step bs) evs w)) @ wk_batch (fold (worker_step bs) evs w)
       = concat (wk_flushed w) @ wk_batch w @ data_of (live evs)"
    and "wk_running (fold (worker_step bs) evs w) \<longleftrightarrow> Closed \<notin> set evs \<and> Done \<notin> set evs"
  using assms
proof (induction evs arbitrary: w)
  case Nil
  { case 1 then show ?case by simp next case 2 then show ?case by (simp add: data_of_def)
    next case 3 then show ?case by simp }
next
  case (Cons ev evs)
  have data: "data_of (ev # xs) = data_of [ev] @ data_of xs" for xs by (simp add: data_of_def)
  {
    case (1 w)
    let ?w = "worker_step bs ev w"
    show ?case
    proof (cases "wk_running ?w")
      case True then show ?thesis using Cons.IH(1)[OF 1(1) worker_step_inv[OF 1(1,2), of ev] True] by simp
    next
      case False then show ?thesis using worker_step_inv[OF 1(1,2), of ev] worker_stopped[of ?w] by simp
    qed
  next
    case (2 w)
    let ?w = "worker_step bs ev w"
    note c = worker_step_content[OF 2(3), of bs ev]
    show ?case
    proof (cases "wk_running ?w")
      case True
      then show ?thesis using Cons.IH(2)[OF 2(1) worker_step_inv[OF 2(1,2), of ev] True] c data[of "live evs"]
        by simp
    next
      case False
      then show ?thesis using c worker_stopped[OF False] data[of "[]"]
        by (auto simp: data_of_def)
    qed
  next
    case (3 w)
    let ?w = "worker_step bs ev w"
    note c = worker_step_content[OF 3(3), of bs ev]
    show ?case
    proof (cases "wk_running ?w")
      case True
      then show ?thesis using Cons.IH(3)[OF 3(1) worker_step_inv[OF 3(1,2), of ev] True] c
        by (auto)
    next
      case False
      then show ?thesis using c worker_stopped[OF False] by (auto)
    qed
  }
qed

lemma worker_start_inv: "0 < sint bs \<Longrightarrow> worker_inv bs worker_start"
  by (simp add: worker_inv_def worker_start_def)

lemma worker_run_facts:
  assumes "0 < sint bs"
  shows "worker_inv bs (worker_run bs evs)"
    and "concat (wk_flushed (worker_run bs evs)) @ wk_batch (worker_run bs evs) = data_of (live evs)"
    and "wk_running (worker_run bs evs) \<longleftrightarrow> Closed \<notin> set evs \<and> Done \<notin> set evs"
  using worker_fold[OF assms worker_start_inv[OF assms], of evs]
  by (simp_all add: worker_run_def worker_start_def)

end
