(* ===== verification/Pipeline.thy ===== *)
theory Pipeline
  imports Ensemble Exporter
begin

text \<open>
  \<open>internal/pipeline/pipeline.go\<close>: input validation, one run over the matchers, combination, the
  confidence classes and the export of the accepted edges. \<open>Run\<close> returns its outcome together with
  the exporter, because an export error in the middle leaves the earlier edges enqueued.
\<close>

record Inputs =
  in_Usages :: "UsageEvent list"
  in_Subs :: "SubscriptionLite list"
  in_Invs :: "InvoiceLite list"

record Stats =
  st_UsageEvents :: nat
  st_Subscriptions :: nat
  st_Invoices :: nat
  st_RawEdges :: nat
  st_AcceptedEdges :: nat
  st_ExportedEdges :: nat
  st_MatcherStats :: "(string \<times> nat) list"
  st_HighConfidence :: nat
  st_MediumConfidence :: nat
  st_LowConfidence :: nat

record Result =
  rs_Edges :: "LinkEdge list"
  rs_Stats :: Stats

datatype input_error =
    UsageUser nat string | UsageAt nat
  | SubID nat string | SubCustomer nat string | SubPriceID nat nat string | SubProductID nat nat string
  | InvID nat string | InvCustomer nat string | InvSubscription nat string

datatype pipeline_error =
    InvalidInputs input_error | PipelineMatcherFailed string match_error | EnqueueFailed export_error

definition isSyntheticID :: "string \<Rightarrow> bool" where
  "isSyntheticID ident = (if length ident < 4 then False else take 4 ident = ''syn_'')"

definition check_usage :: "nat \<Rightarrow> UsageEvent \<Rightarrow> input_error option" where
  "check_usage i usage =
     (if \<not> isSyntheticID (us_User usage) then Some (UsageUser i (us_User usage))
      else if sint (us_At usage) \<le> 0 then Some (UsageAt i) else None)"

definition check_sub :: "nat \<Rightarrow> SubscriptionLite \<Rightarrow> input_error option" where
  "check_sub i sub =
     (if \<not> isSyntheticID (sl_ID sub) then Some (SubID i (sl_ID sub))
      else if \<not> isSyntheticID (sl_Customer sub) then Some (SubCustomer i (sl_Customer sub))
      else case checkE (\<lambda>j p. if \<not> isSyntheticID p then Some (SubPriceID i j p) else None) 0 (sl_PriceIDs sub) of
          Some e \<Rightarrow> Some e
        | None \<Rightarrow> checkE (\<lambda>j p. if \<not> isSyntheticID p then Some (SubProductID i j p) else None) 0 (sl_ProductIDs sub))"

definition check_inv :: "nat \<Rightarrow> InvoiceLite \<Rightarrow> input_error option" where
  "check_inv i v =
     (if \<not> isSyntheticID (il_ID v) then Some (InvID i (il_ID v))
      else if \<not> isSyntheticID (il_Customer v) then Some (InvCustomer i (il_Customer v))
      else if il_Subscription v \<noteq> [] \<and> \<not> isSyntheticID (il_Subscription v)
      then Some (InvSubscription i (il_Subscription v)) else None)"

definition validateInputs :: "Inputs \<Rightarrow> input_error option" where
  "validateInputs inp =
     (case checkE check_usage 0 (in_Usages inp) of Some e \<Rightarrow> Some e
      | None \<Rightarrow> (case checkE check_sub 0 (in_Subs inp) of Some e \<Rightarrow> Some e
         | None \<Rightarrow> checkE check_inv 0 (in_Invs inp)))"

text \<open>The matcher loop: the edges of all matchers and the per-matcher counts.\<close>

fun run_matchers :: "Matcher list \<Rightarrow> Inputs \<Rightarrow> (string \<times> nat) list \<Rightarrow> LinkEdge list
    \<Rightarrow> pipeline_error + ((string \<times> nat) list \<times> LinkEdge list)" where
  "run_matchers [] inp counts allEdges = Inr (counts, allEdges)"
| "run_matchers (m # ms) inp counts allEdges =
     (case mt_Match m (in_Usages inp) (in_Subs inp) (in_Invs inp) of
        Inl err \<Rightarrow> Inl (PipelineMatcherFailed (mt_Name m) err)
      | Inr es \<Rightarrow> run_matchers ms inp (AList.update (mt_Name m) (length es) counts) (allEdges @ es))"

datatype confidence_class = High | Medium | Low

definition classify :: "LinkEdge \<Rightarrow> confidence_class" where
  "classify e = (if f_ge (le_Confidence e) lit_09 then High
     else if f_ge (le_Confidence e) lit_06 then Medium else Low)"

definition class_count :: "confidence_class \<Rightarrow> LinkEdge list \<Rightarrow> nat" where
  "class_count c es = length (filter (\<lambda>e. classify e = c) es)"

text \<open>The export loop.\<close>

fun enqueue_edges :: "(LinkEdge \<Rightarrow> bytes option) \<Rightarrow> Exporter \<Rightarrow> LinkEdge list \<Rightarrow> export_error option \<times> Exporter" where
  "enqueue_edges marshal x [] = (None, x)"
| "enqueue_edges marshal x (e # es) =
     (case Enqueue marshal x StreamEdges e of
        Inl err \<Rightarrow> (Some err, x) | Inr x' \<Rightarrow> enqueue_edges marshal x' es)"

definition Run :: "(LinkEdge \<Rightarrow> bytes option) \<Rightarrow> map_order \<Rightarrow> Ensemble \<Rightarrow> Exporter option \<Rightarrow> Inputs
    \<Rightarrow> (pipeline_error + Result) \<times> Exporter option" where
  "Run marshal ord ensemble sink inp =
     (case validateInputs inp of Some err \<Rightarrow> (Inl (InvalidInputs err), sink)
      | None \<Rightarrow> (case run_matchers (en_Matchers ensemble) inp [] [] of
          Inl err \<Rightarrow> (Inl err, sink)
        | Inr (counts, allEdges) \<Rightarrow>
            let accepted = Combine ord ensemble allEdges;
                stats = \<lparr>st_UsageEvents = length (in_Usages inp), st_Subscriptions = length (in_Subs inp),
                  st_Invoices = length (in_Invs inp), st_RawEdges = length allEdges,
                  st_AcceptedEdges = length accepted, st_ExportedEdges = 0, st_MatcherStats = counts,
                  st_HighConfidence = class_count High accepted, st_MediumConfidence = class_count Medium accepted,
                  st_LowConfidence = class_count Low accepted\<rparr>
            in case sink of None \<Rightarrow> (Inr \<lparr>rs_Edges = accepted, rs_Stats = stats\<rparr>, None)
               | Some x \<Rightarrow> (case enqueue_edges marshal x accepted of
                     (Some err, x') \<Rightarrow> (Inl (EnqueueFailed err), Some x')
                   | (None, x') \<Rightarrow> (Inr \<lparr>rs_Edges = accepted,
                        rs_Stats = stats\<lparr>st_ExportedEdges := length accepted\<rparr>\<rparr>, Some x'))))"

definition RunWithoutExport :: "map_order \<Rightarrow> Ensemble \<Rightarrow> Inputs \<Rightarrow> pipeline_error + Result" where
  "RunWithoutExport ord ensemble inp = fst (Run (\<lambda>_. None) ord ensemble None inp)"

section \<open>Validation\<close>

lemma isSyntheticID_eq: "isSyntheticID = IsSyntheticID"
proof
  fix s
  have "length s < 4 \<Longrightarrow> take 4 s \<noteq> ''syn_''" by (auto dest: arg_cong[where f = length])
  then show "isSyntheticID s = IsSyntheticID s" by (auto simp: isSyntheticID_def IsSyntheticID_def has_prefix_def numeral_eq_Suc)
qed

definition inputs_synthetic :: "Inputs \<Rightarrow> bool" where
  "inputs_synthetic inp \<longleftrightarrow>
     (\<forall>u\<in>set (in_Usages inp). IsSyntheticID (us_User u) \<and> 0 < sint (us_At u))
   \<and> (\<forall>s\<in>set (in_Subs inp). IsSyntheticID (sl_ID s) \<and> IsSyntheticID (sl_Customer s)
        \<and> (\<forall>p\<in>set (sl_PriceIDs s) \<union> set (sl_ProductIDs s). IsSyntheticID p))
   \<and> (\<forall>i\<in>set (in_Invs inp). IsSyntheticID (il_ID i) \<and> IsSyntheticID (il_Customer i)
        \<and> synthetic_or_none (il_Subscription i))"

lemma checkE_None_all: "checkE f i xs = None \<longleftrightarrow> (\<forall>x\<in>set xs. Q x)" if "\<And>k x. f k x = None \<longleftrightarrow> Q x"
  by (simp add: checkE_None that all_set_conv_all_nth)

lemma or_else_None: "(case x of None \<Rightarrow> y | Some e \<Rightarrow> Some e) = None \<longleftrightarrow> x = None \<and> y = None"
  by (cases x) simp_all

lemma validateInputs_None: "validateInputs inp = None \<longleftrightarrow> inputs_synthetic inp"
proof -
  have u: "checkE check_usage 0 us = None \<longleftrightarrow> (\<forall>u\<in>set us. IsSyntheticID (us_User u) \<and> 0 < sint (us_At u))" for us
    by (rule checkE_None_all) (auto simp: check_usage_def isSyntheticID_eq)
  have p: "checkE (\<lambda>j p. if \<not> isSyntheticID p then Some (g j p) else None) 0 ps = None \<longleftrightarrow> (\<forall>p\<in>set ps. IsSyntheticID p)"
    for g :: "nat \<Rightarrow> string \<Rightarrow> input_error" and ps
    by (rule checkE_None_all) (simp add: isSyntheticID_eq)
  have s: "checkE check_sub 0 ss = None \<longleftrightarrow> (\<forall>s\<in>set ss. IsSyntheticID (sl_ID s) \<and> IsSyntheticID (sl_Customer s)
      \<and> (\<forall>p\<in>set (sl_PriceIDs s) \<union> set (sl_ProductIDs s). IsSyntheticID p))" for ss
    by (rule checkE_None_all) (auto simp: check_sub_def or_else_None p isSyntheticID_eq[symmetric])
  have v: "checkE check_inv 0 is = None \<longleftrightarrow> (\<forall>i\<in>set is. IsSyntheticID (il_ID i) \<and> IsSyntheticID (il_Customer i)
      \<and> synthetic_or_none (il_Subscription i))" for "is"
    by (rule checkE_None_all) (auto simp: check_inv_def isSyntheticID_eq synthetic_or_none_def)
  show ?thesis
    unfolding inputs_synthetic_def u[symmetric] s[symmetric] v[symmetric]
    by (simp add: validateInputs_def or_else_None)
qed

text \<open>Sanitized billing data, converted for the matchers, passes the check.\<close>

lemma sanitized_sub_lite:
  assumes "SanitizeSubscription salt s = Inr m"
  shows "IsSyntheticID (sl_ID (ToSubscriptionLite m)) \<and> IsSyntheticID (sl_Customer (ToSubscriptionLite m))
     \<and> (\<forall>p\<in>set (sl_PriceIDs (ToSubscriptionLite m)) \<union> set (sl_ProductIDs (ToSubscriptionLite m)). IsSyntheticID p)"
  using SanitizeSubscription_synthetic[OF assms]
  by (auto simp: ToSubscriptionLite_def synthetic_or_none_def)

lemma sanitized_inv_lite:
  assumes "SanitizeInvoice salt i = Inr m"
  shows "IsSyntheticID (il_ID (ToInvoiceLite m)) \<and> IsSyntheticID (il_Customer (ToInvoiceLite m))
     \<and> synthetic_or_none (il_Subscription (ToInvoiceLite m))"
  using SanitizeInvoice_synthetic[OF assms] by (simp add: ToInvoiceLite_def)

section \<open>The run\<close>

lemma run_matchers_Match:
  "(\<exists>cs. run_matchers (en_Matchers en) inp counts acc = Inr (cs, acc @ es)) \<longleftrightarrow>
     Ensemble_Match en (in_Usages inp) (in_Subs inp) (in_Invs inp) = Inr es"
proof -
  have "case appendE (\<lambda>m. case mt_Match m (in_Usages inp) (in_Subs inp) (in_Invs inp) of
         Inl err \<Rightarrow> Inl (MatcherFailed (mt_Name m) err) | Inr es \<Rightarrow> Inr es) ms of
       Inl _ \<Rightarrow> \<not> is_ok (run_matchers ms inp counts acc)
     | Inr es \<Rightarrow> \<exists>cs. run_matchers ms inp counts acc = Inr (cs, acc @ es)" for ms
    by (induction ms arbitrary: counts acc) (auto split: sum.splits, metis append.assoc)
  from this[of "en_Matchers en"] show ?thesis by (auto simp: Ensemble_Match_def split: sum.splits)
qed

lemma run_matchers_edges:
  assumes "run_matchers ms inp counts acc = Inr (cs, es)" and "e \<in> set es"
  shows "e \<in> set acc \<or> (\<exists>m\<in>set ms. \<exists>xs. mt_Match m (in_Usages inp) (in_Subs inp) (in_Invs inp) = Inr xs \<and> e \<in> set xs)"
  using assms by (induction ms arbitrary: counts acc) (fastforce split: sum.splits)+

lemma run_matchers_acc: "run_matchers ms inp counts acc = Inr (cs, es) \<Longrightarrow> set acc \<subseteq> set es"
  by (induction ms arbitrary: counts acc) (fastforce split: sum.splits)+

lemma run_matchers_contains:
  assumes "run_matchers ms inp counts acc = Inr (cs, es)" and "m \<in> set ms"
    and "mt_Match m (in_Usages inp) (in_Subs inp) (in_Invs inp) = Inr xs"
  shows "set xs \<subseteq> set es"
  using assms
proof (induction ms arbitrary: counts acc)
  case (Cons a ms)
  then obtain ys where ys: "mt_Match a (in_Usages inp) (in_Subs inp) (in_Invs inp) = Inr ys"
    and rest: "run_matchers ms inp (AList.update (mt_Name a) (length ys) counts) (acc @ ys) = Inr (cs, es)"
    by (auto split: sum.splits)
  from run_matchers_acc[OF rest] Cons.IH[OF rest] Cons.prems(2,3) ys show ?case by auto
qed simp

lemma run_matchers_ok:
  "is_ok (run_matchers ms inp counts acc) \<longleftrightarrow> (\<forall>m\<in>set ms. is_ok (mt_Match m (in_Usages inp) (in_Subs inp) (in_Invs inp)))"
  by (induction ms arbitrary: counts acc) (auto split: sum.splits)

lemma class_counts: "class_count High es + class_count Medium es + class_count Low es = length es"
proof (induction es)
  case (Cons e es)
  then show ?case by (cases "classify e") (simp_all add: class_count_def)
qed (simp add: class_count_def)

lemma enqueue_edges_ok:
  assumes "StreamEdges \<in> fst ` set (ex_streams x)" "validateStreamConfig x StreamEdges = None"
    and "\<forall>e\<in>set es. marshal e \<noteq> None"
  shows "fst (enqueue_edges marshal x es) = None"
  using assms
proof (induction es arbitrary: x)
  case (Cons e es)
  then have "is_ok (Enqueue marshal x StreamEdges e)" by (simp add: Enqueue_ok_iff)
  then obtain x' where x': "Enqueue marshal x StreamEdges e = Inr x'" unfolding is_ok_iff by blast
  note k = Enqueue_streams[OF x']
  from Cons.IH[of x'] Cons.prems k(3) validateStreamConfig_cong[OF k(2)] x' show ?case by simp
qed simp

lemma enqueue_edges_cfg: "ex_cfg (snd (enqueue_edges marshal x es)) = ex_cfg x"
  by (induction es arbitrary: x) (auto split: sum.splits dest: Enqueue_streams(2))

text \<open>What the edges stream's queue holds afterwards.\<close>

lemma enqueue_edges_queue:
  assumes "enqueue_edges marshal x es = (None, x')"
  shows "map_of (ex_streams x') StreamEdges
     = map_option (fold (\<lambda>e. enqueue (the (marshal e))) es) (map_of (ex_streams x) StreamEdges)"
  using assms
proof (induction es arbitrary: x)
  case (Cons e es)
  then obtain y where y: "Enqueue marshal x StreamEdges e = Inr y" "enqueue_edges marshal y es = (None, x')"
    by (auto split: sum.splits)
  from Cons.IH[OF y(2)] Enqueue_streams(1)[OF y(1), of StreamEdges] show ?case
    by (simp add: option.map_comp comp_def)
qed (simp add: option.map_id0 option.map_ident)

lemma Run_Inr:
  assumes "Run marshal ord en sink inp = (Inr r, sink')"
  obtains counts es where "validateInputs inp = None" "run_matchers (en_Matchers en) inp [] [] = Inr (counts, es)"
    "rs_Edges r = Combine ord en es" "st_RawEdges (rs_Stats r) = length es"
    "st_AcceptedEdges (rs_Stats r) = length (rs_Edges r)"
    "st_MatcherStats (rs_Stats r) = counts"
    "st_ExportedEdges (rs_Stats r) = (if sink = None then 0 else length (rs_Edges r))"
    "st_HighConfidence (rs_Stats r) = class_count High (rs_Edges r)"
    "st_MediumConfidence (rs_Stats r) = class_count Medium (rs_Edges r)"
    "st_LowConfidence (rs_Stats r) = class_count Low (rs_Edges r)"
    "case sink of None \<Rightarrow> sink' = None | Some x \<Rightarrow> \<exists>x'. sink' = Some x' \<and> enqueue_edges marshal x (rs_Edges r) = (None, x')"
  using assms unfolding Run_def Let_def by (auto split: option.splits sum.splits prod.splits)

text \<open>With matchers that keep the interface, every edge of the result joins two synthetic identifiers.\<close>

lemma edge_target_synthetic:
  "inputs_synthetic inp \<Longrightarrow> edge_target_ok (in_Subs inp) (in_Invs inp) e \<Longrightarrow> IsSyntheticID (le_To e)"
  by (auto simp: inputs_synthetic_def edge_target_ok_def)

lemma edge_source_synthetic:
  "inputs_synthetic inp \<Longrightarrow> edge_source_ok (in_Usages inp) e \<Longrightarrow> IsSyntheticID (le_From e)"
  by (auto simp: inputs_synthetic_def edge_source_ok_def)

lemma raw_edge_ok:
  assumes "\<forall>m\<in>set ms. is_matcher m salted" and "run_matchers ms inp [] [] = Inr (counts, es)" and "e \<in> set es"
  shows "edge_source_ok (in_Usages inp) e \<and> edge_target_ok (in_Subs inp) (in_Invs inp) e"
proof -
  from run_matchers_edges[OF assms(2,3)] obtain m xs where m: "m \<in> set ms"
    "mt_Match m (in_Usages inp) (in_Subs inp) (in_Invs inp) = Inr xs" "e \<in> set xs" by auto
  then have "matcher (mt_Name m) (mt_Match m) salted" using assms(1) by (auto simp: is_matcher_def)
  from matcher.source[OF this m(2,3)] matcher.target[OF this m(2,3)] show ?thesis ..
qed

lemma Run_edges_synthetic:
  assumes ord: "map_order_ok ord" and ms: "\<forall>m\<in>set (en_Matchers en). is_matcher m salted"
    and run: "Run marshal ord en sink inp = (Inr r, sink')" and e: "e \<in> set (rs_Edges r)"
  shows "IsSyntheticID (le_From e) \<and> IsSyntheticID (le_To e)"
proof -
  from run obtain counts es where inp: "validateInputs inp = None"
    and es: "run_matchers (en_Matchers en) inp [] [] = Inr (counts, es)" and r: "rs_Edges r = Combine ord en es"
    by (rule Run_Inr)
  from e r have "edge_key e \<in> edge_key ` set (Combine ord en es)" by simp
  then have "edge_key e \<in> edge_key ` set es" unfolding Combine_keys[OF ord] by blast
  then obtain g where g: "g \<in> set es" "edge_key e = edge_key g" by blast
  from raw_edge_ok[OF ms es g(1)] inp have "IsSyntheticID (le_From g) \<and> IsSyntheticID (le_To g)"
    by (simp add: validateInputs_None edge_source_synthetic edge_target_synthetic)
  with g(2) show ?thesis by (simp add: edge_key_def)
qed

text \<open>Without usage events a matcher finds nothing, so nothing is exported.\<close>

lemma run_matchers_no_usages:
  assumes "\<forall>m\<in>set ms. is_matcher m True" and "in_Usages inp = []"
  shows "\<exists>cs. run_matchers ms inp counts acc = Inr (cs, acc)"
  using assms
proof (induction ms arbitrary: counts)
  case (Cons m ms)
  then have "matcher (mt_Name m) (mt_Match m) True" by (simp add: is_matcher_def)
  from matcher.empty_usages[OF this] Cons show ?case by simp
qed simp

end
