(* ===== verification/Linking.thy ===== *)
theory Linking
  imports Pipeline
begin

text \<open>
  The wiring of the matchers in \<open>main.go\<close>: the ensemble built from the configured recipe, the seed
  usage events, and what the default recipe accepts.
\<close>

definition recipe_of :: "MatcherRecipe \<Rightarrow> Recipe" where
  "recipe_of r = \<lparr>rc_Name = mr_Name r, rc_Version = mr_Version r,
     rc_Weights = (case mr_Weights r of None \<Rightarrow> Map.empty | Some ws \<Rightarrow> map_of ws),
     rc_Threshold = mr_Threshold r, rc_TemporalWindowSec = mr_TemporalWindowSec r,
     rc_SKUOverlapMin = mr_SKUOverlapMin r\<rparr>"

definition linker_ensemble :: "bytes \<Rightarrow> MatcherRecipe \<Rightarrow> Ensemble" where
  "linker_ensemble salt r =
     (let recipe = recipe_of r in
      \<lparr>en_Recipe = recipe,
       en_Matchers = [det_matcher \<lparr>det_TenantSalt = salt, det_IDMapper = None\<rparr>,
         temporal_matcher \<lparr>tm_WindowSec = rc_TemporalWindowSec recipe, tm_TenantSalt = salt\<rparr>,
         sku_matcher \<lparr>sku_TenantSalt = salt\<rparr>],
       en_TenantSalt = salt\<rparr>)"

text \<open>The events seeded from the first five subscriptions, and the fallback event.\<close>

definition seed_events :: "nat \<Rightarrow> Subscription \<Rightarrow> UsageEvent list" where
  "seed_events i sub =
     (case sub_Items sub of [] \<Rightarrow> []
      | it # _ \<Rightarrow>
          \<lparr>us_User = sub_Customer sub, us_Feature = ''export_csv'', us_SKU = item_PriceID it,
            us_At = sub_CreatedAt sub + of_nat (i * 60)\<rparr>
          # (if item_ProductID it \<noteq> [] then
              [\<lparr>us_User = sub_Customer sub, us_Feature = ''api_call'', us_SKU = item_ProductID it,
                us_At = sub_CreatedAt sub + of_nat (i * 120)\<rparr>] else []))"

definition seedUsage :: "i64 \<Rightarrow> Subscription list \<Rightarrow> UsageEvent list" where
  "seedUsage now subs =
     (let events = concat (map (\<lambda>(i, sub). seed_events i sub) (enumerate 0 (take 5 subs)))
      in if events = [] then
           [\<lparr>us_User = ''syn_cust_fallback'', us_Feature = ''export_csv'', us_SKU = ''syn_price_fallback'',
             us_At = now - 600\<rparr>]
         else events)"

section \<open>The ensemble keeps the matcher interface\<close>

lemma linker_ensemble_matchers: "m \<in> set (en_Matchers (linker_ensemble salt r)) \<Longrightarrow> is_matcher m (salt \<noteq> [])"
  using det.matcher_axioms[of "\<lparr>det_TenantSalt = salt, det_IDMapper = None\<rparr>"]
    temporal.matcher_axioms[of "\<lparr>tm_WindowSec = mr_TemporalWindowSec r, tm_TenantSalt = salt\<rparr>"]
    sku.matcher_axioms[of "\<lparr>sku_TenantSalt = salt\<rparr>"]
  by (auto simp: linker_ensemble_def recipe_of_def Let_def is_matcher_def det_matcher_def temporal_matcher_def sku_matcher_def)

lemma linker_run_matchers_ok:
  "salt \<noteq> [] \<Longrightarrow> is_ok (run_matchers (en_Matchers (linker_ensemble salt r)) inp counts acc)"
  unfolding run_matchers_ok using linker_ensemble_matchers[of _ salt r]
  by (auto simp: is_matcher_def intro: matcher.total)

text \<open>Without billing records no matcher needs a salt.\<close>

lemma linker_no_billing_ok:
  "in_Subs inp = [] \<Longrightarrow> in_Invs inp = [] \<Longrightarrow> is_ok (run_matchers (en_Matchers (linker_ensemble salt r)) inp counts acc)"
proof -
  assume i: "in_Subs inp = []" "in_Invs inp = []"
  have ok: "is_ok (appendE (\<lambda>x. Inr []) xs)" for xs :: "'a list" by (simp add: appendE_Inr[where g = "\<lambda>_. []"])
  show ?thesis unfolding run_matchers_ok linker_ensemble_def
    by (auto simp: i Let_def det_matcher_def temporal_matcher_def sku_matcher_def det_Match_eq_ref det_Match_ref_def
        sku_Match_eq_ref sku_Match_ref_def temporal_Match_def seqE_def ok)
qed

text \<open>With valid inputs a run succeeds and enqueues what it accepts.\<close>

lemma linker_Run_ok:
  assumes "is_ok (run_matchers (en_Matchers (linker_ensemble salt r)) inp [] [])" and "validateInputs inp = None"
    and "case sink of None \<Rightarrow> True | Some x \<Rightarrow> StreamEdges \<in> fst ` set (ex_streams x)
           \<and> validateStreamConfig x StreamEdges = None \<and> (\<forall>e. marshal e \<noteq> None)"
  shows "\<exists>res sink'. Run marshal ord (linker_ensemble salt r) sink inp = (Inr res, sink')
    \<and> (case sink of None \<Rightarrow> sink' = None
       | Some x \<Rightarrow> \<exists>x'. sink' = Some x' \<and> map_of (ex_streams x') StreamEdges
           = map_option (fold (\<lambda>e. enqueue (the (marshal e))) (rs_Edges res)) (map_of (ex_streams x) StreamEdges))"
proof -
  obtain counts es where run: "run_matchers (en_Matchers (linker_ensemble salt r)) inp [] [] = Inr (counts, es)"
    using assms(1) unfolding is_ok_iff by auto
  show ?thesis
  proof (cases sink)
    case None
    then show ?thesis by (simp add: Run_def assms(2) run Let_def)
  next
    case (Some x)
    let ?acc = "Combine ord (linker_ensemble salt r) es"
    have "fst (enqueue_edges marshal x ?acc) = None"
      using assms(3) Some by (intro enqueue_edges_ok) simp_all
    then obtain x' where "enqueue_edges marshal x ?acc = (None, x')" by (cases "enqueue_edges marshal x ?acc") simp
    with enqueue_edges_queue[OF this] show ?thesis by (simp add: Run_def assms(2) run Let_def Some)
  qed
qed

lemma linker_Run_total:
  assumes "salt \<noteq> []" and "validateInputs inp = None"
    and "case sink of None \<Rightarrow> True | Some x \<Rightarrow> StreamEdges \<in> fst ` set (ex_streams x)
           \<and> validateStreamConfig x StreamEdges = None \<and> (\<forall>e. marshal e \<noteq> None)"
  shows "\<exists>res sink'. Run marshal ord (linker_ensemble salt r) sink inp = (Inr res, sink')
    \<and> (case sink of None \<Rightarrow> sink' = None
       | Some x \<Rightarrow> \<exists>x'. sink' = Some x' \<and> map_of (ex_streams x') StreamEdges
           = map_option (fold (\<lambda>e. enqueue (the (marshal e))) (rs_Edges res)) (map_of (ex_streams x) StreamEdges))"
  by (rule linker_Run_ok[OF linker_run_matchers_ok[OF assms(1)] assms(2,3)])

lemma linker_parts [simp]:
  "en_Recipe (linker_ensemble salt r) = recipe_of r" "en_TenantSalt (linker_ensemble salt r) = salt"
  by (simp_all add: linker_ensemble_def Let_def)

text \<open>The kinds of raw evidence.\<close>

definition det_evidence :: "LinkEdge \<Rightarrow> bool" where
  "det_evidence g \<longleftrightarrow> le_Recipe g = ''deterministic_id/v1'' \<and> le_Confidence g = Fin 1"

definition temporal_evidence :: "LinkEdge \<Rightarrow> bool" where
  "temporal_evidence g \<longleftrightarrow> le_Recipe g = ''temporal_proximity/v1'' \<and> le_Kind g \<in> {kind_subscription, kind_invoice}
     \<and> (\<exists>q. le_Confidence g = Fin q \<and> 0 \<le> q \<and> q \<le> base06)"

definition sku_evidence :: "LinkEdge \<Rightarrow> bool" where
  "sku_evidence g \<longleftrightarrow> le_Recipe g = ''sku_overlap/v1'' \<and> le_Kind g \<in> {kind_subscription, kind_price, kind_product}
     \<and> le_Confidence g \<in> {lit_08, lit_09}"

lemma evidence_recipes:
  "det_evidence g \<Longrightarrow> le_Recipe g = ''deterministic_id/v1''"
  "temporal_evidence g \<Longrightarrow> le_Recipe g = ''temporal_proximity/v1''"
  "sku_evidence g \<Longrightarrow> le_Recipe g = ''sku_overlap/v1''"
  by (simp_all add: det_evidence_def temporal_evidence_def sku_evidence_def)

lemma det_Match_evidence: "det_Match m us ss is = Inr es \<Longrightarrow> g \<in> set es \<Longrightarrow> det_evidence g"
  by (erule (1) det_Match_Inr) (auto simp: det_evidence_def f_const_1 dest: det_edge_Inr(5,6))

lemma temporal_Match_evidence: "temporal_Match m us ss is = Inr es \<Longrightarrow> g \<in> set es \<Longrightarrow> temporal_evidence g"
proof (erule (1) temporal_Match_Inr)
  fix u s xs
  assume "g \<in> set xs" "temporal_edge m u (sl_ID s) (sl_CreatedAt s) kind_subscription ''subscription'' = Inr xs"
  from temporal_edge_Inr(4,5,6)[OF this(2,1)] calculateConfidence_range[of m "us_At u" "sl_CreatedAt s"]
  show ?thesis by (auto simp: temporal_evidence_def)
next
  fix u i xs
  assume "g \<in> set xs" "temporal_edge m u (il_ID i) (il_CreatedAt i) kind_invoice ''invoice'' = Inr xs"
  from temporal_edge_Inr(4,5,6)[OF this(2,1)] calculateConfidence_range[of m "us_At u" "il_CreatedAt i"]
  show ?thesis by (auto simp: temporal_evidence_def)
qed

lemma sku_Match_evidence: "sku_Match m us ss is = Inr es \<Longrightarrow> g \<in> set es \<Longrightarrow> sku_evidence g"
  by (erule (1) sku_Match_Inr) (auto simp: sku_evidence_def dest: sku_edge_Inr(4,5,6))

lemma linker_raw_evidence:
  assumes "run_matchers (en_Matchers (linker_ensemble salt r)) inp [] [] = Inr (cs, es)" and "g \<in> set es"
  shows "det_evidence g \<or> temporal_evidence g \<or> sku_evidence g"
proof -
  from run_matchers_edges[OF assms] obtain m xs where "m \<in> set (en_Matchers (linker_ensemble salt r))"
    "mt_Match m (in_Usages inp) (in_Subs inp) (in_Invs inp) = Inr xs" "g \<in> set xs" by auto
  then show ?thesis
    by (auto simp: linker_ensemble_def Let_def det_matcher_def temporal_matcher_def sku_matcher_def
        dest: det_Match_evidence temporal_Match_evidence sku_Match_evidence)
qed

section \<open>What the default recipe accepts\<close>

definition default_policy :: "MatcherRecipe \<Rightarrow> bool" where
  "default_policy r \<longleftrightarrow> mr_Weights r = Some default_weights \<and> mr_Threshold r = lit_08"

lemma default_policy_validated:
  "validateMatcherRecipe r = Inr r' \<Longrightarrow> mr_Weights r = None \<Longrightarrow> f_eq (mr_Threshold r) (f_const 0) \<Longrightarrow> default_policy r'"
  by (auto simp: validateMatcherRecipe_def Let_def default_policy_def or_default_def f_or_default_def split: if_splits)

lemma matcher_names:
  "matcher_name ''deterministic_id/v1'' = ''deterministic_id''"
  "matcher_name ''temporal_proximity/v1'' = ''temporal_proximity''"
  "matcher_name ''sku_overlap/v1'' = ''sku_overlap''"
  by (simp_all add: matcher_name_def)

lemma det_weighted: "default_policy r \<Longrightarrow> det_evidence g \<Longrightarrow> weighted_score (recipe_of r) g = Fin 1"
  by (simp add: weighted_score_def det_evidence_def default_policy_def recipe_of_def matcher_names
      default_weights_def f_const_1 to_f64_small)

text \<open>Below the threshold: at most three quarters.\<close>

definition low_score :: "f64 \<Rightarrow> bool" where
  "low_score x \<longleftrightarrow> (\<exists>q. x = Fin q \<and> 0 \<le> q \<and> q \<le> 3 / 4)"

lemma rnd_3_4: "rnd (3 / 4) = 3 / 4"
  using rnd_exact[of 3 "- 2"] by (simp add: power_int_minus)

lemma low_to_f64: assumes "0 \<le> q" "q \<le> 3 / 4" shows "low_score (to_f64 q)"
proof -
  have "\<bar>q\<bar> \<le> 2 ^ 64" using assms by simp
  then have "to_f64 q = Fin (rnd q)" by (rule to_f64_small)
  moreover have "0 \<le> rnd q" using assms(1) by (rule rnd_nonneg)
  moreover have "rnd q \<le> 3 / 4" using rnd_mono[OF assms(2)] by (simp add: rnd_3_4)
  ultimately show ?thesis by (simp add: low_score_def)
qed

lemma low_mul: assumes "0 \<le> a" "a \<le> 91 / 100" "0 \<le> b" "b \<le> 81 / 100" shows "low_score (f_mul (Fin b) (Fin a))"
proof -
  have "b * a \<le> (81 / 100) * (91 / 100)" using assms by (intro mult_mono) simp_all
  then have "b * a \<le> 3 / 4" by simp
  with low_to_f64[of "b * a"] assms show ?thesis by simp
qed

lemma low_add_0: "low_score x \<Longrightarrow> low_score (f_add (Fin 0) x)"
  using low_to_f64 by (auto simp: low_score_def[of x])

lemma low_zero: "low_score (Fin 0)"
  by (simp add: low_score_def)

lemma low_below: "low_score x \<Longrightarrow> f_less x lit_08"
  by (auto simp: low_score_def lit_values)

lemma temporal_weighted: "default_policy r \<Longrightarrow> temporal_evidence g \<Longrightarrow> low_score (weighted_score (recipe_of r) g)"
  using base06_bounds
  by (auto simp: weighted_score_def temporal_evidence_def default_policy_def recipe_of_def matcher_names
      default_weights_def lit_values base06_def simp del: f_mul.simps intro!: low_mul)

lemma sku_weighted: "default_policy r \<Longrightarrow> sku_evidence g \<Longrightarrow> low_score (weighted_score (recipe_of r) g)"
  by (auto simp: weighted_score_def sku_evidence_def default_policy_def recipe_of_def matcher_names
      default_weights_def lit_values simp del: f_mul.simps intro!: low_mul)

lemma evidence_of_one_matcher_rejected:
  assumes ord: "map_order_ok ord" and r: "default_policy r"
    and one: "(\<forall>g\<in>set gs. temporal_evidence g) \<or> (\<forall>g\<in>set gs. sku_evidence g)"
  shows "f_less (calculateWeightedScore (mo_scores ord k) (linker_ensemble salt r) gs) lit_08"
proof -
  from one obtain n where n: "\<forall>g\<in>set gs. matcher_name (le_Recipe g) = n"
    by (metis evidence_recipes(2,3))
  from one r have low: "\<forall>g\<in>set gs. low_score (weighted_score (recipe_of r) g)"
    by (auto dest: temporal_weighted sku_weighted)
  from score_single[OF ord n, of k "linker_ensemble salt r"] low
  have "low_score (calculateWeightedScore (mo_scores ord k) (linker_ensemble salt r) gs)"
    using low_zero by (elim disjE bexE) (simp_all add: low_add_0)
  then show ?thesis by (rule low_below)
qed

lemma evidence_for_set: "g \<in> set (evidence_for es k) \<longleftrightarrow> g \<in> set es \<and> edge_key g = k"
  by (auto simp: evidence_for_def)

lemma accepted_evidence:
  assumes ord: "map_order_ok ord" and r: "default_policy r"
    and es: "run_matchers (en_Matchers (linker_ensemble salt r)) inp [] [] = Inr (cs, es)"
    and x: "x \<in> set (Combine ord (linker_ensemble salt r) es)"
  shows "(\<exists>g\<in>set (evidence_for es (edge_key x)). det_evidence g)
    \<or> le_Kind x = kind_subscription \<and> (\<exists>g\<in>set (evidence_for es (edge_key x)). temporal_evidence g)
        \<and> (\<exists>g\<in>set (evidence_for es (edge_key x)). sku_evidence g)"
proof -
  let ?gs = "evidence_for es (edge_key x)"
  have each: "det_evidence g \<or> temporal_evidence g \<or> sku_evidence g" if "g \<in> set ?gs" for g
    using linker_raw_evidence[OF es] that by (simp add: evidence_for_set)
  have "\<not> f_less (score_for ord (linker_ensemble salt r) es (edge_key x)) lit_08"
    using Combine_evidence(4)[OF ord x] r by (simp add: default_policy_def recipe_of_def)
  then have "\<not> ((\<forall>g\<in>set ?gs. temporal_evidence g) \<or> (\<forall>g\<in>set ?gs. sku_evidence g))"
    using evidence_of_one_matcher_rejected[OF ord r, of ?gs "edge_key x" salt] by (auto simp: score_for_def)
  moreover have "le_Kind x = kind_subscription" if "g \<in> set ?gs" "h \<in> set ?gs" "temporal_evidence g" "sku_evidence h" for g h
    using that by (auto simp: evidence_for_set temporal_evidence_def sku_evidence_def edge_key_def kind_defs)
  ultimately show ?thesis using each by blast
qed

lemma deterministic_accepted:
  assumes ord: "map_order_ok ord" and r: "default_policy r" and g: "g \<in> set es" "det_evidence g"
  shows "\<exists>x\<in>set (Combine ord (linker_ensemble salt r) es). edge_key x = edge_key g \<and> le_Confidence x = f_const 1"
proof -
  let ?e = "linker_ensemble salt r" and ?k = "edge_key g"
  have "f_atleast 1 (score_for ord ?e es ?k)" unfolding score_for_def
    by (rule score_ge[OF ord, of g]) (use g det_weighted[OF r g(2)] in \<open>simp_all add: evidence_for_set f_atleast_def\<close>)
  then obtain s where s: "score_for ord ?e es ?k = s" and ge: "s = PInf \<or> (\<exists>q\<ge>1. s = Fin q)"
    by (simp add: f_atleast_def)
  then have acc: "\<not> f_less s lit_08" by (auto simp: lit_values)
  then have "?k \<in> edge_key ` set (Combine ord ?e es)"
    using g(1) r by (auto simp: Combine_keys[OF ord] s default_policy_def recipe_of_def)
  then obtain x where x: "x \<in> set (Combine ord ?e es)" "edge_key x = ?k" by auto
  from Combine_evidence(5)[OF ord x(1)] ge have "le_Confidence x = f_const 1"
    by (auto simp: x(2) s f_const_1)
  with x show ?thesis by blast
qed

end
