(* ===== verification/Go_Duration.thy ===== *)
theory Go_Duration
  imports Go_Time Go_Float "HOL-Library.Signed_Division"
begin

text \<open>
  Durations and floats: \<open>Duration.Seconds\<close>, the conversion of a float to a 64-bit integer, and Unix
  seconds. The conversion truncates; the result for a float outside the range is the platform's (\<open>conv\<close>).
\<close>

definition f64_to_int64 :: "(f64 \<Rightarrow> i64) \<Rightarrow> f64 \<Rightarrow> i64" where
  "f64_to_int64 conv x = (case x of
     Fin q \<Rightarrow> if - (2 ^ 63) \<le> q \<and> q < 2 ^ 63 then word_of_int (if 0 \<le> q then \<lfloor>q\<rfloor> else \<lceil>q\<rceil>) else conv x
   | _ \<Rightarrow> conv x)"

text \<open>\<open>int64(d.Seconds())\<close>: the seconds as a float, truncated.\<close>

definition duration_seconds :: "i64 \<Rightarrow> f64" where
  "duration_seconds d = f_add (f_of_int64 (word_of_int (sint d sdiv 10 ^ 9)))
     (f_div (f_of_int64 (word_of_int (sint d smod 10 ^ 9))) (Fin (10 ^ 9)))"

definition trunc_f64 :: "f64 \<Rightarrow> i64" where
  "trunc_f64 x = f64_to_int64 (\<lambda>_. 0) x"

text \<open>\<open>t.Unix()\<close>\<close>

definition unix_seconds :: "int \<Rightarrow> i64" where
  "unix_seconds t = word_of_int (t div 10 ^ 9)"

lemma f_of_int64_small: "\<bar>sint w\<bar> < 2 ^ 53 \<Longrightarrow> f_of_int64 w = Fin (of_int (sint w))"
  unfolding f_of_int64_Fin by (subst rnd_int_exact) simp_all

lemma rnd_scaled: "\<bar>b\<bar> < 2 ^ 53 \<Longrightarrow> rnd (of_int b * 2 ^ n) = of_int b * 2 ^ n"
  using rnd_exact[of b "int n"] by simp

lemma f64_to_int64_int: "- (2 ^ 63) \<le> i \<Longrightarrow> i < 2 ^ 63 \<Longrightarrow> f64_to_int64 conv (Fin (of_int i)) = word_of_int i"
proof -
  assume a: "- (2 ^ 63) \<le> i" "i < 2 ^ 63"
  have "(of_int (- (2 ^ 63)) :: rat) \<le> of_int i" "(of_int i :: rat) < of_int (2 ^ 63)"
    using a by (simp_all only: of_int_le_iff of_int_less_iff)
  then show ?thesis by (simp add: f64_to_int64_def)
qed

lemma rnd_below_sum:
  assumes "0 \<le> (k::int)" "k < 2 ^ 52" "0 \<le> q" "q \<le> 1"
  shows "of_int k \<le> rnd (of_int k + q) \<and> rnd (of_int k + q) \<le> of_int (k + 1)"
proof -
  have "rnd (of_int k) \<le> rnd (of_int k + q)" "rnd (of_int k + q) \<le> rnd (of_int (k + 1))"
    using assms by (auto intro!: rnd_mono)
  moreover have "rnd (of_int k) = of_int k" "rnd (of_int (k + 1)) = of_int (k + 1)"
    using assms by (intro rnd_int_exact; simp)+
  ultimately show ?thesis by simp
qed

text \<open>The float of a duration lies between its number of whole seconds and the next integer, which it can
  reach by rounding.\<close>

lemma duration_seconds_bounds:
  assumes "0 \<le> sint d"
  obtains x where "duration_seconds d = Fin x" "of_int (sint d div 10 ^ 9) \<le> x" "x \<le> of_int (sint d div 10 ^ 9 + 1)"
proof -
  let ?k = "sint d div 10 ^ 9" and ?r = "sint d mod 10 ^ 9"
  have b: "sint d < 2 ^ 63" by (rule sint_bounds64)
  have k: "0 \<le> ?k" "?k < 2 ^ 52" "?k + 1 < 2 ^ 63" using assms b by (simp_all add: div_less_iff_less_mult)
  have r: "0 \<le> ?r" "?r < 10 ^ 9" by simp_all
  have sd: "sint d sdiv 10 ^ 9 = ?k" "sint d smod 10 ^ 9 = ?r"
    using assms by (cases "sint d = 0"; simp add: signed_divide_int_def signed_modulo_int_def minus_mult_div_eq_mod mult.commute)+
  have fk: "f_of_int64 (word_of_int ?k) = Fin (of_int ?k)" and fr: "f_of_int64 (word_of_int ?r) = Fin (of_int ?r)"
    using k r sint_in_range[of ?k] sint_in_range[of ?r] rnd_int_exact[of ?k] rnd_int_exact[of ?r]
    by (simp_all only: f_of_int64_Fin) simp_all
  have q: "0 \<le> (of_int ?r / 10 ^ 9 :: rat)" "(of_int ?r / 10 ^ 9 :: rat) \<le> 1" using r by simp_all
  have qr: "0 \<le> rnd (of_int ?r / 10 ^ 9)" "rnd (of_int ?r / 10 ^ 9) \<le> 1"
    using rnd_mono[OF q(1)] rnd_mono[OF q(2)] by (simp_all only: rnd_0 rnd_1)
  have dv: "f_div (Fin (of_int ?r)) (Fin (10 ^ 9)) = Fin (rnd (of_int ?r / 10 ^ 9))"
    using q by (simp add: to_f64_small)
  define x where "x = rnd (of_int ?k + rnd (of_int ?r / 10 ^ 9))"
  have x: "of_int ?k \<le> x" "x \<le> of_int (?k + 1)" using rnd_below_sum[OF k(1,2) qr] by (simp_all add: x_def)
  have "\<bar>of_int ?k + rnd (of_int ?r / 10 ^ 9)\<bar> \<le> (2::rat) ^ 64"
  proof -
    have "(of_int ?k :: rat) \<le> of_int (2 ^ 52)" using k(2) by (simp only: of_int_le_iff)
    then show ?thesis using qr k(1) by simp
  qed
  then have "duration_seconds d = Fin x"
    by (simp only: duration_seconds_def sd fk fr dv f_add.simps to_f64_small x_def)
  with x that show thesis by blast
qed

lemma trunc_seconds_bounds:
  assumes "0 \<le> sint d"
  shows "sint d div 10 ^ 9 \<le> sint (trunc_f64 (duration_seconds d))
    \<and> sint (trunc_f64 (duration_seconds d)) \<le> sint d div 10 ^ 9 + 1"
proof -
  let ?k = "sint d div 10 ^ 9"
  have k: "0 \<le> ?k" "?k + 1 < 2 ^ 63" using assms sint_bounds64[of d] by (simp_all add: div_less_iff_less_mult)
  obtain x where x: "duration_seconds d = Fin x" "of_int ?k \<le> x" "x \<le> of_int (?k + 1)"
    by (rule duration_seconds_bounds[OF assms])
  have f: "?k \<le> \<lfloor>x\<rfloor>" "\<lfloor>x\<rfloor> \<le> ?k + 1" using x by (simp_all add: le_floor_iff floor_le_iff)
  have "(0::rat) \<le> of_int ?k" "(of_int (?k + 1) :: rat) < of_int (2 ^ 63)" using k by (simp_all only: of_int_less_iff of_int_0_le_iff)
  then have "0 \<le> x" "x < 2 ^ 63" using x by (simp_all only: of_int_power of_int_numeral)
  then have "trunc_f64 (duration_seconds d) = word_of_int \<lfloor>x\<rfloor>" by (simp add: x trunc_f64_def f64_to_int64_def)
  moreover have "sint (word_of_int \<lfloor>x\<rfloor> :: i64) = \<lfloor>x\<rfloor>" using k f by (intro sint_in_range) linarith+
  ultimately show ?thesis using f by simp
qed

end
