(* ===== verification/Webhook_Worker.thy ===== *)
theory Webhook_Worker
  imports Webhook_Handler Linking Go_Duration
begin

text \<open>
  \<open>internal/ingest/stripewebhook/worker.go\<close>: the webhook worker. A job's object is fetched from the
  Stripe API, sanitized, run through the pipeline and exported, inside a retry loop with exponential
  backoff.

  The API responses of the n-th attempt, the cancellation of the context during a backoff, the
  marshalling of an edge and the map orders are arguments (\<open>worker_env\<close>). Go error values are
  \<open>go_error\<close>: \<open>Wrapped\<close> is \<^verbatim>\<open>fmt.Errorf("...: %w", err)\<close>, which hides the type of the error inside
  from a type assertion. A nil dereference in the sanitizer is \<open>JobPanic\<close>.
\<close>

datatype go_error =
    StripeError string int
  | DeadlineExceeded
  | ContextCanceled
  | SanitizeFailed crypto_error
  | PipelineFailed pipeline_error
  | UnsupportedEvent string
  | AttemptsExhausted i64 "go_error option"
  | Wrapped string go_error

datatype job_outcome = JobDone "go_error option" | JobPanic

definition SupportedEventTypes :: "string list" where
  "SupportedEventTypes = [''invoice.created'', ''invoice.finalized'', ''invoice.payment_succeeded'',
     ''invoice.payment_failed'', ''customer.subscription.created'', ''customer.subscription.updated'',
     ''customer.subscription.deleted'', ''charge.succeeded'', ''charge.refunded'']"

record Worker =
  wr_account :: string
  wr_tenantSalt :: bytes
  wr_ensemble :: Ensemble
  wr_exporter :: Exporter
  wr_retryCfg :: StripeWebhookRetry

record WorkerOptions =
  wo_StripeAPIKey :: string
  wo_StripeAccount :: string
  wo_TenantSalt :: bytes
  wo_Ensemble :: Ensemble
  wo_Exporter :: "Exporter option"
  wo_RetryConfig :: StripeWebhookRetry

datatype worker_error = APIKeyRequired | SaltRequired | ExporterRequired

definition NewWorker :: "WorkerOptions \<Rightarrow> worker_error + Worker" where
  "NewWorker opts =
     (if wo_StripeAPIKey opts = [] then Inl APIKeyRequired
      else if wo_TenantSalt opts = [] then Inl SaltRequired
      else case wo_Exporter opts of None \<Rightarrow> Inl ExporterRequired
        | Some x \<Rightarrow> Inr \<lparr>wr_account = wo_StripeAccount opts, wr_tenantSalt = wo_TenantSalt opts,
            wr_ensemble = wo_Ensemble opts, wr_exporter = x, wr_retryCfg = wo_RetryConfig opts\<rparr>)"

record worker_env =
  we_invoice :: "nat \<Rightarrow> string \<Rightarrow> string \<Rightarrow> go_error + stripe_invoice"
  we_subscription :: "nat \<Rightarrow> string \<Rightarrow> string \<Rightarrow> go_error + stripe_subscription"
  we_cancelled :: "nat \<Rightarrow> go_error option"
  we_marshal :: "LinkEdge \<Rightarrow> bytes option"
  we_order :: map_order

text \<open>The exporter is a pointer: the worker's copy is what the pipeline enqueued into.\<close>

definition run_pipeline :: "worker_env \<Rightarrow> string \<Rightarrow> Inputs \<Rightarrow> Worker \<Rightarrow> Worker \<times> job_outcome" where
  "run_pipeline env msg inp w =
     (case Run (we_marshal env) (we_order env) (wr_ensemble w) (Some (wr_exporter w)) inp of
        (r, sink) \<Rightarrow>
          (let w' = (case sink of None \<Rightarrow> w | Some x \<Rightarrow> w\<lparr>wr_exporter := x\<rparr>)
           in (w', case r of Inl err \<Rightarrow> JobDone (Some (Wrapped msg (PipelineFailed err))) | Inr _ \<Rightarrow> JobDone None)))"

definition processInvoiceEvent :: "worker_env \<Rightarrow> nat \<Rightarrow> Job \<Rightarrow> Worker \<Rightarrow> Worker \<times> job_outcome" where
  "processInvoiceEvent env attempt job w =
     (case we_invoice env attempt (wr_account w) (jb_ObjectID job) of
        Inl err \<Rightarrow> (w, JobDone (Some (Wrapped (''failed to fetch invoice '' @ jb_ObjectID job) err)))
      | Inr i \<Rightarrow> (case SanitizeInvoice (wr_tenantSalt w) i of
          Inl Panic \<Rightarrow> (w, JobPanic)
        | Inl (HashFailed err) \<Rightarrow> (w, JobDone (Some (Wrapped ''failed to sanitize invoice'' (SanitizeFailed err))))
        | Inr sanitizedInv \<Rightarrow> run_pipeline env ''pipeline failed for invoice event''
            \<lparr>in_Usages = [], in_Subs = [], in_Invs = [ToInvoiceLite sanitizedInv]\<rparr> w))"

definition processSubscriptionEvent :: "worker_env \<Rightarrow> nat \<Rightarrow> Job \<Rightarrow> Worker \<Rightarrow> Worker \<times> job_outcome" where
  "processSubscriptionEvent env attempt job w =
     (case we_subscription env attempt (wr_account w) (jb_ObjectID job) of
        Inl err \<Rightarrow> (w, JobDone (Some (Wrapped (''failed to fetch subscription '' @ jb_ObjectID job) err)))
      | Inr s \<Rightarrow> (case SanitizeSubscription (wr_tenantSalt w) s of
          Inl Panic \<Rightarrow> (w, JobPanic)
        | Inl (HashFailed err) \<Rightarrow> (w, JobDone (Some (Wrapped ''failed to sanitize subscription'' (SanitizeFailed err))))
        | Inr sanitizedSub \<Rightarrow> run_pipeline env ''pipeline failed for subscription event''
            \<lparr>in_Usages = [], in_Subs = [ToSubscriptionLite sanitizedSub], in_Invs = []\<rparr> w))"

definition processOnce :: "worker_env \<Rightarrow> nat \<Rightarrow> Job \<Rightarrow> Worker \<Rightarrow> Worker \<times> job_outcome" where
  "processOnce env attempt job w =
     (if has_prefix (jb_Type job) ''invoice.'' then processInvoiceEvent env attempt job w
      else if has_prefix (jb_Type job) ''customer.subscription.'' then processSubscriptionEvent env attempt job w
      else if has_prefix (jb_Type job) ''charge.'' then (w, JobDone None)
      else (w, JobDone (Some (UnsupportedEvent (jb_Type job)))))"

fun isRetryableError :: "go_error option \<Rightarrow> bool" where
  "isRetryableError None = False"
| "isRetryableError (Some (StripeError code status)) = (if code = ''rate_limit'' then True else 500 \<le> status)"
| "isRetryableError (Some err) = (err = DeadlineExceeded)"

text \<open>\<open>math.Pow(2, float64(attempt))\<close> is exact.\<close>

definition pow_two :: "nat \<Rightarrow> f64" where
  "pow_two n = (if n < 1024 then Fin (2 ^ n) else PInf)"

definition calculateBackoff :: "(f64 \<Rightarrow> i64) \<Rightarrow> StripeWebhookRetry \<Rightarrow> nat \<Rightarrow> i64" where
  "calculateBackoff conv cfg attempt =
     (let backoff = f_mul (f_of_int64 (rt_BaseBackoff cfg)) (pow_two attempt);
          backoff' = (if f_less (f_of_int64 (rt_MaxBackoff cfg)) backoff then f_of_int64 (rt_MaxBackoff cfg) else backoff)
      in f64_to_int64 conv backoff')"

record process_result =
  pr_worker :: Worker
  pr_outcome :: job_outcome
  pr_backoffs :: "i64 list"
  pr_label :: "string option"

text \<open>The retry loop; \<open>left\<close> attempts remain. The result carries the backoffs waited for and the label
  counted in \<open>MetricsWebhookProcessedTotal\<close>.\<close>

fun process_attempts :: "(f64 \<Rightarrow> i64) \<Rightarrow> worker_env \<Rightarrow> Job \<Rightarrow> nat \<Rightarrow> nat \<Rightarrow> go_error option \<Rightarrow> i64 list \<Rightarrow> Worker \<Rightarrow> process_result" where
  "process_attempts conv env job attempt 0 lastErr waited w =
     \<lparr>pr_worker = w, pr_outcome = JobDone (Some (AttemptsExhausted (rt_MaxAttempts (wr_retryCfg w)) lastErr)),
      pr_backoffs = waited, pr_label = Some ''failed''\<rparr>"
| "process_attempts conv env job attempt (Suc left) lastErr waited w =
     (let waited' = (if 0 < attempt then waited @ [calculateBackoff conv (wr_retryCfg w) attempt] else waited)
      in case (if 0 < attempt then we_cancelled env attempt else None) of
        Some ctxErr \<Rightarrow> \<lparr>pr_worker = w, pr_outcome = JobDone (Some (Wrapped ''context canceled during retry backoff'' ctxErr)),
            pr_backoffs = waited', pr_label = None\<rparr>
      | None \<Rightarrow> (case processOnce env attempt job w of
            (w', JobPanic) \<Rightarrow> \<lparr>pr_worker = w', pr_outcome = JobPanic, pr_backoffs = waited', pr_label = None\<rparr>
          | (w', JobDone None) \<Rightarrow> \<lparr>pr_worker = w', pr_outcome = JobDone None, pr_backoffs = waited', pr_label = Some ''success''\<rparr>
          | (w', JobDone (Some err)) \<Rightarrow>
              if \<not> isRetryableError (Some err)
              then \<lparr>pr_worker = w', pr_outcome = JobDone (Some err), pr_backoffs = waited', pr_label = Some ''failed''\<rparr>
              else process_attempts conv env job (Suc attempt) left (Some err) waited' w'))"

declare process_attempts.simps [simp del]

definition Process :: "(f64 \<Rightarrow> i64) \<Rightarrow> worker_env \<Rightarrow> Job \<Rightarrow> Worker \<Rightarrow> process_result" where
  "Process conv env job w =
     (if jb_Type job \<notin> set SupportedEventTypes
      then \<lparr>pr_worker = w, pr_outcome = JobDone None, pr_backoffs = [], pr_label = Some ''ignored''\<rparr>
      else process_attempts conv env job 0 (nat (sint (rt_MaxAttempts (wr_retryCfg w)))) None [] w)"

section \<open>Retries\<close>

text \<open>Every error \<open>processOnce\<close> returns for a supported event is wrapped, and \<open>isRetryableError\<close> does
  not unwrap.\<close>

lemma run_pipeline_wrapped: "run_pipeline env msg inp w = (w', JobDone (Some err)) \<Longrightarrow> \<exists>m e. err = Wrapped m e"
  by (auto simp: run_pipeline_def Let_def split: prod.splits sum.splits)

lemma processOnce_error_kinds:
  assumes "processOnce env attempt job w = (w', JobDone (Some err))"
  shows "(\<exists>m e. err = Wrapped m e) \<or> err = UnsupportedEvent (jb_Type job)"
  using assms by (auto simp: processOnce_def processInvoiceEvent_def processSubscriptionEvent_def
      split: if_splits sum.splits sanitize_error.splits dest: run_pipeline_wrapped)

lemma processOnce_not_retryable:
  assumes "processOnce env attempt job w = (w', JobDone (Some err))"
  shows "\<not> isRetryableError (Some err)"
  using processOnce_error_kinds[OF assms] by auto

lemma process_attempts_once:
  "process_attempts conv env job 0 (Suc left) lastErr [] w =
     \<lparr>pr_worker = fst (processOnce env 0 job w), pr_outcome = snd (processOnce env 0 job w), pr_backoffs = [],
       pr_label = (case snd (processOnce env 0 job w) of JobPanic \<Rightarrow> None | JobDone None \<Rightarrow> Some ''success''
         | JobDone (Some _) \<Rightarrow> Some ''failed'')\<rparr>"
  by (auto simp: process_attempts.simps processOnce_not_retryable split: prod.splits job_outcome.splits option.splits)

lemma Process_once:
  "Process conv env job w =
     (if jb_Type job \<notin> set SupportedEventTypes
      then \<lparr>pr_worker = w, pr_outcome = JobDone None, pr_backoffs = [], pr_label = Some ''ignored''\<rparr>
      else if sint (rt_MaxAttempts (wr_retryCfg w)) \<le> 0
      then \<lparr>pr_worker = w, pr_outcome = JobDone (Some (AttemptsExhausted (rt_MaxAttempts (wr_retryCfg w)) None)),
             pr_backoffs = [], pr_label = Some ''failed''\<rparr>
      else \<lparr>pr_worker = fst (processOnce env 0 job w), pr_outcome = snd (processOnce env 0 job w), pr_backoffs = [],
             pr_label = (case snd (processOnce env 0 job w) of JobPanic \<Rightarrow> None | JobDone None \<Rightarrow> Some ''success''
               | JobDone (Some _) \<Rightarrow> Some ''failed'')\<rparr>)"
proof (cases "nat (sint (rt_MaxAttempts (wr_retryCfg w)))")
  case 0
  then show ?thesis by (simp add: Process_def process_attempts.simps(1))
next
  case (Suc k)
  then have "\<not> sint (rt_MaxAttempts (wr_retryCfg w)) \<le> 0" by linarith
  with Suc show ?thesis by (simp add: Process_def process_attempts_once)
qed

lemma Process_not_exhausted: "pr_outcome (Process conv env job w) \<noteq> JobDone (Some (AttemptsExhausted n (Some err)))"
  unfolding Process_once using processOnce_error_kinds[of env 0 job w] by (cases "processOnce env 0 job w") auto

section \<open>Exports\<close>

text \<open>The pipeline of a webhook job has no usage events, so it accepts no edge and leaves the exporter
  as it was.\<close>

lemma Combine_empty: "map_order_ok ord \<Longrightarrow> Combine ord en [] = []"
  using Combine_keys[of ord en "[]"] by simp

lemma run_pipeline_no_usages:
  assumes "map_order_ok (we_order env)" and "\<forall>m\<in>set (en_Matchers (wr_ensemble w)). is_matcher m True"
    and "in_Usages inp = []"
  shows "fst (run_pipeline env msg inp w) = w"
proof (cases "validateInputs inp")
  case None
  obtain cs where "run_matchers (en_Matchers (wr_ensemble w)) inp [] [] = Inr (cs, [])"
    using run_matchers_no_usages[OF assms(2,3), of "[]" "[]"] by blast
  then show ?thesis by (simp add: run_pipeline_def Run_def None Let_def Combine_empty[OF assms(1)])
next
  case (Some e)
  then show ?thesis by (simp add: run_pipeline_def Run_def)
qed

lemma processOnce_worker:
  assumes "map_order_ok (we_order env)" and "\<forall>m\<in>set (en_Matchers (wr_ensemble w)). is_matcher m True"
  shows "fst (processOnce env attempt job w) = w"
  using run_pipeline_no_usages[OF assms]
  by (simp add: processOnce_def processInvoiceEvent_def processSubscriptionEvent_def split: sum.splits sanitize_error.splits)

lemma Process_worker:
  assumes "map_order_ok (we_order env)" and "\<forall>m\<in>set (en_Matchers (wr_ensemble w)). is_matcher m True"
  shows "pr_worker (Process conv env job w) = w"
  by (simp add: Process_once processOnce_worker[OF assms])

section \<open>The backoff\<close>

text \<open>With a positive base and a nonnegative bound below \<open>2 ^ 53\<close> nanoseconds (104 days) the float
  computation is exact: the backoff is \<open>min (base * 2 ^ n) max\<close>, for every attempt.\<close>

lemma scaled_backoff:
  assumes b: "0 < b" "b < 2 ^ 53" and m: "0 \<le> m" "m < 2 ^ 53"
  shows "(if f_less (Fin (of_int m)) (f_mul (Fin (of_int b)) (pow_two n)) then Fin (of_int m)
      else f_mul (Fin (of_int b)) (pow_two n)) = Fin (of_int (min (b * 2 ^ n) m))"
proof (cases "b * 2 ^ n \<le> m")
  case True
  have "(2::int) ^ n \<le> b * 2 ^ n" using b by simp
  then have "(2::int) ^ n < 2 ^ 53" using True m by linarith
  then have "n < 53" by (metis one_less_numeral_iff power_less_imp_less_exp semiring_norm(76))
  have "(of_int b * 2 ^ n :: rat) = of_int (b * 2 ^ n)" by simp
  also have "\<dots> \<le> of_int m" using True by (simp only: of_int_le_iff)
  finally have le: "(of_int b * 2 ^ n :: rat) \<le> of_int m" .
  have "(of_int m :: rat) < of_int (2 ^ 53)" using m by (simp only: of_int_less_iff)
  then have "\<bar>of_int b * 2 ^ n :: rat\<bar> \<le> 2 ^ 64" using le b by (simp add: abs_of_pos)
  then have "f_mul (Fin (of_int b)) (pow_two n) = Fin (of_int b * 2 ^ n)"
    using \<open>n < 53\<close> b rnd_scaled[of b n] by (simp add: pow_two_def to_f64_small)
  with le True show ?thesis by (simp add: min_def)
next
  case False
  then have "(of_int m :: rat) < of_int (b * 2 ^ n)" by (simp only: of_int_less_iff)
  then have lt: "(of_int m :: rat) < of_int b * 2 ^ n" by simp
  have "f_less (Fin (of_int m)) (f_mul (Fin (of_int b)) (pow_two n))"
  proof (cases "n < 1024")
    case True
    have "- f_max \<le> (0 :: rat)" "0 \<le> (of_int b * 2 ^ n :: rat)" using b by (simp_all add: f_max_def)
    then have "\<not> (of_int b * 2 ^ n :: rat) < - f_max" by linarith
    with True lt b rnd_scaled[of b n] show ?thesis by (simp add: pow_two_def to_f64_def Let_def)
  next
    case False
    then show ?thesis using b by (simp add: pow_two_def f_signed_inf_def)
  qed
  with False show ?thesis by (simp add: min_def)
qed

lemma calculateBackoff_exact:
  assumes "0 < sint (rt_BaseBackoff cfg)" "sint (rt_BaseBackoff cfg) < 2 ^ 53"
    and "0 \<le> sint (rt_MaxBackoff cfg)" "sint (rt_MaxBackoff cfg) < 2 ^ 53"
  shows "sint (calculateBackoff conv cfg n) = min (sint (rt_BaseBackoff cfg) * 2 ^ n) (sint (rt_MaxBackoff cfg))"
proof -
  let ?v = "min (sint (rt_BaseBackoff cfg) * 2 ^ n) (sint (rt_MaxBackoff cfg))"
  have v: "0 \<le> ?v" "?v < 2 ^ 53" using assms by (simp_all add: min_def)
  have "calculateBackoff conv cfg n = f64_to_int64 conv (Fin (of_int ?v))"
    unfolding calculateBackoff_def Let_def
    using assms scaled_backoff[OF assms(1,2,3,4), of n] by (simp only: f_of_int64_small abs_of_nonneg abs_of_pos)
  also have "\<dots> = word_of_int ?v" using v by (intro f64_to_int64_int) simp_all
  finally show ?thesis using v by (simp only:) (rule sint_in_range, simp_all)
qed

section \<open>The job loop after a shutdown\<close>

text \<open>\<open>Shutdown\<close> closes the job channel and the loop has no test for that: once the buffer is drained
  every receive yields the zero job, whose type is not supported.\<close>

lemma closed_loop_spins:
  "hd_closed h \<Longrightarrow> hd_jobs h = [] \<Longrightarrow>
     processJobs process (replicate n JobReady) h w = (True, h, ((\<lambda>w. fst (process zero_job w)) ^^ n) w)"
  by (induction n arbitrary: w) (simp_all add: recv_job_def funpow_swap1[of "\<lambda>w. fst (process zero_job w)"])

lemma zero_job_ignored: "pr_label (Process conv env zero_job w) = Some ''ignored'' \<and> pr_worker (Process conv env zero_job w) = w"
  by (simp add: Process_def zero_job_def SupportedEventTypes_def)

lemma drain_eq: "drain process js w = fold (\<lambda>job w. fst (process job w)) js w"
  by (induction js arbitrary: w) simp_all

end
