(* ===== verification/Command_Handlers.thy ===== *)
theory Command_Handlers
  imports Go_Float
begin

text \<open>
  The command handlers of \<open>internal/polling/handlers.go\<close> and \<open>internal/control/handlers.go\<close>, over the
  interface \<open>AgentController\<close> both packages declare. The interface is the record \<open>controller\<close>; what
  its client relies on is the locale \<open>mode_controller\<close>, interpreted on the agent in theory Agent.
\<close>

text \<open>What \<open>encoding/json\<close> decodes into an \<open>interface{}\<close>.\<close>

datatype json_value =
    JNull | JBool bool | JNumber f64 | JString string | JArray "json_value list" | JObject "(string \<times> json_value) list"

type_synonym params = "string \<rightharpoonup> json_value"

text \<open>\<^verbatim>\<open>s, ok := params[key].(string)\<close>\<close>

definition string_param :: "params \<Rightarrow> string \<Rightarrow> string option" where
  "string_param ps key = (case ps key of Some (JString s) \<Rightarrow> Some s | _ \<Rightarrow> None)"

record ('s, 'e) controller =
  c_Stop :: "'s \<Rightarrow> 'e option \<times> 's"
  c_Restart :: "'s \<Rightarrow> 'e option \<times> 's"
  c_SwitchMode :: "string \<Rightarrow> 's \<Rightarrow> 'e option \<times> 's"
  c_GetMode :: "'s \<Rightarrow> string"

datatype 'e command_error =
    ModeRequired | InvalidMode string | SwitchModeFailed 'e | RestartFailed 'e | StopFailed 'e
  | VersionRequired | UpgradeNotImplemented string | ShutdownInProgress

definition HandleSwitchMode :: "('s, 'e) controller \<Rightarrow> params \<Rightarrow> 's \<Rightarrow> 'e command_error option \<times> 's" where
  "HandleSwitchMode c ps s =
     (case string_param ps ''mode'' of None \<Rightarrow> (Some ModeRequired, s)
      | Some mode \<Rightarrow>
          if mode = [] then (Some ModeRequired, s)
          else if mode \<noteq> ''strict'' \<and> mode \<noteq> ''passthrough'' then (Some (InvalidMode mode), s)
          else if c_GetMode c s = mode then (None, s)
          else (case c_SwitchMode c mode s of
              (Some err, s') \<Rightarrow> (Some (SwitchModeFailed err), s') | (None, s') \<Rightarrow> (None, s')))"

definition HandleRestart :: "('s, 'e) controller \<Rightarrow> params \<Rightarrow> 's \<Rightarrow> 'e command_error option \<times> 's" where
  "HandleRestart c ps s = (case c_Restart c s of
     (Some err, s') \<Rightarrow> (Some (RestartFailed err), s') | (None, s') \<Rightarrow> (None, s'))"

definition HandleUpgrade :: "params \<Rightarrow> 's \<Rightarrow> 'e command_error option \<times> 's" where
  "HandleUpgrade ps s =
     (case string_param ps ''version'' of None \<Rightarrow> (Some VersionRequired, s)
      | Some version \<Rightarrow> if version = [] then (Some VersionRequired, s) else (Some (UpgradeNotImplemented version), s))"

section \<open>The control channel's handlers\<close>

text \<open>\<open>control.Handlers\<close> adds the flag \<open>shutdownInProgress\<close> around stop and restart; its mode and
  upgrade handlers are those of the polling package.\<close>

record 's Handlers =
  hs_shutdownInProgress :: bool
  hs_agent :: 's

definition guarded :: "('s \<Rightarrow> 'e option \<times> 's) \<Rightarrow> ('e \<Rightarrow> 'e command_error) \<Rightarrow> 's Handlers \<Rightarrow> 'e command_error option \<times> 's Handlers" where
  "guarded f wrap hs =
     (if hs_shutdownInProgress hs then (Some ShutdownInProgress, hs)
      else case f (hs_agent hs) of (err, s') \<Rightarrow>
        (map_option wrap err, hs\<lparr>hs_agent := s', hs_shutdownInProgress := False\<rparr>))"

definition control_HandleStop :: "('s, 'e) controller \<Rightarrow> params \<Rightarrow> 's Handlers \<Rightarrow> 'e command_error option \<times> 's Handlers" where
  "control_HandleStop c ps hs = guarded (c_Stop c) StopFailed hs"

definition control_HandleStart :: "params \<Rightarrow> 's Handlers \<Rightarrow> 'e command_error option \<times> 's Handlers" where
  "control_HandleStart ps hs = (None, hs)"

definition control_HandleRestart :: "('s, 'e) controller \<Rightarrow> params \<Rightarrow> 's Handlers \<Rightarrow> 'e command_error option \<times> 's Handlers" where
  "control_HandleRestart c ps hs = guarded (c_Restart c) RestartFailed hs"

definition on_agent :: "('s \<Rightarrow> 'r \<times> 's) \<Rightarrow> 's Handlers \<Rightarrow> 'r \<times> 's Handlers" where
  "on_agent f hs = (case f (hs_agent hs) of (r, s') \<Rightarrow> (r, hs\<lparr>hs_agent := s'\<rparr>))"

definition control_HandleSwitchMode :: "('s, 'e) controller \<Rightarrow> params \<Rightarrow> 's Handlers \<Rightarrow> 'e command_error option \<times> 's Handlers" where
  "control_HandleSwitchMode c ps hs =
     (case string_param ps ''mode'' of None \<Rightarrow> (Some ModeRequired, hs)
      | Some mode \<Rightarrow>
          if mode = [] then (Some ModeRequired, hs)
          else if mode \<noteq> ''strict'' \<and> mode \<noteq> ''passthrough'' then (Some (InvalidMode mode), hs)
          else if c_GetMode c (hs_agent hs) = mode then (None, hs)
          else (case c_SwitchMode c mode (hs_agent hs) of (err, s') \<Rightarrow>
              (map_option SwitchModeFailed err, hs\<lparr>hs_agent := s'\<rparr>)))"

definition control_HandleUpgrade :: "params \<Rightarrow> 's Handlers \<Rightarrow> 'e command_error option \<times> 's Handlers" where
  "control_HandleUpgrade ps hs =
     (case string_param ps ''version'' of None \<Rightarrow> (Some VersionRequired, hs)
      | Some version \<Rightarrow> if version = [] then (Some VersionRequired, hs) else (Some (UpgradeNotImplemented version), hs))"

lemma control_switch_mode_agrees: "control_HandleSwitchMode c ps = on_agent (HandleSwitchMode c ps)"
  by (auto simp: fun_eq_iff control_HandleSwitchMode_def HandleSwitchMode_def on_agent_def
      split: option.splits prod.splits)

lemma guarded_flag: "guarded f wrap hs = (r, hs') \<Longrightarrow> hs_shutdownInProgress hs' = hs_shutdownInProgress hs"
  by (auto simp: guarded_def split: if_splits prod.splits)

section \<open>The interface\<close>

definition mode_ok :: "string \<Rightarrow> bool" where
  "mode_ok m \<longleftrightarrow> m = ''strict'' \<or> m = ''passthrough''"

locale mode_controller =
  fixes c :: "('s, 'e) controller"
  assumes switch_ok: "c_SwitchMode c m s = (None, s') \<Longrightarrow> mode_ok m \<and> c_GetMode c s' = m"
    and switch_failed: "c_SwitchMode c m s = (Some e, s') \<Longrightarrow> c_GetMode c s' = c_GetMode c s"
begin

text \<open>A switch command that succeeds leaves the controller in the requested mode; one that fails leaves
  the mode as it was.\<close>

lemma handle_ok:
  assumes "HandleSwitchMode c ps s = (None, s')"
  shows "\<exists>m. string_param ps ''mode'' = Some m \<and> mode_ok m \<and> c_GetMode c s' = m"
  using assms switch_ok
  by (auto simp: HandleSwitchMode_def mode_ok_def split: option.splits if_splits prod.splits)

lemma handle_failed:
  assumes "HandleSwitchMode c ps s = (Some e, s')"
  shows "c_GetMode c s' = c_GetMode c s"
  using assms switch_failed by (auto simp: HandleSwitchMode_def split: option.splits if_splits prod.splits)

lemma handle_keeps_valid:
  assumes "HandleSwitchMode c ps s = (r, s')" and "mode_ok (c_GetMode c s)"
  shows "mode_ok (c_GetMode c s')"
  using assms handle_ok handle_failed by (cases r) fastforce+

text \<open>Repeating a command that succeeded changes nothing.\<close>

lemma handle_idempotent:
  assumes "HandleSwitchMode c ps s = (None, s')"
  shows "HandleSwitchMode c ps s' = (None, s')"
  using handle_ok[OF assms] by (auto simp: HandleSwitchMode_def mode_ok_def)

end

end
