(* ===== verification/Go_Files.thy ===== *)
theory Go_Files
  imports Go_Text
begin

text \<open>
  Files and paths: the parts of \<open>os\<close> and \<open>path/filepath\<close> (on Unix) that the agent uses. The files
  are a map from paths to contents; which calls fail is the argument \<open>faults\<close>.
\<close>

type_synonym files = "string \<rightharpoonup> bytes"

record faults =
  ft_mkdir :: "string \<Rightarrow> bool"
  ft_read :: "string \<Rightarrow> bool"
  ft_open :: "string \<Rightarrow> bool"
  ft_write :: "string \<Rightarrow> nat option"
  ft_rename :: bool
  ft_remove :: bool

definition no_faults :: faults where
  "no_faults = \<lparr>ft_mkdir = (\<lambda>_. False), ft_read = (\<lambda>_. False), ft_open = (\<lambda>_. False),
     ft_write = (\<lambda>_. None), ft_rename = False, ft_remove = False\<rparr>"

datatype read_result = ReadOk bytes | NotExist | ReadFailed

definition ReadFile :: "faults \<Rightarrow> string \<Rightarrow> files \<Rightarrow> read_result" where
  "ReadFile ft path fs = (case fs path of None \<Rightarrow> NotExist
     | Some d \<Rightarrow> if ft_read ft path then ReadFailed else ReadOk d)"

text \<open>\<open>os.WriteFile\<close> truncates and then writes; a failing write leaves a prefix.\<close>

definition WriteFile :: "faults \<Rightarrow> string \<Rightarrow> bytes \<Rightarrow> files \<Rightarrow> bool \<times> files" where
  "WriteFile ft path d fs =
     (if ft_open ft path then (False, fs)
      else case ft_write ft path of Some n \<Rightarrow> (False, fs(path \<mapsto> take n d)) | None \<Rightarrow> (True, fs(path \<mapsto> d)))"

definition Rename :: "faults \<Rightarrow> string \<Rightarrow> string \<Rightarrow> files \<Rightarrow> bool \<times> files" where
  "Rename ft old new fs = (case fs old of None \<Rightarrow> (False, fs)
     | Some d \<Rightarrow> if ft_rename ft then (False, fs) else (True, (fs(old := None))(new \<mapsto> d)))"

definition Remove :: "faults \<Rightarrow> string \<Rightarrow> files \<Rightarrow> files" where
  "Remove ft path fs = (if ft_remove ft then fs else fs(path := None))"

section \<open>Paths\<close>

text \<open>\<open>filepath.Clean\<close>: the element stack, innermost first.\<close>

fun clean_elems :: "bool \<Rightarrow> string list \<Rightarrow> string list \<Rightarrow> string list" where
  "clean_elems rooted stack [] = rev stack"
| "clean_elems rooted stack (e # es) =
     (if e = [] \<or> e = ''.'' then clean_elems rooted stack es
      else if e = ''..'' then
        (case stack of
           s # ss \<Rightarrow> if s = ''..'' then clean_elems rooted (e # stack) es else clean_elems rooted ss es
         | [] \<Rightarrow> if rooted then clean_elems rooted [] es else clean_elems rooted [e] es)
      else clean_elems rooted (e # stack) es)"

definition Clean :: "string \<Rightarrow> string" where
  "Clean path =
     (let rooted = (case path of c # _ \<Rightarrow> c = CHR ''/'' | [] \<Rightarrow> False);
          body = join ''/'' (clean_elems rooted [] (split_all CHR ''/'' path))
      in if rooted then ''/'' @ body else if body = [] then ''.'' else body)"

definition Dir :: "string \<Rightarrow> string" where
  "Dir path = Clean (rev (dropWhile (\<lambda>c. c \<noteq> CHR ''/'') (rev path)))"

definition Join2 :: "string \<Rightarrow> string \<Rightarrow> string" where
  "Join2 a b =
     (if a \<noteq> [] then (if b \<noteq> [] then Clean (a @ ''/'' @ b) else Clean a)
      else if b \<noteq> [] then Clean b else [])"

lemma ReadFile_write:
  "WriteFile ft path d fs = (True, fs') \<Longrightarrow> \<not> ft_read ft' path \<Longrightarrow> ReadFile ft' path fs' = ReadOk d"
  by (auto simp: WriteFile_def ReadFile_def split: if_splits option.splits)

lemma WriteFile_other: "WriteFile ft path d fs = (b, fs') \<Longrightarrow> p \<noteq> path \<Longrightarrow> fs' p = fs p"
  by (auto simp: WriteFile_def split: if_splits option.splits)

lemma clean_example: "Dir ''/var/lib/connektn/agent-state.json'' = ''/var/lib/connektn''"
    "Join2 ''/home/u'' ''.connektn/agent-id'' = ''/home/u/.connektn/agent-id''" "Join2 ''/home/u/'' ''../x'' = ''/home/x''"
  by (simp_all add: Dir_def Join2_def Clean_def split_all.simps)

end
