(* ===== verification/Agent_State.thy ===== *)
theory Agent_State
  imports Go_Files Go_Encoding
begin

text \<open>
  \<open>internal/state/state.go\<close>, the persisted runtime state, and \<open>internal/agentid/agentid.go\<close>, the agent's
  identity on disk. The JSON encoding of the state record is an argument; files, their faults, the
  home directory and the random bytes are arguments as well.
\<close>

section \<open>The state manager\<close>

record AgentState =
  as_PrivacyMode :: string

record Manager =
  mg_filePath :: string
  mg_state :: AgentState

datatype state_error =
    PathRequired | StateDirFailed | StateReadFailed | StateParseFailed
  | StateMarshalFailed | TempWriteFailed | StateRenameFailed | InvalidPrivacyMode string

text \<open>\<open>json.MarshalIndent\<close> and \<open>json.Unmarshal\<close> (which fills an existing value) for the state.\<close>

record state_codec =
  sc_marshal :: "AgentState \<Rightarrow> bytes option"
  sc_unmarshal :: "bytes \<Rightarrow> AgentState \<Rightarrow> AgentState option"

definition codec_roundtrip :: "state_codec \<Rightarrow> bool" where
  "codec_roundtrip sc \<longleftrightarrow> (\<forall>st. as_PrivacyMode st \<in> {[], ''strict'', ''passthrough''} \<longrightarrow>
     (\<exists>d. sc_marshal sc st = Some d \<and> (\<forall>old. as_PrivacyMode old = [] \<longrightarrow> sc_unmarshal sc d old = Some st)))"

definition tmp_path :: "Manager \<Rightarrow> string" where
  "tmp_path m = mg_filePath m @ ''.tmp''"

definition Load_state :: "faults \<Rightarrow> state_codec \<Rightarrow> files \<Rightarrow> Manager \<Rightarrow> state_error option \<times> Manager" where
  "Load_state ft sc fs m =
     (case ReadFile ft (mg_filePath m) fs of
        NotExist \<Rightarrow> (None, m\<lparr>mg_state := \<lparr>as_PrivacyMode = []\<rparr>\<rparr>)
      | ReadFailed \<Rightarrow> (Some StateReadFailed, m)
      | ReadOk d \<Rightarrow> (case sc_unmarshal sc d (mg_state m) of
            None \<Rightarrow> (Some StateParseFailed, m)
          | Some st \<Rightarrow> (None, m\<lparr>mg_state := st\<rparr>)))"

definition NewManager :: "faults \<Rightarrow> state_codec \<Rightarrow> files \<Rightarrow> string \<Rightarrow> state_error + Manager" where
  "NewManager ft sc fs filePath =
     (if filePath = [] then Inl PathRequired
      else let m = \<lparr>mg_filePath = filePath, mg_state = \<lparr>as_PrivacyMode = []\<rparr>\<rparr>
      in if ft_mkdir ft (Dir filePath) then Inl StateDirFailed
         else (case Load_state ft sc fs m of (Some err, _) \<Rightarrow> Inl err | (None, m') \<Rightarrow> Inr m'))"

definition Save :: "faults \<Rightarrow> state_codec \<Rightarrow> Manager \<Rightarrow> files \<Rightarrow> state_error option \<times> files" where
  "Save ft sc m fs =
     (case sc_marshal sc (mg_state m) of None \<Rightarrow> (Some StateMarshalFailed, fs)
      | Some d \<Rightarrow> (case WriteFile ft (tmp_path m) d fs of
            (False, fs1) \<Rightarrow> (Some TempWriteFailed, fs1)
          | (True, fs1) \<Rightarrow> (case Rename ft (tmp_path m) (mg_filePath m) fs1 of
                (False, fs2) \<Rightarrow> (Some StateRenameFailed, Remove ft (tmp_path m) fs2)
              | (True, fs2) \<Rightarrow> (None, fs2))))"

definition GetPrivacyMode :: "Manager \<Rightarrow> string" where
  "GetPrivacyMode m = as_PrivacyMode (mg_state m)"

definition SetPrivacyMode :: "faults \<Rightarrow> state_codec \<Rightarrow> string \<Rightarrow> Manager \<Rightarrow> files \<Rightarrow> state_error option \<times> Manager \<times> files" where
  "SetPrivacyMode ft sc mode m fs =
     (if mode \<noteq> [] \<and> mode \<noteq> ''strict'' \<and> mode \<noteq> ''passthrough'' then (Some (InvalidPrivacyMode mode), m, fs)
      else let m' = m\<lparr>mg_state := (mg_state m)\<lparr>as_PrivacyMode := mode\<rparr>\<rparr>
           in case Save ft sc m' fs of (err, fs') \<Rightarrow> (err, m', fs'))"

definition GetState :: "Manager \<Rightarrow> AgentState" where
  "GetState m = mg_state m"

subsection \<open>Atomicity\<close>

text \<open>The states of the disk that a crash during \<open>Save\<close> can leave behind: each prefix of the
  temporary file's write, and the result.\<close>

definition save_crash_states :: "faults \<Rightarrow> state_codec \<Rightarrow> Manager \<Rightarrow> files \<Rightarrow> files set" where
  "save_crash_states ft sc m fs = {fs, snd (Save ft sc m fs)}
     \<union> (case sc_marshal sc (mg_state m) of None \<Rightarrow> {} | Some d \<Rightarrow> {fs(tmp_path m \<mapsto> take n d) | n. True})"

lemma tmp_path_neq [simp]: "tmp_path m \<noteq> mg_filePath m" "mg_filePath m \<noteq> tmp_path m"
  by (simp_all add: tmp_path_def)

lemma Save_target:
  assumes "Save ft sc m fs = (err, fs')"
  shows "fs' (mg_filePath m) = (if err = None then sc_marshal sc (mg_state m) else fs (mg_filePath m))"
  using assms WriteFile_other[of ft "tmp_path m" _ fs _ _ "mg_filePath m"]
  by (auto simp: Save_def Rename_def Remove_def WriteFile_def split: option.splits if_splits)

lemma Save_atomic:
  assumes "fs' \<in> save_crash_states ft sc m fs"
  shows "fs' (mg_filePath m) = fs (mg_filePath m)
    \<or> (\<exists>d. sc_marshal sc (mg_state m) = Some d \<and> fs' (mg_filePath m) = Some d)"
proof -
  obtain err fs1 where s: "Save ft sc m fs = (err, fs1)" by force
  have "err = None \<Longrightarrow> sc_marshal sc (mg_state m) \<noteq> None" using s by (auto simp: Save_def split: option.splits)
  then show ?thesis
    using assms Save_target[OF s] s by (auto simp: save_crash_states_def split: option.splits if_splits)
qed

text \<open>The listed states are no others than \<open>Save\<close> itself leaves when the step at which it crashes fails: opening the
  temporary file, or writing it after some bytes.\<close>

lemma save_crash_states_faults: "save_crash_states ft sc m fs \<subseteq> {snd (Save ft' sc m fs) | ft'. True}"
proof -
  have "snd (Save (ft\<lparr>ft_open := \<lambda>_. True\<rparr>) sc m fs) = fs"
    by (simp add: Save_def WriteFile_def split: option.splits)
  moreover have "sc_marshal sc (mg_state m) = Some d \<Longrightarrow>
      snd (Save (ft\<lparr>ft_open := \<lambda>_. False, ft_write := \<lambda>_. Some n\<rparr>) sc m fs) = fs(tmp_path m \<mapsto> take n d)" for d n
    by (simp add: Save_def WriteFile_def)
  ultimately show ?thesis by (auto simp: save_crash_states_def split: option.splits) metis+
qed

text \<open>What a restart reads after a successful \<open>SetPrivacyMode\<close>.\<close>

lemma SetPrivacyMode_restart:
  assumes "codec_roundtrip sc" and "SetPrivacyMode ft sc mode m fs = (None, m', fs')"
    and "mg_filePath m \<noteq> []" and "\<not> ft_mkdir ft' (Dir (mg_filePath m))" "\<not> ft_read ft' (mg_filePath m)"
  shows "\<exists>m''. NewManager ft' sc fs' (mg_filePath m) = Inr m'' \<and> GetPrivacyMode m'' = mode"
proof -
  have mode: "mode \<in> {[], ''strict'', ''passthrough''}" using assms(2) by (auto simp: SetPrivacyMode_def split: if_splits)
  have m': "mg_filePath m' = mg_filePath m" "as_PrivacyMode (mg_state m') = mode" and s: "Save ft sc m' fs = (None, fs')"
    using assms(2) by (auto simp: SetPrivacyMode_def Let_def split: if_splits prod.splits)
  obtain d where d: "sc_marshal sc (mg_state m') = Some d"
    "sc_unmarshal sc d \<lparr>as_PrivacyMode = []\<rparr> = Some (mg_state m')"
    using assms(1) mode m'(2) unfolding codec_roundtrip_def by fastforce
  have "fs' (mg_filePath m) = Some d" using Save_target[OF s] d(1) m'(1) by simp
  with assms(3,4,5) d m' show ?thesis
    by (simp add: NewManager_def Load_state_def ReadFile_def GetPrivacyMode_def)
qed

text \<open>A failed \<open>SetPrivacyMode\<close> leaves the file alone; unless the mode was refused, the manager keeps
  the new mode in memory.\<close>

lemma SetPrivacyMode_failed:
  assumes "SetPrivacyMode ft sc mode m fs = (Some err, m', fs')"
  shows "fs' (mg_filePath m) = fs (mg_filePath m)
    \<and> (GetPrivacyMode m' = mode \<or> err = InvalidPrivacyMode mode \<and> m' = m)"
proof (cases "mode \<noteq> [] \<and> mode \<noteq> ''strict'' \<and> mode \<noteq> ''passthrough''")
  case True
  with assms show ?thesis by (auto simp: SetPrivacyMode_def)
next
  case False
  let ?m = "m\<lparr>mg_state := (mg_state m)\<lparr>as_PrivacyMode := mode\<rparr>\<rparr>"
  have "Save ft sc ?m fs = (Some err, fs')" "m' = ?m"
    using assms False by (auto simp: SetPrivacyMode_def Let_def split: prod.splits)
  with Save_target[of ft sc ?m fs] show ?thesis by (auto simp: GetPrivacyMode_def)
qed

section \<open>The agent's identity\<close>

record Generator =
  gn_storagePath :: string

datatype id_error = IDReadFailed | IDEmpty | IDInvalid string | RandomFailed | IDDirFailed | IDWriteFailed

definition DefaultStoragePath :: string where
  "DefaultStoragePath = ''~/.connektn/agent-id''"

definition expandHomeDir :: "string option \<Rightarrow> string \<Rightarrow> string" where
  "expandHomeDir home path =
     (if \<not> has_prefix path ''~'' then path
      else case home of None \<Rightarrow> path
        | Some homeDir \<Rightarrow> if path = ''~'' then homeDir else Join2 homeDir (drop 2 path))"

definition NewGenerator :: "string option \<Rightarrow> string \<Rightarrow> Generator" where
  "NewGenerator home storagePath =
     \<lparr>gn_storagePath = expandHomeDir home (if storagePath = [] then DefaultStoragePath else storagePath)\<rparr>"

definition generate :: "bytes option \<Rightarrow> id_error + string" where
  "generate rand = (case rand of None \<Rightarrow> Inl RandomFailed | Some b \<Rightarrow> Inr (''agent_'' @ hex_encode b))"

definition read_id :: "faults \<Rightarrow> files \<Rightarrow> Generator \<Rightarrow> id_error + string" where
  "read_id ft fs g =
     (case ReadFile ft (gn_storagePath g) fs of
        ReadOk d \<Rightarrow> (let ident = trim_space d
           in if ident = [] then Inl IDEmpty
              else if \<not> has_prefix ident ''agent_'' then Inl (IDInvalid ident) else Inr ident)
      | _ \<Rightarrow> Inl IDReadFailed)"

definition write_id :: "faults \<Rightarrow> string \<Rightarrow> Generator \<Rightarrow> files \<Rightarrow> id_error option \<times> files" where
  "write_id ft ident g fs =
     (if ft_mkdir ft (Dir (gn_storagePath g)) then (Some IDDirFailed, fs)
      else case WriteFile ft (gn_storagePath g) ident fs of
          (False, fs') \<Rightarrow> (Some IDWriteFailed, fs') | (True, fs') \<Rightarrow> (None, fs'))"

definition GetOrCreate :: "faults \<Rightarrow> bytes option \<Rightarrow> Generator \<Rightarrow> files \<Rightarrow> (id_error + string) \<times> files" where
  "GetOrCreate ft rand g fs =
     (case read_id ft fs g of Inr ident \<Rightarrow> (Inr ident, fs)
      | Inl _ \<Rightarrow> (case generate rand of Inl err \<Rightarrow> (Inl err, fs)
          | Inr ident \<Rightarrow> (case write_id ft ident g fs of
                (Some err, fs') \<Rightarrow> (Inl err, fs') | (None, fs') \<Rightarrow> (Inr ident, fs'))))"

definition GetOrCreateDefault :: "string option \<Rightarrow> faults \<Rightarrow> bytes option \<Rightarrow> files \<Rightarrow> (id_error + string) \<times> files" where
  "GetOrCreateDefault home ft rand fs = GetOrCreate ft rand (NewGenerator home []) fs"

text \<open>A generated identifier survives the trimming and the format check of \<open>read\<close>.\<close>

lemma agent_id_trim: "trim_space (''agent_'' @ hex_encode b) = ''agent_'' @ hex_encode b"
proof (rule trim_space_id)
  show "printable (last (''agent_'' @ hex_encode b))"
  proof (cases "b = []")
    case True
    then show ?thesis by (simp add: printable_def)
  next
    case False
    then have ne: "hex_encode b \<noteq> []" by (cases b) simp_all
    from hex_encode_lower[OF last_in_set[OF ne]] obtain d where "d < 16" "last (hex_encode b) = hex_digit d"
      by (auto simp: is_lower_hex_def)
    then have "48 \<le> (of_char (last (hex_encode b)) :: nat) \<and> of_char (last (hex_encode b)) < (127 :: nat)"
      by (simp add: hex_digit_def)
    then have "printable (last (hex_encode b))" by (auto simp: printable_def)
    with ne show ?thesis by (simp add: last_append)
  qed
qed (simp_all add: printable_def)

text \<open>The identity is stable: once \<open>GetOrCreate\<close> has returned an identifier, every later call on the
  same files returns it, whatever the random source does.\<close>

lemma read_id_generated:
  "fs (gn_storagePath g) = Some (''agent_'' @ hex_encode b) \<Longrightarrow> \<not> ft_read ft (gn_storagePath g) \<Longrightarrow>
     read_id ft fs g = Inr (''agent_'' @ hex_encode b)"
  unfolding read_id_def ReadFile_def Let_def by (simp only: option.case if_False read_result.case agent_id_trim) (simp add: has_prefix_def)

lemma GetOrCreate_stable:
  assumes "GetOrCreate ft rand g fs = (Inr ident, fs')" and "\<not> ft_read ft' (gn_storagePath g)"
  shows "GetOrCreate ft' rand' g fs' = (Inr ident, fs')"
proof (cases "read_id ft fs g")
  case (Inr i)
  then have i: "i = ident" "fs' = fs" using assms(1) by (simp_all add: GetOrCreate_def)
  from Inr obtain d where "ReadFile ft (gn_storagePath g) fs = ReadOk d"
    by (auto simp: read_id_def split: read_result.splits)
  then have "ReadFile ft' (gn_storagePath g) fs = ReadOk d"
    using assms(2) by (auto simp: ReadFile_def split: option.splits if_splits)
  with \<open>ReadFile ft _ fs = ReadOk d\<close> have "read_id ft' fs g = read_id ft fs g" by (simp add: read_id_def)
  with Inr i show ?thesis by (simp add: GetOrCreate_def)
next
  case (Inl e)
  then obtain b where b: "ident = ''agent_'' @ hex_encode b" "write_id ft ident g fs = (None, fs')"
    using assms(1) by (auto simp: GetOrCreate_def generate_def split: option.splits prod.splits)
  then have "fs' (gn_storagePath g) = Some ident"
    by (auto simp: write_id_def WriteFile_def split: if_splits option.splits)
  then have "read_id ft' fs' g = Inr ident" unfolding b(1) by (rule read_id_generated[OF _ assms(2)])
  then show ?thesis by (simp add: GetOrCreate_def)
qed

text \<open>One failed read replaces it, although the file is intact.\<close>

lemma GetOrCreate_unreadable:
  assumes "ft_read ft (gn_storagePath g)"
  shows "GetOrCreate ft None g fs = (Inl RandomFailed, fs)"
    and "\<not> ft_mkdir ft (Dir (gn_storagePath g)) \<Longrightarrow> \<not> ft_open ft (gn_storagePath g) \<Longrightarrow> ft_write ft (gn_storagePath g) = None \<Longrightarrow>
      GetOrCreate ft (Some b) g fs = (Inr (''agent_'' @ hex_encode b), fs(gn_storagePath g \<mapsto> ''agent_'' @ hex_encode b))"
  using assms by (simp_all add: GetOrCreate_def read_id_def ReadFile_def generate_def write_id_def WriteFile_def split: option.splits)

lemma GetOrCreate_format: "GetOrCreate ft rand g fs = (Inr ident, fs') \<Longrightarrow> has_prefix ident ''agent_''"
  by (auto simp: GetOrCreate_def generate_def read_id_def Let_def has_prefix_def split: sum.splits read_result.splits if_splits option.splits prod.splits)

end
