(* ===== verification/Agent.thy ===== *)
theory Agent
  imports Command_Handlers Agent_State Go_Time
begin

text \<open>
  \<open>internal/agent/agent.go\<close>: the agent's identity, its privacy mode and its shutdown hook. The agent
  lives together with the files its state manager writes (\<open>agent_world\<close>).
\<close>

record Agent =
  ag_id :: string
  ag_organizationID :: string
  ag_version :: string
  ag_startTime :: int
  ag_mode :: string
  ag_stateManager :: "Manager option"
  ag_shutdownFn :: bool

record AgentOptions =
  ao_AgentID :: string
  ao_OrganizationID :: string
  ao_Version :: string
  ao_InitialMode :: string
  ao_StateManager :: "Manager option"

datatype agent_error =
    AgentIDRequired | OrganizationRequired | BadMode string | PersistFailed state_error | NoShutdownFn

definition initial_mode :: "AgentOptions \<Rightarrow> string" where
  "initial_mode cfg =
     (let mode = (case ao_StateManager cfg of None \<Rightarrow> ao_InitialMode cfg
            | Some m \<Rightarrow> if GetPrivacyMode m \<noteq> [] then GetPrivacyMode m else ao_InitialMode cfg)
      in if mode = [] then ''strict'' else mode)"

definition New_agent :: "int \<Rightarrow> AgentOptions \<Rightarrow> agent_error + Agent" where
  "New_agent now cfg =
     (if ao_AgentID cfg = [] then Inl AgentIDRequired
      else if ao_OrganizationID cfg = [] then Inl OrganizationRequired
      else let version = (if ao_Version cfg = [] then ''dev'' else ao_Version cfg); mode = initial_mode cfg
           in if mode \<noteq> ''strict'' \<and> mode \<noteq> ''passthrough'' then Inl (BadMode mode)
              else Inr \<lparr>ag_id = ao_AgentID cfg, ag_organizationID = ao_OrganizationID cfg, ag_version = version,
                     ag_startTime = now, ag_mode = mode, ag_stateManager = ao_StateManager cfg, ag_shutdownFn = False\<rparr>)"

record agent_world =
  aw_agent :: Agent
  aw_files :: files
  aw_cancelled :: bool

definition agent_ID :: "agent_world \<Rightarrow> string" where
  "agent_ID w = ag_id (aw_agent w)"

definition agent_OrganizationID :: "agent_world \<Rightarrow> string" where
  "agent_OrganizationID w = ag_organizationID (aw_agent w)"

definition agent_Version :: "agent_world \<Rightarrow> string" where
  "agent_Version w = ag_version (aw_agent w)"

definition GetMode :: "agent_world \<Rightarrow> string" where
  "GetMode w = ag_mode (aw_agent w)"

definition Uptime :: "int \<Rightarrow> agent_world \<Rightarrow> i64" where
  "Uptime now w = time_sub now (ag_startTime (aw_agent w))"

definition SwitchMode :: "faults \<Rightarrow> state_codec \<Rightarrow> string \<Rightarrow> agent_world \<Rightarrow> agent_error option \<times> agent_world" where
  "SwitchMode ft sc mode w =
     (if mode \<noteq> ''strict'' \<and> mode \<noteq> ''passthrough'' then (Some (BadMode mode), w)
      else let oldMode = ag_mode (aw_agent w); a = (aw_agent w)\<lparr>ag_mode := mode\<rparr>
           in case ag_stateManager a of None \<Rightarrow> (None, w\<lparr>aw_agent := a\<rparr>)
            | Some m \<Rightarrow> (case SetPrivacyMode ft sc mode m (aw_files w) of
                (Some err, m', fs') \<Rightarrow> (Some (PersistFailed err),
                   w\<lparr>aw_agent := a\<lparr>ag_stateManager := Some m', ag_mode := oldMode\<rparr>, aw_files := fs'\<rparr>)
              | (None, m', fs') \<Rightarrow> (None, w\<lparr>aw_agent := a\<lparr>ag_stateManager := Some m'\<rparr>, aw_files := fs'\<rparr>)))"

definition SetShutdownFunc :: "agent_world \<Rightarrow> agent_world" where
  "SetShutdownFunc w = w\<lparr>aw_agent := (aw_agent w)\<lparr>ag_shutdownFn := True\<rparr>\<rparr>"

definition Stop :: "agent_world \<Rightarrow> agent_error option \<times> agent_world" where
  "Stop w = (if \<not> ag_shutdownFn (aw_agent w) then (Some NoShutdownFn, w) else (None, w\<lparr>aw_cancelled := True\<rparr>))"

definition Restart :: "agent_world \<Rightarrow> agent_error option \<times> agent_world" where
  "Restart w = Stop w"

definition agent_controller :: "faults \<Rightarrow> state_codec \<Rightarrow> (agent_world, agent_error) controller" where
  "agent_controller ft sc = \<lparr>c_Stop = Stop, c_Restart = Restart, c_SwitchMode = SwitchMode ft sc, c_GetMode = GetMode\<rparr>"

lemma agent_controller_simps [simp]:
  "c_SwitchMode (agent_controller ft sc) = SwitchMode ft sc" "c_GetMode (agent_controller ft sc) = GetMode"
  "c_Restart (agent_controller ft sc) = Restart" "c_Stop (agent_controller ft sc) = Stop"
  by (simp_all add: agent_controller_def)

section \<open>Modes\<close>

lemma New_agent_mode: "New_agent now cfg = Inr a \<Longrightarrow> mode_ok (ag_mode a)"
  by (auto simp: New_agent_def mode_ok_def Let_def split: if_splits)

lemma SwitchMode_ok:
  assumes "SwitchMode ft sc mode w = (None, w')"
  shows "mode_ok mode" "GetMode w' = mode"
  using assms by (auto simp: SwitchMode_def mode_ok_def GetMode_def Let_def split: if_splits option.splits prod.splits)

lemma SwitchMode_failed:
  assumes "SwitchMode ft sc mode w = (Some err, w')"
  shows "GetMode w' = GetMode w"
  using assms by (auto simp: SwitchMode_def GetMode_def Let_def split: if_splits option.splits prod.splits)

interpretation agent_mode: mode_controller "agent_controller ft sc" for ft sc
  by unfold_locales (auto dest: SwitchMode_ok SwitchMode_failed)

text \<open>The mode in memory, the state manager and the file agree after a successful switch; after a failed
  one the file is unchanged.\<close>

definition persisted :: "state_codec \<Rightarrow> agent_world \<Rightarrow> bool" where
  "persisted sc w \<longleftrightarrow> (case ag_stateManager (aw_agent w) of None \<Rightarrow> True
     | Some m \<Rightarrow> GetPrivacyMode m = GetMode w \<and> aw_files w (mg_filePath m) = sc_marshal sc (mg_state m))"

lemma SwitchMode_persisted: "SwitchMode ft sc mode w = (None, w') \<Longrightarrow> persisted sc w'"
  by (auto simp: SwitchMode_def persisted_def GetMode_def Let_def SetPrivacyMode_def GetPrivacyMode_def
      dest!: Save_target split: if_splits option.splits prod.splits)

lemma SwitchMode_failed_file:
  assumes "SwitchMode ft sc mode w = (Some err, w')" and "ag_stateManager (aw_agent w) = Some m"
  shows "aw_files w' (mg_filePath m) = aw_files w (mg_filePath m)"
  using assms by (auto simp: SwitchMode_def Let_def dest!: SetPrivacyMode_failed split: if_splits prod.splits option.splits)

text \<open>A restarted agent comes up in the mode of the last successful switch, whatever the configuration
  says.\<close>

lemma SwitchMode_restart:
  assumes sc: "codec_roundtrip sc" and sw: "SwitchMode ft sc mode w = (None, w')"
    and m: "ag_stateManager (aw_agent w) = Some m" "mg_filePath m \<noteq> []"
    and ft': "\<not> ft_mkdir ft' (Dir (mg_filePath m))" "\<not> ft_read ft' (mg_filePath m)"
    and cfg: "ao_AgentID cfg \<noteq> []" "ao_OrganizationID cfg \<noteq> []"
  shows "\<exists>m'' a. NewManager ft' sc (aw_files w') (mg_filePath m) = Inr m''
    \<and> New_agent now (cfg\<lparr>ao_StateManager := Some m''\<rparr>) = Inr a \<and> ag_mode a = mode"
proof -
  have ok: "mode_ok mode" by (rule SwitchMode_ok[OF sw])
  obtain m' where "SetPrivacyMode ft sc mode m (aw_files w) = (None, m', aw_files w')"
    using sw m(1) by (auto simp: SwitchMode_def Let_def split: if_splits prod.splits option.splits)
  from SetPrivacyMode_restart[OF sc this m(2) ft'] obtain m'' where
    "NewManager ft' sc (aw_files w') (mg_filePath m) = Inr m''" "GetPrivacyMode m'' = mode" by blast
  with ok cfg show ?thesis by (auto simp: New_agent_def initial_mode_def mode_ok_def)
qed

end
