(* ===== verification/Heartbeat.thy ===== *)
theory Heartbeat
  imports Agent Exporter Go_Sha256 Go_Duration
begin

text \<open>
  \<open>internal/heartbeat/heartbeat.go\<close> and \<open>internal/agent/heartbeat_sender.go\<close>: the heartbeat payload, the
  request signature over \<open>timestamp|nonce|body\<close>, and the sender. The JSON encoding of a payload, the
  random bytes, the clock and the server's reply are arguments. The two readings of the clock within \<open>NewPayload\<close>
  are one value.
\<close>

section \<open>Payloads and signatures\<close>

record QueueMetrics =
  qm_Depth :: int
  qm_DLQSize :: int
  qm_DroppedCount :: u64
  qm_RetryCount :: int

record Payload =
  pl_AgentID :: string
  pl_OrganizationID :: string
  pl_Version :: string
  pl_Uptime :: i64
  pl_Mode :: string
  pl_QueueDepth :: int
  pl_DLQSize :: int
  pl_DroppedCount :: u64
  pl_RetryCount :: int
  pl_LastFlushTS :: i64
  pl_Timestamp :: i64
  pl_Signature :: string

datatype heartbeat_error =
    HBSecretEmpty | SecretNotBase64 | HBMarshalFailed | NonceFailed | BadRequest | SendFailed
  | HBStatus int | EndpointRequired | SecretRequired

definition sign_message :: "i64 \<Rightarrow> string \<Rightarrow> bytes \<Rightarrow> bytes" where
  "sign_message timestamp nonce body = dec_int (sint timestamp) @ ''|'' @ nonce @ ''|'' @ body"

definition SignRequest :: "string \<Rightarrow> i64 \<Rightarrow> string \<Rightarrow> bytes \<Rightarrow> heartbeat_error + string" where
  "SignRequest secret timestamp nonce body =
     (if secret = [] then Inl HBSecretEmpty
      else case b64_decode secret of None \<Rightarrow> Inl SecretNotBase64
        | Some key \<Rightarrow> Inr (b64_encode (hmac_sha256 key (sign_message timestamp nonce body))))"

definition payload_Sign :: "(Payload \<Rightarrow> bytes option) \<Rightarrow> string \<Rightarrow> Payload \<Rightarrow> heartbeat_error + Payload" where
  "payload_Sign marshal secret p =
     (if secret = [] then Inl HBSecretEmpty
      else case marshal (p\<lparr>pl_Signature := []\<rparr>) of None \<Rightarrow> Inl HBMarshalFailed
        | Some d \<Rightarrow> Inr (p\<lparr>pl_Signature := b64_encode (hmac_sha256 secret d)\<rparr>))"

definition payload_Verify :: "(Payload \<Rightarrow> bytes option) \<Rightarrow> string \<Rightarrow> Payload \<Rightarrow> bool" where
  "payload_Verify marshal secret p =
     (if secret = [] \<or> pl_Signature p = [] then False
      else case b64_decode (pl_Signature p) of None \<Rightarrow> False
        | Some receivedSig \<Rightarrow> (case marshal (p\<lparr>pl_Signature := []\<rparr>) of None \<Rightarrow> False
            | Some d \<Rightarrow> receivedSig = hmac_sha256 secret d))"

definition NewPayload :: "int \<Rightarrow> string \<Rightarrow> string \<Rightarrow> string \<Rightarrow> int \<Rightarrow> string \<Rightarrow> QueueMetrics \<Rightarrow> int \<Rightarrow> Payload" where
  "NewPayload now agentID orgID version startTime mode metrics lastFlushTS =
     \<lparr>pl_AgentID = agentID, pl_OrganizationID = orgID, pl_Version = version,
      pl_Uptime = trunc_f64 (duration_seconds (time_sub now startTime)), pl_Mode = mode,
      pl_QueueDepth = qm_Depth metrics, pl_DLQSize = qm_DLQSize metrics, pl_DroppedCount = qm_DroppedCount metrics,
      pl_RetryCount = qm_RetryCount metrics, pl_LastFlushTS = unix_seconds lastFlushTS,
      pl_Timestamp = unix_seconds now, pl_Signature = []\<rparr>"

section \<open>Signed requests\<close>

text \<open>The request that the heartbeat sender and the command poller build.\<close>

record signed_request =
  sr_URL :: string
  sr_Body :: bytes
  sr_Timestamp :: string
  sr_Nonce :: string
  sr_Signature :: string

datatype http_reply = Reply int "bytes option" | NoReply

text \<open>One exchange with a server: the clock before and after it, the random bytes, whether the URL parses, the reply to
  the request, and whether the context of the request is done before it is sent.\<close>

record net_env =
  ne_now :: int
  ne_after :: int
  ne_random :: "bytes option"
  ne_url_ok :: "string \<Rightarrow> bool"
  ne_done :: bool
  ne_reply :: "signed_request \<Rightarrow> http_reply"

text \<open>\<open>http.Client.Do\<close>: under a context that is done nothing is sent. The second component is the request sent.\<close>

definition client_Do :: "net_env \<Rightarrow> signed_request \<Rightarrow> http_reply \<times> signed_request option" where
  "client_Do env req = (if ne_done env then (NoReply, None) else (ne_reply env req, Some req))"

text \<open>The exchange under a context that may be done.\<close>

definition under :: "bool \<Rightarrow> net_env \<Rightarrow> net_env" where
  "under finished env = env\<lparr>ne_done := ne_done env \<or> finished\<rparr>"

lemma under_simps [simp]:
  "ne_now (under b env) = ne_now env" "ne_after (under b env) = ne_after env" "ne_random (under b env) = ne_random env"
  "ne_url_ok (under b env) = ne_url_ok env" "ne_done (under b env) \<longleftrightarrow> ne_done env \<or> b" "ne_reply (under b env) = ne_reply env"
  "under False env = env"
  by (simp_all add: under_def)

section \<open>The sender\<close>

record HeartbeatSender =
  hb_endpoint :: string
  hb_interval :: i64
  hb_secret :: string
  hb_lastFlushTimestamp :: int

definition NewHeartbeatSender :: "int \<Rightarrow> string \<Rightarrow> i64 \<Rightarrow> string \<Rightarrow> heartbeat_error + HeartbeatSender" where
  "NewHeartbeatSender now endpoint interval secret =
     (if endpoint = [] then Inl EndpointRequired
      else if secret = [] then Inl SecretRequired
      else Inr \<lparr>hb_endpoint = endpoint, hb_interval = (if sint interval \<le> 0 then seconds 30 else interval),
             hb_secret = secret, hb_lastFlushTimestamp = now\<rparr>)"

definition gather_metrics :: "Exporter option \<Rightarrow> QueueMetrics" where
  "gather_metrics sink = (case sink of
     None \<Rightarrow> \<lparr>qm_Depth = 0, qm_DLQSize = 0, qm_DroppedCount = 0, qm_RetryCount = 0\<rparr>
   | Some x \<Rightarrow> \<lparr>qm_Depth = int (Depth x), qm_DLQSize = int (DLQSize x), qm_DroppedCount = DroppedCount x, qm_RetryCount = 0\<rparr>)"

text \<open>One heartbeat: the error, the sender afterwards and the request posted, if it came to that.\<close>

definition sendHeartbeat :: "(Payload \<Rightarrow> bytes option) \<Rightarrow> net_env \<Rightarrow> Agent \<Rightarrow> Exporter option \<Rightarrow> HeartbeatSender
    \<Rightarrow> heartbeat_error option \<times> HeartbeatSender \<times> signed_request option" where
  "sendHeartbeat marshal env a sink s =
     (let payload = NewPayload (ne_now env) (ag_id a) (ag_organizationID a) (ag_version a) (ag_startTime a)
            (ag_mode a) (gather_metrics sink) (hb_lastFlushTimestamp s)
      in (case marshal payload of None \<Rightarrow> (Some HBMarshalFailed, s, None)
      | Some body \<Rightarrow> (case ne_random env of None \<Rightarrow> (Some NonceFailed, s, None)
      | Some nonceBytes \<Rightarrow>
          let nonce = b64_encode nonceBytes
          in (case SignRequest (hb_secret s) (pl_Timestamp payload) nonce body of Inl err \<Rightarrow> (Some err, s, None)
          | Inr signature \<Rightarrow>
              if \<not> ne_url_ok env (hb_endpoint s) then (Some BadRequest, s, None)
              else let req = \<lparr>sr_URL = hb_endpoint s, sr_Body = body, sr_Timestamp = dec_int (sint (pl_Timestamp payload)),
                     sr_Nonce = nonce, sr_Signature = signature\<rparr>
                   in (case client_Do env req of (NoReply, sent) \<Rightarrow> (Some SendFailed, s, sent)
                   | (Reply code _, sent) \<Rightarrow> if code < 200 \<or> 300 \<le> code then (Some (HBStatus code), s, sent)
                       else (None, s\<lparr>hb_lastFlushTimestamp := ne_after env\<rparr>, sent))))))"

text \<open>\<open>Start\<close>: one heartbeat at once, one per tick, until the context ends. Errors are logged.\<close>

datatype ticker_event = Tick | Done

fun heartbeat_ticks :: "(Payload \<Rightarrow> bytes option) \<Rightarrow> (nat \<Rightarrow> net_env) \<Rightarrow> Agent \<Rightarrow> Exporter option \<Rightarrow> nat \<Rightarrow> ticker_event list
    \<Rightarrow> HeartbeatSender \<Rightarrow> HeartbeatSender \<times> signed_request list" where
  "heartbeat_ticks marshal env a sink n [] s = (s, [])"
| "heartbeat_ticks marshal env a sink n (Done # _) s = (s, [])"
| "heartbeat_ticks marshal env a sink n (Tick # evs) s =
     (case sendHeartbeat marshal (env n) a sink s of (_, s1, req) \<Rightarrow>
        (case heartbeat_ticks marshal env a sink (Suc n) evs s1 of (s2, reqs) \<Rightarrow>
          (s2, (case req of None \<Rightarrow> reqs | Some r \<Rightarrow> r # reqs))))"

definition Start_heartbeat :: "(Payload \<Rightarrow> bytes option) \<Rightarrow> (nat \<Rightarrow> net_env) \<Rightarrow> Agent \<Rightarrow> Exporter option \<Rightarrow> ticker_event list
    \<Rightarrow> HeartbeatSender \<Rightarrow> HeartbeatSender \<times> signed_request list" where
  "Start_heartbeat marshal env a sink evs s = heartbeat_ticks marshal env a sink 0 (Tick # evs) s"

section \<open>Signatures\<close>

text \<open>The signed message determines the timestamp, the nonce and the body, for the base64 nonces the
  agent generates.\<close>

lemma dec_int_no_bar: "CHR ''|'' \<notin> set (dec_int i)"
  by (rule dec_int_no) (simp_all add: is_digit_def)

lemma sign_message_inject:
  "sign_message t (b64_encode n) b = sign_message t' (b64_encode n') b' \<longleftrightarrow> t = t' \<and> n = n' \<and> b = b'"
proof -
  have "sign_message t (b64_encode n) b = sign_message t' (b64_encode n') b'
      \<longleftrightarrow> dec_int (sint t) = dec_int (sint t') \<and> b64_encode n @ CHR ''|'' # b = b64_encode n' @ CHR ''|'' # b'"
    using sep_frame_inject[OF dec_int_no_bar[of "sint t"] dec_int_no_bar[of "sint t'"]]
    by (simp add: sign_message_def)
  also have "\<dots> \<longleftrightarrow> t = t' \<and> n = n' \<and> b = b'"
    using sep_frame_inject[OF b64_encode_no_bar[of n] b64_encode_no_bar[of n'], of b b'] by (auto simp: signed_word_eqI)
  finally show ?thesis .
qed

lemma payload_Sign_Verify: "payload_Sign marshal secret p = Inr p' \<Longrightarrow> payload_Verify marshal secret p'"
  by (auto simp: payload_Sign_def payload_Verify_def split: if_splits option.splits)

lemma payload_Verify_iff:
  "payload_Verify marshal secret p \<longleftrightarrow> secret \<noteq> [] \<and> (\<exists>d. marshal (p\<lparr>pl_Signature := []\<rparr>) = Some d
     \<and> b64_decode (pl_Signature p) = Some (hmac_sha256 secret d))"
proof -
  have "b64_decode [] = Some []" using b64_decode_encode[of "[]"] by simp
  then show ?thesis by (auto simp: payload_Verify_def split: option.splits)
qed

lemma SignRequest_Inr: "SignRequest secret t n b = Inr sig \<longleftrightarrow> secret \<noteq> [] \<and>
    (\<exists>key. b64_decode secret = Some key \<and> sig = b64_encode (hmac_sha256 key (sign_message t n b)))"
  by (auto simp: SignRequest_def split: option.splits)

text \<open>Every posted heartbeat is signed over its own headers and body, and the flush time moves only
  when the server accepted it.\<close>

lemma sendHeartbeat_posted:
  assumes "sendHeartbeat marshal env a sink s = (err, s', Some req)"
  shows "sr_URL req = hb_endpoint s"
    and "SignRequest (hb_secret s) (unix_seconds (ne_now env)) (sr_Nonce req) (sr_Body req) = Inr (sr_Signature req)"
    and "sr_Timestamp req = dec_int (sint (unix_seconds (ne_now env)))"
    and "err = None \<longleftrightarrow> (\<exists>code b. ne_reply env req = Reply code b \<and> 200 \<le> code \<and> code < 300)"
    and "hb_lastFlushTimestamp s' = (if err = None then ne_after env else hb_lastFlushTimestamp s)"
  using assms
  by (auto simp: sendHeartbeat_def client_Do_def Let_def NewPayload_def split: option.splits sum.splits if_splits http_reply.splits)

lemma sendHeartbeat_silent:
  "sendHeartbeat marshal env a sink s = (err, s', None) \<Longrightarrow> err \<noteq> None \<and> s' = s"
  by (auto simp: sendHeartbeat_def client_Do_def Let_def split: option.splits sum.splits if_splits http_reply.splits)

lemma heartbeat_ticks_count:
  "length (snd (heartbeat_ticks marshal env a sink n evs s)) \<le> length (takeWhile (\<lambda>e. e = Tick) evs)"
  by (induction marshal env a sink n evs s rule: heartbeat_ticks.induct)
    (fastforce split: prod.splits option.splits)+

end
