(* ===== verification/Polling.thy ===== *)
theory Polling
  imports Heartbeat
begin

text \<open>
  \<open>internal/polling/poller.go\<close>: the command poller. A poll is a signed request whose reply may carry a
  command; the command is executed by its handler and the outcome acknowledged by a second signed
  request. After a success the poller polls again at once; that recursion has no bound of its own, so
  \<open>pollOnce\<close> takes fuel. When it runs out, \<open>pollOnce\<close> returns what it did and the state it reached, marked as
  not ended: every prefix of a cycle that does not end is the result for some fuel.

  The JSON encodings, the network and the texts of handler errors are arguments. \<open>env k\<close> is the world
  at the k-th network exchange: poll number n uses \<open>env (2 * n)\<close>, its acknowledgement \<open>env (2 * n + 1)\<close>. \<open>ctx s\<close> says
  whether the state's own commands have cancelled the poller's context; \<open>ne_done\<close> is a cancellation from outside.
\<close>

record poll_command =
  pc_CommandID :: string
  pc_Command :: string
  pc_Params :: params

record PollRequest =
  pq_AgentID :: string
  pq_OrganizationID :: string

record AckRequest =
  aq_AgentID :: string
  aq_OrganizationID :: string
  aq_CommandID :: string
  aq_Status :: string
  aq_Message :: string

type_synonym ('s, 'e) CommandHandler = "params \<Rightarrow> 's \<Rightarrow> 'e option \<times> 's"

record ('s, 'e) Poller =
  po_cdpBaseURL :: string
  po_agentID :: string
  po_organizationID :: string
  po_secret :: string
  po_interval :: i64
  po_timeout :: i64
  po_handlers :: "string \<rightharpoonup> ('s, 'e) CommandHandler"

record PollerConfig =
  pf_CDPBaseURL :: string
  pf_AgentID :: string
  pf_OrganizationID :: string
  pf_Secret :: string
  pf_Interval :: i64
  pf_Timeout :: i64

record poll_codec =
  px_poll :: "PollRequest \<Rightarrow> bytes option"
  px_ack :: "AckRequest \<Rightarrow> bytes option"
  px_command :: "bytes \<Rightarrow> poll_command option"

datatype poller_error = BaseURLRequired | PollerAgentIDRequired | PollerOrgRequired | ControlSecretRequired

definition NewPoller :: "PollerConfig \<Rightarrow> poller_error + ('s, 'e) Poller" where
  "NewPoller cfg =
     (if pf_CDPBaseURL cfg = [] then Inl BaseURLRequired
      else if pf_AgentID cfg = [] then Inl PollerAgentIDRequired
      else if pf_OrganizationID cfg = [] then Inl PollerOrgRequired
      else if pf_Secret cfg = [] then Inl ControlSecretRequired
      else Inr \<lparr>po_cdpBaseURL = pf_CDPBaseURL cfg, po_agentID = pf_AgentID cfg, po_organizationID = pf_OrganizationID cfg,
             po_secret = pf_Secret cfg,
             po_interval = (if sint (pf_Interval cfg) \<le> 0 then seconds 30 else pf_Interval cfg),
             po_timeout = (if sint (pf_Timeout cfg) \<le> 0 then seconds 10 else pf_Timeout cfg),
             po_handlers = Map.empty\<rparr>)"

definition RegisterHandler :: "string \<Rightarrow> ('s, 'e) CommandHandler \<Rightarrow> ('s, 'e) Poller \<Rightarrow> ('s, 'e) Poller" where
  "RegisterHandler cmdType handler p = p\<lparr>po_handlers := (po_handlers p)(cmdType \<mapsto> handler)\<rparr>"

definition generateNonce :: "bytes option \<Rightarrow> string option" where
  "generateNonce rand = map_option b64_encode rand"

datatype poll_error =
    PollMarshalFailed | PollRequestFailed | PollNonceFailed | PollSignFailed heartbeat_error
  | PollSendFailed | PollStatus int "bytes option" | PollReadFailed | PollDecodeFailed

text \<open>Building and signing one request, the part the two calls share.\<close>

definition signed :: "('s, 'e) Poller \<Rightarrow> net_env \<Rightarrow> string \<Rightarrow> bytes \<Rightarrow> poll_error + signed_request" where
  "signed p env url body =
     (if \<not> ne_url_ok env url then Inl PollRequestFailed
      else case generateNonce (ne_random env) of None \<Rightarrow> Inl PollNonceFailed
        | Some nonce \<Rightarrow> (case SignRequest (po_secret p) (unix_seconds (ne_now env)) nonce body of
              Inl err \<Rightarrow> Inl (PollSignFailed err)
            | Inr signature \<Rightarrow> Inr \<lparr>sr_URL = url, sr_Body = body,
                sr_Timestamp = dec_int (sint (unix_seconds (ne_now env))), sr_Nonce = nonce, sr_Signature = signature\<rparr>))"

definition poll_reply :: "poll_codec \<Rightarrow> http_reply \<Rightarrow> poll_error + poll_command option" where
  "poll_reply px reply =
     (case reply of NoReply \<Rightarrow> Inl PollSendFailed
      | Reply code body \<Rightarrow>
          if code = 204 then Inr None
          else if code \<noteq> 200 then Inl (PollStatus code body)
          else (case body of None \<Rightarrow> Inl PollReadFailed
            | Some b \<Rightarrow> (case px_command px b of None \<Rightarrow> Inl PollDecodeFailed
                | Some cmd \<Rightarrow> (if pc_CommandID cmd = [] \<or> pc_Command cmd = [] then Inr None else Inr (Some cmd)))))"

definition poll :: "poll_codec \<Rightarrow> net_env \<Rightarrow> ('s, 'e) Poller \<Rightarrow> (poll_error + poll_command option) \<times> signed_request option" where
  "poll px env p =
     (case px_poll px \<lparr>pq_AgentID = po_agentID p, pq_OrganizationID = po_organizationID p\<rparr> of
        None \<Rightarrow> (Inl PollMarshalFailed, None)
      | Some body \<Rightarrow> (case signed p env (po_cdpBaseURL p @ ''/api/agent/command/poll'') body of
            Inl err \<Rightarrow> (Inl err, None)
          | Inr req \<Rightarrow> (case client_Do env req of (reply, sent) \<Rightarrow> (poll_reply px reply, sent))))"

definition ack_request :: "('s, 'e) Poller \<Rightarrow> string \<Rightarrow> string \<Rightarrow> string \<Rightarrow> AckRequest" where
  "ack_request p commandID status message =
     \<lparr>aq_AgentID = po_agentID p, aq_OrganizationID = po_organizationID p, aq_CommandID = commandID,
      aq_Status = status, aq_Message = message\<rparr>"

text \<open>\<open>acknowledge\<close> only logs its errors; the result is the request it sent, if any.\<close>

definition acknowledge :: "poll_codec \<Rightarrow> net_env \<Rightarrow> ('s, 'e) Poller \<Rightarrow> AckRequest \<Rightarrow> signed_request option" where
  "acknowledge px env p ack =
     (case px_ack px ack of None \<Rightarrow> None
      | Some body \<Rightarrow> (case signed p env (po_cdpBaseURL p @ ''/api/agent/command/result'') body of
            Inl _ \<Rightarrow> None | Inr req \<Rightarrow> snd (client_Do env req)))"

datatype 'e exec_error = UnknownCommandType string | HandlerError 'e

definition executeCommand :: "('s, 'e) Poller \<Rightarrow> poll_command \<Rightarrow> 's \<Rightarrow> 'e exec_error option \<times> 's" where
  "executeCommand p cmd s =
     (case po_handlers p (pc_Command cmd) of None \<Rightarrow> (Some (UnknownCommandType (pc_Command cmd)), s)
      | Some handler \<Rightarrow> (case handler (pc_Params cmd) s of (err, s') \<Rightarrow> (map_option HandlerError err, s')))"

datatype 'e poll_event =
    Polled "signed_request option" | Executed poll_command "'e exec_error option"
  | Acknowledged AckRequest "signed_request option"

fun pollOnce :: "nat \<Rightarrow> ('e exec_error \<Rightarrow> string) \<Rightarrow> poll_codec \<Rightarrow> (nat \<Rightarrow> net_env) \<Rightarrow> ('s \<Rightarrow> bool) \<Rightarrow> ('s, 'e) Poller \<Rightarrow> nat \<Rightarrow> 's
    \<Rightarrow> bool \<times> 'e poll_event list \<times> 's" where
  "pollOnce 0 show_err px env ctx p n s = (False, [], s)"
| "pollOnce (Suc fuel) show_err px env ctx p n s =
     (case poll px (under (ctx s) (env (2 * n))) p of
        (Inl err, req) \<Rightarrow> (True, [Polled req], s)
      | (Inr None, req) \<Rightarrow> (True, [Polled req], s)
      | (Inr (Some cmd), req) \<Rightarrow>
          (case executeCommand p cmd s of
             (Some err, s') \<Rightarrow>
               let ack = ack_request p (pc_CommandID cmd) ''error'' (show_err err)
               in (True, [Polled req, Executed cmd (Some err),
                     Acknowledged ack (acknowledge px (under (ctx s') (env (2 * n + 1))) p ack)], s')
           | (None, s') \<Rightarrow>
               let ack = ack_request p (pc_CommandID cmd) ''success'' []
               in (case pollOnce fuel show_err px env ctx p (Suc n) s' of (ended, evs, s'') \<Rightarrow>
                     (ended, Polled req # Executed cmd None
                        # Acknowledged ack (acknowledge px (under (ctx s') (env (2 * n + 1))) p ack) # evs, s''))))"

text \<open>\<open>Start\<close>: one cycle at once and one per tick until the context ends. \<open>env c\<close> is the network during
  cycle number c; a cycle that outran its fuel is the last one.\<close>

fun poll_ticks :: "nat \<Rightarrow> ('e exec_error \<Rightarrow> string) \<Rightarrow> poll_codec \<Rightarrow> (nat \<Rightarrow> nat \<Rightarrow> net_env) \<Rightarrow> ('s \<Rightarrow> bool) \<Rightarrow> ('s, 'e) Poller
    \<Rightarrow> nat \<Rightarrow> ticker_event list \<Rightarrow> 's \<Rightarrow> 's" where
  "poll_ticks fuel show_err px env ctx p c [] s = s"
| "poll_ticks fuel show_err px env ctx p c (Done # _) s = s"
| "poll_ticks fuel show_err px env ctx p c (Tick # evs) s =
     (case pollOnce fuel show_err px (env c) ctx p 0 s of
        (False, _, s') \<Rightarrow> s' | (True, _, s') \<Rightarrow> poll_ticks fuel show_err px env ctx p (Suc c) evs s')"

definition Start_poller :: "nat \<Rightarrow> ('e exec_error \<Rightarrow> string) \<Rightarrow> poll_codec \<Rightarrow> (nat \<Rightarrow> nat \<Rightarrow> net_env) \<Rightarrow> ('s \<Rightarrow> bool) \<Rightarrow> ('s, 'e) Poller
    \<Rightarrow> ticker_event list \<Rightarrow> 's \<Rightarrow> 's" where
  "Start_poller fuel show_err px env ctx p evs s = poll_ticks fuel show_err px env ctx p 0 (Tick # evs) s"

text \<open>The command the server has for poll number n, under a context that is not cancelled.\<close>

definition polled_command :: "poll_codec \<Rightarrow> (nat \<Rightarrow> net_env) \<Rightarrow> ('s, 'e) Poller \<Rightarrow> nat \<Rightarrow> poll_command option" where
  "polled_command px env p n = (case fst (poll px (env (2 * n)) p) of Inr c \<Rightarrow> c | Inl _ \<Rightarrow> None)"

section \<open>Termination\<close>

lemma poll_done: "ne_done env \<Longrightarrow> \<exists>err. poll px env p = (Inl err, None)"
  by (simp add: poll_def client_Do_def poll_reply_def split: option.splits sum.splits)

lemma poll_under: "poll px (under b env) p = (r, req) \<Longrightarrow> r = Inr (Some cmd) \<Longrightarrow> \<not> b \<and> \<not> ne_done env \<and> req \<noteq> None \<and> fst (poll px env p) = Inr (Some cmd)"
  by (auto simp: poll_def client_Do_def poll_reply_def signed_def split: option.splits sum.splits if_splits)

text \<open>A cycle ends as soon as one poll brings no command.\<close>

lemma pollOnce_terminates:
  assumes "polled_command px env p (n + k) = None" and "k < fuel"
  shows "fst (pollOnce fuel show_err px env ctx p n s)"
  using assms
proof (induction fuel arbitrary: n k s)
  case (Suc fuel)
  obtain r req where po: "poll px (under (ctx s) (env (2 * n))) p = (r, req)" by force
  show ?case
  proof (cases "\<exists>cmd. r = Inr (Some cmd)")
    case False
    with po show ?thesis by (cases r) (auto split: option.splits)
  next
    case True
    then obtain cmd where cmd: "r = Inr (Some cmd)" by blast
    from poll_under[OF po cmd] have "polled_command px env p n = Some cmd" by (simp add: polled_command_def)
    then obtain j where k: "k = Suc j" using Suc.prems(1) by (cases k) auto
    have "fst (pollOnce fuel show_err px env ctx p (Suc n) s')" for s'
      using Suc.IH[of "Suc n" j s'] Suc.prems k by simp
    with po cmd show ?thesis by (auto simp: Let_def split: prod.splits option.splits) (metis fst_conv)
  qed
qed simp

section \<open>Acknowledgements\<close>

text \<open>The request that acknowledges a command, and the reasons for which none is sent: the body does not marshal, the
  URL does not parse, no random bytes, an unusable secret, or a context that is done.\<close>

definition ack_sent :: "poll_codec \<Rightarrow> net_env \<Rightarrow> ('s, 'e) Poller \<Rightarrow> AckRequest \<Rightarrow> signed_request \<Rightarrow> bool" where
  "ack_sent px env p ack req \<longleftrightarrow> sr_URL req = po_cdpBaseURL p @ ''/api/agent/command/result'' \<and> px_ack px ack = Some (sr_Body req)
     \<and> sr_Timestamp req = dec_int (sint (unix_seconds (ne_now env)))
     \<and> SignRequest (po_secret p) (unix_seconds (ne_now env)) (sr_Nonce req) (sr_Body req) = Inr (sr_Signature req)"

definition ack_blocked :: "poll_codec \<Rightarrow> net_env \<Rightarrow> ('s, 'e) Poller \<Rightarrow> AckRequest \<Rightarrow> bool" where
  "ack_blocked px env p ack \<longleftrightarrow> ne_done env \<or> px_ack px ack = None \<or> \<not> ne_url_ok env (po_cdpBaseURL p @ ''/api/agent/command/result'')
     \<or> ne_random env = None \<or> po_secret p = [] \<or> b64_decode (po_secret p) = None"

text \<open>In the trace of a cycle the last poll brings no command, or was not sent; every execution follows the poll that brought the command, is done by the command's handler and
  is followed at once by its acknowledgement, which carries its identifier and the status of its outcome and is
  sent unless something blocks it; after a success the trace goes on, after a failure it is over.\<close>

fun acked :: "poll_codec \<Rightarrow> (nat \<Rightarrow> net_env) \<Rightarrow> ('s \<Rightarrow> bool) \<Rightarrow> ('s, 'e) Poller \<Rightarrow> nat \<Rightarrow> 's \<Rightarrow> 'e poll_event list \<Rightarrow> bool" where
  "acked px env ctx p n s [] = False"
| "acked px env ctx p n s [Polled _] = (ctx s \<or> polled_command px env p n = None)"
| "acked px env ctx p n s (Polled sent # Executed cmd err # Acknowledged ack req # evs) =
     (let s' = snd (executeCommand p cmd s); net = under (ctx s') (env (2 * n + 1))
      in sent \<noteq> None \<and> polled_command px env p n = Some cmd \<and> \<not> ctx s \<and> err = fst (executeCommand p cmd s)
        \<and> aq_CommandID ack = pc_CommandID cmd \<and> aq_Status ack = (if err = None then ''success'' else ''error'')
        \<and> (case req of None \<Rightarrow> ack_blocked px net p ack | Some r \<Rightarrow> \<not> ack_blocked px net p ack \<and> ack_sent px net p ack r)
        \<and> (if err \<noteq> None then evs = [] else acked px env ctx p (Suc n) s' evs))"
| "acked px env ctx p n s _ = False"

lemma acknowledge_cases:
  "case acknowledge px env p ack of None \<Rightarrow> ack_blocked px env p ack | Some r \<Rightarrow> \<not> ack_blocked px env p ack \<and> ack_sent px env p ack r"
  by (auto simp: acknowledge_def ack_blocked_def ack_sent_def client_Do_def signed_def generateNonce_def SignRequest_def
      split: option.splits sum.splits if_splits)

lemma pollOnce_acked: "pollOnce fuel show_err px env ctx p n s = (True, evs, s') \<Longrightarrow> acked px env ctx p n s evs"
proof (induction fuel arbitrary: n s evs)
  case (Suc fuel)
  obtain r req where po: "poll px (under (ctx s) (env (2 * n))) p = (r, req)" by force
  show ?case
  proof (cases "\<exists>cmd. r = Inr (Some cmd)")
    case False
    then have "ctx s \<or> polled_command px env p n = None"
      using po by (cases "ctx s") (auto simp: polled_command_def split: sum.splits)
    with False po Suc.prems show ?thesis by (cases r) (auto split: option.splits)
  next
    case True
    then obtain cmd where cmd: "r = Inr (Some cmd)" by blast
    have c: "polled_command px env p n = Some cmd" "\<not> ctx s" "req \<noteq> None"
      using poll_under[OF po cmd] by (simp_all add: polled_command_def)
    obtain err t where ex: "executeCommand p cmd s = (err, t)" by force
    show ?thesis using acknowledge_cases[of px "under (ctx t) (env (Suc (2 * n)))" p] Suc.IH[of "Suc n" t] Suc.prems po cmd c ex
      by (cases err) (auto simp: Let_def ack_request_def split: prod.splits)
  qed
qed simp

text \<open>The handlers run in the order of the polls, and nothing else changes the state.\<close>

fun executed :: "'e poll_event list \<Rightarrow> poll_command list" where
  "executed [] = []"
| "executed (Executed cmd _ # evs) = cmd # executed evs"
| "executed (_ # evs) = executed evs"

lemma pollOnce_state:
  "pollOnce fuel show_err px env ctx p n s = (ended, evs, s') \<Longrightarrow>
     s' = fold (\<lambda>cmd s. snd (executeCommand p cmd s)) (executed evs) s"
proof (induction fuel arbitrary: n s ended evs s')
  case (Suc fuel)
  then show ?case
    by (fastforce simp: Let_def split: prod.splits sum.splits option.splits)
qed simp

text \<open>An invariant of the handlers is an invariant of the poller.\<close>

lemma pollOnce_invariant:
  assumes "I s" and step: "\<And>name h ps t r t'. po_handlers p name = Some h \<Longrightarrow> h ps t = (r, t') \<Longrightarrow> I t \<Longrightarrow> I t'"
  shows "I (snd (snd (pollOnce fuel show_err px env ctx p n s)))"
proof -
  obtain ended evs s' where run: "pollOnce fuel show_err px env ctx p n s = (ended, evs, s')" by (metis prod_cases3)
  have ex: "I t \<Longrightarrow> I (snd (executeCommand p cmd t))" for cmd t
    using step by (auto simp: executeCommand_def split: option.splits prod.splits)
  have "I t \<Longrightarrow> I (fold (\<lambda>cmd s. snd (executeCommand p cmd s)) cmds t)" for cmds t
    by (induction cmds arbitrary: t) (simp_all add: ex)
  then show ?thesis using pollOnce_state[OF run] assms(1) by (simp add: run)
qed

section \<open>Signatures\<close>

lemma signed_Inr:
  assumes "signed p env url body = Inr req"
  shows "sr_URL req = url" "sr_Body req = body" "sr_Timestamp req = dec_int (sint (unix_seconds (ne_now env)))"
    "SignRequest (po_secret p) (unix_seconds (ne_now env)) (sr_Nonce req) body = Inr (sr_Signature req)"
    "\<exists>b. ne_random env = Some b \<and> sr_Nonce req = b64_encode b"
  using assms by (auto simp: signed_def generateNonce_def split: if_splits option.splits sum.splits)

section \<open>The handlers the agent registers\<close>

text \<open>\<open>runWebhookServer\<close> in \<open>main.go\<close> registers these three.\<close>

definition agent_poller :: "faults \<Rightarrow> state_codec \<Rightarrow> (agent_world, agent_error command_error) Poller
    \<Rightarrow> (agent_world, agent_error command_error) Poller" where
  "agent_poller ft sc p =
     RegisterHandler ''upgrade'' HandleUpgrade
       (RegisterHandler ''restart'' (HandleRestart (agent_controller ft sc))
         (RegisterHandler ''switch_mode'' (HandleSwitchMode (agent_controller ft sc)) p))"

lemma agent_handlers_keep_mode:
  assumes "po_handlers p = Map.empty" and "po_handlers (agent_poller ft sc p) name = Some h"
    and "h ps w = (r, w')" and "mode_ok (GetMode w)"
  shows "mode_ok (GetMode w')"
proof -
  from assms(1,2) have "h \<in> {HandleUpgrade, HandleRestart (agent_controller ft sc), HandleSwitchMode (agent_controller ft sc)}"
    by (auto simp: agent_poller_def RegisterHandler_def split: if_splits)
  then consider "h = HandleUpgrade" | "h = HandleRestart (agent_controller ft sc)" | "h = HandleSwitchMode (agent_controller ft sc)"
    by blast
  then show ?thesis
  proof cases
    case 1
    with assms(3,4) show ?thesis by (auto simp: HandleUpgrade_def split: option.splits if_splits)
  next
    case 2
    with assms(3,4) show ?thesis
      by (auto simp: HandleRestart_def Restart_def Stop_def GetMode_def split: option.splits if_splits prod.splits)
  next
    case 3
    with assms(3,4) agent_mode.handle_keeps_valid show ?thesis by fastforce
  qed
qed

lemma agent_poller_mode:
  assumes "po_handlers p = Map.empty" and "mode_ok (GetMode w)"
  shows "mode_ok (GetMode (snd (snd (pollOnce fuel show_err px env ctx (agent_poller ft sc p) n w))))"
  using pollOnce_invariant[of "\<lambda>w. mode_ok (GetMode w)" w "agent_poller ft sc p"] agent_handlers_keep_mode[OF assms(1)] assms(2)
  by blast

lemma poll_ticks_mode:
  assumes "po_handlers p = Map.empty"
  shows "mode_ok (GetMode w) \<Longrightarrow> mode_ok (GetMode (poll_ticks fuel show_err px env ctx (agent_poller ft sc p) c evs w))"
proof (induction evs arbitrary: c w)
  case (Cons e evs)
  show ?case
  proof (cases e)
    case Tick
    obtain b r w1 where p: "pollOnce fuel show_err px (env c) ctx (agent_poller ft sc p) 0 w = (b, r, w1)" by (metis prod_cases3)
    have "mode_ok (GetMode w1)" using agent_poller_mode[OF assms Cons.prems, of fuel show_err px "env c" ctx ft sc 0] by (simp add: p)
    with Cons.IH[of w1] Tick p show ?thesis by (cases b) simp_all
  qed (use Cons.prems in simp)
qed simp

text \<open>The restart command cancels the context its own poller runs under: its acknowledgement is never sent, and the cycle
  ends with a poll that is not sent either.\<close>

lemma restart_unacknowledged:
  assumes "po_handlers p = Map.empty" and "ag_shutdownFn (aw_agent w)" and "\<not> aw_cancelled w"
    and "polled_command px env (agent_poller ft sc p) n = Some cmd" and "pc_Command cmd = ''restart''" and "\<not> ne_done (env (2 * n))"
  shows "\<exists>req ack. pollOnce (Suc (Suc fuel)) show_err px env aw_cancelled (agent_poller ft sc p) n w
    = (True, [Polled req, Executed cmd None, Acknowledged ack None, Polled None], w\<lparr>aw_cancelled := True\<rparr>)"
proof -
  let ?p = "agent_poller ft sc p"
  obtain req where po: "poll px (env (2 * n)) ?p = (Inr (Some cmd), req)"
    using assms(4) by (cases "poll px (env (2 * n)) ?p") (auto simp: polled_command_def split: sum.splits)
  have ex: "executeCommand ?p cmd w = (None, w\<lparr>aw_cancelled := True\<rparr>)"
    using assms(2,5) by (simp add: executeCommand_def agent_poller_def RegisterHandler_def HandleRestart_def agent_controller_def Restart_def Stop_def)
  have a: "acknowledge px (under True e) ?p ack = None" for e ack
    by (simp add: acknowledge_def client_Do_def split: option.splits sum.splits)
  obtain r where pn: "poll px (under True (env (2 * Suc n))) ?p = (Inl r, None)"
    using poll_done[of "under True (env (2 * Suc n))" px ?p] by auto
  show ?thesis using assms(3) po pn by (simp add: ex a Let_def)
qed

end
