(* ===== verification/Stripe_Client.thy ===== *)
theory Stripe_Client
  imports Stripe_Sanitize Go_Duration
begin

text \<open>
  The API half of \<open>internal/connectors/stripe/stripe.go\<close>: the client, its token-bucket rate limiter and
  the list functions. The Stripe API is an argument: what its list iterator yields for given
  parameters, objects or an error. The waiting loop of \<open>acquire\<close> has no bound of its own and takes
  fuel; \<open>clock k\<close> is the time its k-th round reads and \<open>cancelled k\<close> whether the context ends its k-th
  wait. The limiter's mutex makes one round atomic.
\<close>

section \<open>The rate limiter\<close>

record rateLimiter =
  rl_maxRPS :: i64
  rl_tokens :: i64
  rl_lastFill :: int

definition newRateLimiter :: "int \<Rightarrow> i64 \<Rightarrow> rateLimiter" where
  "newRateLimiter now maxRPS = \<lparr>rl_maxRPS = maxRPS, rl_tokens = maxRPS, rl_lastFill = now\<rparr>"

definition tokensToAdd :: "(f64 \<Rightarrow> i64) \<Rightarrow> int \<Rightarrow> rateLimiter \<Rightarrow> i64" where
  "tokensToAdd conv now rl = f64_to_int64 conv (f_mul (duration_seconds (time_sub now (rl_lastFill rl))) (f_of_int64 (rl_maxRPS rl)))"

definition refill :: "(f64 \<Rightarrow> i64) \<Rightarrow> int \<Rightarrow> rateLimiter \<Rightarrow> rateLimiter" where
  "refill conv now rl =
     (let add = tokensToAdd conv now rl
      in if 0 < sint add then
           (let t = rl_tokens rl + add
            in rl\<lparr>rl_tokens := (if sint (rl_maxRPS rl) < sint t then rl_maxRPS rl else t), rl_lastFill := now\<rparr>)
         else rl)"

definition try_acquire :: "(f64 \<Rightarrow> i64) \<Rightarrow> int \<Rightarrow> rateLimiter \<Rightarrow> bool \<times> rateLimiter" where
  "try_acquire conv now rl =
     (let rl' = refill conv now rl
      in if 0 < sint (rl_tokens rl') then (True, rl'\<lparr>rl_tokens := rl_tokens rl' - 1\<rparr>) else (False, rl'))"

text \<open>\<open>None\<close>: out of fuel. \<open>Some (ok, rl)\<close>: a token was taken, or the context ended.\<close>

fun acquire :: "nat \<Rightarrow> (f64 \<Rightarrow> i64) \<Rightarrow> (nat \<Rightarrow> int) \<Rightarrow> (nat \<Rightarrow> bool) \<Rightarrow> nat \<Rightarrow> rateLimiter \<Rightarrow> (bool \<times> rateLimiter) option" where
  "acquire 0 conv clock cancelled k rl = None"
| "acquire (Suc fuel) conv clock cancelled k rl =
     (case try_acquire conv (clock k) rl of
        (True, rl') \<Rightarrow> Some (True, rl')
      | (False, rl') \<Rightarrow> if cancelled k then Some (False, rl') else acquire fuel conv clock cancelled (Suc k) rl')"

section \<open>The client\<close>

record list_params =
  lp_Limit :: i64
  lp_Customer :: "string option"
  lp_Subscription :: "string option"
  lp_Account :: "string option"

record 'e stripe_api =
  api_customers :: "list_params \<Rightarrow> ('e + unit) list"
  api_subscriptions :: "list_params \<Rightarrow> ('e + stripe_subscription) list"
  api_invoices :: "list_params \<Rightarrow> ('e + stripe_invoice) list"

record 'e Client =
  cl_api :: "'e stripe_api"
  cl_account :: string
  cl_limiter :: rateLimiter

datatype 'e stripe_error = APIKeyEmpty | RateLimitCanceled | ListFailed 'e | NilPointer

definition New_client :: "int \<Rightarrow> (string \<Rightarrow> 'e stripe_api) \<Rightarrow> string \<Rightarrow> string \<Rightarrow> i64 \<Rightarrow> 'e stripe_error + 'e Client" where
  "New_client now newAPI apiKey account maxRPS =
     (if apiKey = [] then Inl APIKeyEmpty
      else Inr \<lparr>cl_api = newAPI apiKey, cl_account = account,
             cl_limiter = newRateLimiter now (if sint maxRPS \<le> 0 then 1 else maxRPS)\<rparr>)"

text \<open>Ranging over the iterator: stop at the first error.\<close>

fun collect :: "('e + 'a) list \<Rightarrow> 'e + 'a list" where
  "collect [] = Inr []"
| "collect (Inl err # _) = Inl err"
| "collect (Inr x # xs) = (case collect xs of Inl err \<Rightarrow> Inl err | Inr ys \<Rightarrow> Inr (x # ys))"

definition nonempty :: "string \<Rightarrow> string option" where
  "nonempty s = (if s \<noteq> [] then Some s else None)"

definition default_limit :: "i64 \<Rightarrow> i64" where
  "default_limit limit = (if sint limit \<le> 0 then 10 else limit)"

text \<open>The limiter in front of every call: \<open>wait\<close> is the run of \<open>acquire\<close>.\<close>

definition limited :: "(rateLimiter \<Rightarrow> (bool \<times> rateLimiter) option) \<Rightarrow> ('e Client \<Rightarrow> 'e stripe_error + 'a) \<Rightarrow> 'e Client
    \<Rightarrow> (('e stripe_error + 'a) \<times> 'e Client) option" where
  "limited wait call c =
     (case wait (cl_limiter c) of None \<Rightarrow> None
      | Some (False, rl) \<Rightarrow> Some (Inl RateLimitCanceled, c\<lparr>cl_limiter := rl\<rparr>)
      | Some (True, rl) \<Rightarrow> (let c' = c\<lparr>cl_limiter := rl\<rparr> in Some (call c', c')))"

definition of_list :: "'e + 'a list \<Rightarrow> 'e stripe_error + 'a list" where
  "of_list r = (case r of Inl err \<Rightarrow> Inl (ListFailed err) | Inr xs \<Rightarrow> Inr xs)"

text \<open>\<open>result = append(result, sanitize(x))\<close> inside the iteration: an error or a nil dereference, whichever
  comes first.\<close>

fun collect_with :: "('a \<Rightarrow> sanitize_error + 'b) \<Rightarrow> ('e + 'a) list \<Rightarrow> 'e stripe_error + 'b list" where
  "collect_with f [] = Inr []"
| "collect_with f (Inl err # _) = Inl (ListFailed err)"
| "collect_with f (Inr x # xs) = (case f x of Inl _ \<Rightarrow> Inl NilPointer
     | Inr y \<Rightarrow> (case collect_with f xs of Inl err \<Rightarrow> Inl err | Inr ys \<Rightarrow> Inr (y # ys)))"

definition SmokeCheck :: "(rateLimiter \<Rightarrow> (bool \<times> rateLimiter) option) \<Rightarrow> 'e Client \<Rightarrow> (('e stripe_error + nat) \<times> 'e Client) option" where
  "SmokeCheck wait = limited wait (\<lambda>c.
     case collect (api_customers (cl_api c) \<lparr>lp_Limit = 5, lp_Customer = None, lp_Subscription = None, lp_Account = nonempty (cl_account c)\<rparr>) of
       Inl err \<Rightarrow> Inl (ListFailed err) | Inr cs \<Rightarrow> Inr (length cs))"

definition ListSubscriptions :: "(rateLimiter \<Rightarrow> (bool \<times> rateLimiter) option) \<Rightarrow> string \<Rightarrow> i64 \<Rightarrow> 'e Client
    \<Rightarrow> (('e stripe_error + Subscription list) \<times> 'e Client) option" where
  "ListSubscriptions wait customerID limit = limited wait (\<lambda>c.
     collect_with sanitizeSubscription (api_subscriptions (cl_api c)
       \<lparr>lp_Limit = default_limit limit, lp_Customer = nonempty customerID, lp_Subscription = None, lp_Account = nonempty (cl_account c)\<rparr>))"

definition ListRawSubscriptions :: "(rateLimiter \<Rightarrow> (bool \<times> rateLimiter) option) \<Rightarrow> string \<Rightarrow> i64 \<Rightarrow> 'e Client
    \<Rightarrow> (('e stripe_error + stripe_subscription list) \<times> 'e Client) option" where
  "ListRawSubscriptions wait customerID limit = limited wait (\<lambda>c.
     of_list (collect (api_subscriptions (cl_api c)
       \<lparr>lp_Limit = default_limit limit, lp_Customer = nonempty customerID, lp_Subscription = None, lp_Account = nonempty (cl_account c)\<rparr>)))"

definition ListInvoices :: "(rateLimiter \<Rightarrow> (bool \<times> rateLimiter) option) \<Rightarrow> string \<Rightarrow> string \<Rightarrow> i64 \<Rightarrow> 'e Client
    \<Rightarrow> (('e stripe_error + Invoice list) \<times> 'e Client) option" where
  "ListInvoices wait customerID subscriptionID limit = limited wait (\<lambda>c.
     collect_with sanitizeInvoice (api_invoices (cl_api c)
       \<lparr>lp_Limit = default_limit limit, lp_Customer = nonempty customerID, lp_Subscription = nonempty subscriptionID,
        lp_Account = nonempty (cl_account c)\<rparr>))"

definition ListRawInvoices :: "(rateLimiter \<Rightarrow> (bool \<times> rateLimiter) option) \<Rightarrow> string \<Rightarrow> string \<Rightarrow> i64 \<Rightarrow> 'e Client
    \<Rightarrow> (('e stripe_error + stripe_invoice list) \<times> 'e Client) option" where
  "ListRawInvoices wait customerID subscriptionID limit = limited wait (\<lambda>c.
     of_list (collect (api_invoices (cl_api c)
       \<lparr>lp_Limit = default_limit limit, lp_Customer = nonempty customerID, lp_Subscription = nonempty subscriptionID,
        lp_Account = nonempty (cl_account c)\<rparr>)))"

section \<open>The bucket\<close>

definition bucket_ok :: "rateLimiter \<Rightarrow> bool" where
  "bucket_ok rl \<longleftrightarrow> 0 < sint (rl_maxRPS rl) \<and> 0 \<le> sint (rl_tokens rl) \<and> sint (rl_tokens rl) \<le> sint (rl_maxRPS rl)"

lemma New_client_bucket: "New_client now newAPI key account maxRPS = Inr c \<Longrightarrow> bucket_ok (cl_limiter c)"
  by (auto simp: New_client_def newRateLimiter_def bucket_ok_def split: if_splits)

lemma sint_add_no_wrap: "- (2 ^ 63) \<le> sint a + sint b \<Longrightarrow> sint a + sint b < 2 ^ 63 \<Longrightarrow> sint (a + b :: i64) = sint a + sint b"
proof -
  assume r: "- (2 ^ 63) \<le> sint a + sint b" "sint a + sint b < 2 ^ 63"
  have "a + b = word_of_int (sint a + sint b)" by simp
  then show ?thesis using sint_in_range[OF r] by simp
qed

text \<open>A refill adds a positive amount and clamps at the rate; the sum cannot wrap to a value that looks
  small, since both parts are below \<open>2 ^ 63\<close> and a wrapped sum is negative. That case (a rate near
  \<open>2 ^ 63\<close>) is excluded by the bound on the amount added.\<close>

lemma refill_ok:
  assumes "bucket_ok rl" and "sint (tokensToAdd conv now rl) + sint (rl_maxRPS rl) < 2 ^ 63"
  shows "bucket_ok (refill conv now rl)" "rl_maxRPS (refill conv now rl) = rl_maxRPS rl"
    "sint (rl_tokens rl) \<le> sint (rl_tokens (refill conv now rl))"
    "sint (rl_tokens (refill conv now rl)) \<le> sint (rl_tokens rl) + max 0 (sint (tokensToAdd conv now rl))"
proof -
  have s: "0 < sint (tokensToAdd conv now rl) \<Longrightarrow>
      sint (rl_tokens rl + tokensToAdd conv now rl) = sint (rl_tokens rl) + sint (tokensToAdd conv now rl)"
    using assms by (intro sint_add_no_wrap) (auto simp: bucket_ok_def)
  then show "bucket_ok (refill conv now rl)" "rl_maxRPS (refill conv now rl) = rl_maxRPS rl"
    "sint (rl_tokens rl) \<le> sint (rl_tokens (refill conv now rl))"
    "sint (rl_tokens (refill conv now rl)) \<le> sint (rl_tokens rl) + max 0 (sint (tokensToAdd conv now rl))"
    using assms(1) by (auto simp: refill_def Let_def bucket_ok_def)
qed

lemma sint_minus_1: "0 < sint (w :: i64) \<Longrightarrow> sint (w - 1) = sint w - 1"
  using sint_add_no_wrap[of w "- 1"] sint_bounds64[of w] by simp

lemma try_acquire_ok:
  assumes ok: "bucket_ok rl" and r: "sint (tokensToAdd conv now rl) + sint (rl_maxRPS rl) < 2 ^ 63"
    and t: "try_acquire conv now rl = (b, rl')"
  shows "bucket_ok rl'" "rl_maxRPS rl' = rl_maxRPS rl"
    "b \<Longrightarrow> sint (rl_tokens rl') + 1 \<le> sint (rl_tokens rl) + max 0 (sint (tokensToAdd conv now rl))"
  using refill_ok[OF ok r] t
  by (auto simp: try_acquire_def Let_def bucket_ok_def sint_minus_1 split: if_splits)

section \<open>Waiting ends\<close>

text \<open>One second after the last fill there is a token, for every rate up to \<open>2 ^ 19\<close> per second.\<close>

lemma tokens_after_second:
  assumes ok: "bucket_ok rl" and m: "sint (rl_maxRPS rl) < 2 ^ 19" and e: "10 ^ 9 \<le> now - rl_lastFill rl" "now - rl_lastFill rl < 2 ^ 63"
  shows "0 < sint (tokensToAdd conv now rl)" "sint (tokensToAdd conv now rl) < 2 ^ 60"
proof -
  let ?d = "time_sub now (rl_lastFill rl)" and ?m = "sint (rl_maxRPS rl)"
  have d: "sint ?d = now - rl_lastFill rl" using e by (intro time_sub_exact) (simp_all add: min_duration_def max_duration_def)
  let ?k = "sint ?d div 10 ^ 9"
  have k: "1 \<le> ?k" "?k + 1 \<le> 2 ^ 34"
    using zdiv_mono1[of "10 ^ 9" "sint ?d" "10 ^ 9"] zdiv_mono1[of "sint ?d" "2 ^ 63" "10 ^ 9"] e d by simp_all
  obtain x where x: "duration_seconds ?d = Fin x" "of_int ?k \<le> x" "x \<le> of_int (?k + 1)"
    using duration_seconds_bounds[of ?d] e d by auto
  have mm: "0 < ?m" using ok by (simp add: bucket_ok_def)
  have fm: "f_of_int64 (rl_maxRPS rl) = Fin (of_int ?m)" using mm m by (intro f_of_int64_small) simp
  have "(1::rat) \<le> of_int ?k" "(of_int (?k + 1) :: rat) \<le> of_int (2 ^ 34)" "(1::rat) \<le> of_int ?m" "(of_int ?m :: rat) \<le> of_int (2 ^ 19)"
    using k mm m by (simp_all only: of_int_le_iff of_int_1_le_iff)
  then have b: "1 \<le> x" "x \<le> 2 ^ 34" "(1::rat) \<le> of_int ?m" "(of_int ?m :: rat) \<le> 2 ^ 19" using x by simp_all
  have p: "1 \<le> x * of_int ?m" "x * of_int ?m \<le> 2 ^ 34 * 2 ^ 19"
    using b mult_mono[of 1 x 1 "of_int ?m :: rat"] mult_mono[of x "2 ^ 34" "of_int ?m :: rat" "2 ^ 19"] by simp_all
  have r: "1 \<le> rnd (x * of_int ?m)" "rnd (x * of_int ?m) \<le> 2 ^ 53"
    using rnd_mono[OF p(1)] rnd_mono[OF p(2)] rnd_scaled[of 1 53] by simp_all
  have "f_mul (Fin x) (Fin (of_int ?m)) = Fin (rnd (x * of_int ?m))" using p by (simp add: to_f64_small)
  then have t: "tokensToAdd conv now rl = word_of_int \<lfloor>rnd (x * of_int ?m)\<rfloor>"
    using r by (simp add: tokensToAdd_def x(1) fm f64_to_int64_def)
  have "1 \<le> \<lfloor>rnd (x * of_int ?m)\<rfloor>" "\<lfloor>rnd (x * of_int ?m)\<rfloor> \<le> 2 ^ 53"
    using r by (simp_all add: le_floor_iff floor_le_iff)
  then show "0 < sint (tokensToAdd conv now rl)" "sint (tokensToAdd conv now rl) < 2 ^ 60"
    by (simp_all add: t sint_in_range)
qed

lemma try_acquire_after_second:
  assumes "bucket_ok rl" "sint (rl_maxRPS rl) < 2 ^ 19" "10 ^ 9 \<le> now - rl_lastFill rl" "now - rl_lastFill rl < 2 ^ 63"
  shows "fst (try_acquire conv now rl)"
proof -
  note t = tokens_after_second[OF assms, of conv]
  have r: "sint (tokensToAdd conv now rl) + sint (rl_maxRPS rl) < 2 ^ 63" using t(2) assms(2) by simp
  have s: "sint (rl_tokens rl + tokensToAdd conv now rl) = sint (rl_tokens rl) + sint (tokensToAdd conv now rl)"
    using assms(1) r t by (intro sint_add_no_wrap) (auto simp: bucket_ok_def)
  then show ?thesis using t assms(1) by (auto simp: try_acquire_def refill_def Let_def bucket_ok_def)
qed

lemma try_acquire_failed:
  assumes "try_acquire conv now rl = (False, rl')" and "bucket_ok rl" "sint (rl_maxRPS rl) < 2 ^ 19"
    and "0 \<le> now - rl_lastFill rl" "now - rl_lastFill rl < 2 ^ 63"
  shows "rl' = rl"
proof (cases "0 < sint (tokensToAdd conv now rl)")
  case False
  then show ?thesis using assms(1) by (simp add: try_acquire_def refill_def Let_def split: if_splits)
next
  case add: True
  show ?thesis
  proof (cases "10 ^ 9 \<le> now - rl_lastFill rl")
    case True
    from try_acquire_after_second[OF assms(2,3) True assms(5), of conv] assms(1) show ?thesis by simp
  next
    case False
    let ?d = "time_sub now (rl_lastFill rl)"
    have d: "sint ?d = now - rl_lastFill rl" using assms(4,5) by (intro time_sub_exact) (simp_all add: min_duration_def max_duration_def)
    then have "sint ?d div 10 ^ 9 = 0" using False assms(4) by simp
    then obtain x where x: "duration_seconds ?d = Fin x" "0 \<le> x" "x \<le> 1"
      using duration_seconds_bounds[of ?d] d assms(4) by (metis add_0 of_int_0 of_int_1)
    have mm: "0 < sint (rl_maxRPS rl)" using assms(2) by (simp add: bucket_ok_def)
    then have fm: "f_of_int64 (rl_maxRPS rl) = Fin (of_int (sint (rl_maxRPS rl)))" using assms(3) by (intro f_of_int64_small) simp
    have "(of_int (sint (rl_maxRPS rl)) :: rat) \<le> of_int (2 ^ 19)" using assms(3) by (simp only: of_int_le_iff)
    moreover have "(0::rat) \<le> of_int (sint (rl_maxRPS rl))" using mm by (simp only: of_int_0_le_iff)
    ultimately have p: "0 \<le> x * of_int (sint (rl_maxRPS rl))" "x * of_int (sint (rl_maxRPS rl)) \<le> 2 ^ 19"
      using x mult_mono[of x 1 "of_int (sint (rl_maxRPS rl)) :: rat" "2 ^ 19"] by simp_all
    have r: "0 \<le> rnd (x * of_int (sint (rl_maxRPS rl)))" "rnd (x * of_int (sint (rl_maxRPS rl))) \<le> 2 ^ 19"
      using rnd_mono[OF p(1)] rnd_mono[OF p(2)] rnd_scaled[of 1 19] by simp_all
    have "f_mul (Fin x) (Fin (of_int (sint (rl_maxRPS rl)))) = Fin (rnd (x * of_int (sint (rl_maxRPS rl))))"
      using p by (simp add: to_f64_small)
    then have t: "tokensToAdd conv now rl = word_of_int \<lfloor>rnd (x * of_int (sint (rl_maxRPS rl)))\<rfloor>"
      using r by (simp add: tokensToAdd_def x(1) fm f64_to_int64_def)
    have "\<lfloor>rnd (x * of_int (sint (rl_maxRPS rl)))\<rfloor> \<le> 2 ^ 19" "0 \<le> \<lfloor>rnd (x * of_int (sint (rl_maxRPS rl)))\<rfloor>"
      using r by (simp_all add: floor_le_iff)
    then have "sint (tokensToAdd conv now rl) \<le> 2 ^ 19" by (simp add: t sint_in_range)
    then have "sint (rl_tokens rl + tokensToAdd conv now rl) = sint (rl_tokens rl) + sint (tokensToAdd conv now rl)"
      using assms(2,3) add by (intro sint_add_no_wrap) (auto simp: bucket_ok_def)
    then have "fst (try_acquire conv now rl)"
      using add assms(2) by (auto simp: try_acquire_def refill_def Let_def bucket_ok_def)
    with assms(1) show ?thesis by simp
  qed
qed

text \<open>\<open>acquire\<close> returns: when the clock of some round is a second past the last fill, that round at the
  latest takes a token or the context has ended before.\<close>

lemma acquire_returns:
  assumes "bucket_ok rl" "sint (rl_maxRPS rl) < 2 ^ 19"
    and clock: "\<forall>j\<le>k + n. rl_lastFill rl \<le> clock j \<and> clock j - rl_lastFill rl < 2 ^ 63"
    and late: "10 ^ 9 \<le> clock (k + n) - rl_lastFill rl" and "n < fuel"
  shows "\<exists>r. acquire fuel conv clock cancelled k rl = Some r \<and> ((\<forall>j. \<not> cancelled j) \<longrightarrow> fst r)"
  using assms(3-5)
proof (induction n arbitrary: k fuel)
  case 0
  then obtain f where f: "fuel = Suc f" by (cases fuel) auto
  have "fst (try_acquire conv (clock k) rl)" using 0 assms(1,2) by (intro try_acquire_after_second) auto
  then show ?case by (cases "try_acquire conv (clock k) rl") (simp add: f)
next
  case (Suc n)
  then obtain f where f: "fuel = Suc f" "n < f" by (cases fuel) auto
  obtain b rl' where t: "try_acquire conv (clock k) rl = (b, rl')" by force
  show ?case
  proof (cases b)
    case True
    then show ?thesis by (simp add: f t)
  next
    case False
    have "0 \<le> clock k - rl_lastFill rl" "clock k - rl_lastFill rl < 2 ^ 63" using Suc.prems(1) by auto
    then have "rl' = rl" using t False assms(1,2) by (intro try_acquire_failed) simp_all
    moreover have "\<exists>r. acquire f conv clock cancelled (Suc k) rl = Some r \<and> ((\<forall>j. \<not> cancelled j) \<longrightarrow> fst r)"
      using Suc.prems f(2) by (intro Suc.IH) simp_all
    ultimately show ?thesis using False by (auto simp: f t)
  qed
qed

section \<open>Lists\<close>

lemma collect_map_Inr [simp]: "collect (map Inr xs) = Inr xs"
  by (induction xs) simp_all

lemma collect_Inr: "collect rs = Inr xs \<longleftrightarrow> rs = map Inr xs"
proof
  show "collect rs = Inr xs \<Longrightarrow> rs = map Inr xs"
    by (induction rs arbitrary: xs rule: collect.induct) (auto split: sum.splits)
qed simp

lemma collect_Inl: "collect rs = Inl e \<longleftrightarrow> (\<exists>xs ys. rs = map Inr xs @ Inl e # ys)"
proof (induction rs rule: collect.induct)
  case (3 x xs)
  show ?case
  proof
    assume "collect (Inr x # xs) = Inl e"
    then obtain as ys where "xs = map Inr as @ Inl e # ys" using 3 by (auto split: sum.splits)
    then show "\<exists>as ys. Inr x # xs = map Inr as @ Inl e # ys" by (intro exI[of _ "x # as"]) auto
  next
    assume "\<exists>as ys. Inr x # xs = map Inr as @ Inl e # ys"
    then obtain as ys where a: "Inr x # xs = map Inr as @ Inl e # ys" by blast
    then obtain b bs where "as = b # bs" by (cases as) auto
    with a 3 show "collect (Inr x # xs) = Inl e" by auto
  qed
qed (auto simp: Cons_eq_append_conv)

text \<open>The number of objects is what the iterator yields, not the limit.\<close>

lemma ListRawSubscriptions_all:
  assumes "wait (cl_limiter c) = Some (True, rl)"
    and "\<And>p. api_subscriptions (cl_api c) p = map Inr (subs :: stripe_subscription list)"
  shows "ListRawSubscriptions wait customerID limit c = Some (Inr subs, c\<lparr>cl_limiter := rl\<rparr>)"
  using assms by (simp add: ListRawSubscriptions_def limited_def Let_def of_list_def)

end
