(* ===== verification/Export_Stream.thy ===== *)
theory Export_Stream
  imports Exporter
begin

text \<open>
  One stream of the running exporter: its queue, the worker goroutine that \<open>Start\<close> launches on it, and the context
  that \<open>Shutdown\<close> cancels. Each case of the worker's \<open>select\<close> is an event that can happen when its channel is
  ready, so a list of events is one interleaving of the producers, the worker and \<open>Shutdown\<close>. The last field is a
  ghost that records what was offered to the queue. The machine refines the queue of \<open>Exporter_Queue\<close>.
\<close>

record stream =
  sm_queue :: queue
  sm_worker :: worker
  sm_cancelled :: bool
  sm_offered :: "bytes list"

definition start_stream :: "queue \<Rightarrow> stream" where
  "start_stream q = \<lparr>sm_queue = q, sm_worker = worker_start, sm_cancelled = False, sm_offered = []\<rparr>"

definition Start_exporter :: "Exporter \<Rightarrow> (string \<times> stream) list" where
  "Start_exporter e = map (\<lambda>(name, q). (name, start_stream q)) (ex_streams e)"

datatype stream_event =
    Offer nat nat bytes | WorkerReceives | WorkerSeesClosed | WorkerTicks | WorkerSeesDone | CloseQueue | CancelContext

definition feed :: "i64 \<Rightarrow> bytes list \<Rightarrow> worker \<Rightarrow> worker" where
  "feed batchSize ds = fold (\<lambda>d. worker_step batchSize (Data d)) ds"

text \<open>\<open>None\<close> is an event that cannot happen in the state. During an \<open>Offer\<close> the worker receives as in \<open>enqueue_with\<close>.\<close>

fun stream_step :: "i64 \<Rightarrow> stream_event \<Rightarrow> stream \<Rightarrow> stream option" where
  "stream_step bs (Offer t1 t2 x) s =
     (if \<not> wk_running (sm_worker s) \<and> (t1 \<noteq> 0 \<or> t2 \<noteq> 0) then None
      else case enqueue_with t1 t2 x (sm_queue s) of (q, r) \<Rightarrow>
        Some (s\<lparr>sm_queue := q, sm_worker := feed bs r (sm_worker s), sm_offered := sm_offered s @ [x]\<rparr>))"
| "stream_step bs WorkerReceives s =
     (if \<not> wk_running (sm_worker s) then None
      else case q_ch (sm_queue s) of [] \<Rightarrow> None
        | d # ds \<Rightarrow> Some (s\<lparr>sm_queue := (sm_queue s)\<lparr>q_ch := ds\<rparr>, sm_worker := worker_step bs (Data d) (sm_worker s)\<rparr>))"
| "stream_step bs WorkerSeesClosed s =
     (if wk_running (sm_worker s) \<and> q_ch (sm_queue s) = [] \<and> q_closed (sm_queue s)
      then Some (s\<lparr>sm_worker := worker_step bs Closed (sm_worker s)\<rparr>) else None)"
| "stream_step bs WorkerTicks s =
     (if wk_running (sm_worker s) then Some (s\<lparr>sm_worker := worker_step bs Tick (sm_worker s)\<rparr>) else None)"
| "stream_step bs WorkerSeesDone s =
     (if wk_running (sm_worker s) \<and> sm_cancelled s then Some (s\<lparr>sm_worker := worker_step bs Done (sm_worker s)\<rparr>) else None)"
| "stream_step bs CloseQueue s = Some (s\<lparr>sm_queue := close (sm_queue s)\<rparr>)"
| "stream_step bs CancelContext s = Some (s\<lparr>sm_cancelled := True\<rparr>)"

fun stream_run :: "i64 \<Rightarrow> stream_event list \<Rightarrow> stream \<Rightarrow> stream option" where
  "stream_run bs [] s = Some s"
| "stream_run bs (ev # evs) s = (case stream_step bs ev s of None \<Rightarrow> None | Some s' \<Rightarrow> stream_run bs evs s')"

text \<open>\<open>Shutdown\<close>: every queue is closed, the context is cancelled, and the call returns nil once all workers have
  ended, or an error when its own context expires, which is the choice of \<open>expired\<close> when both are the case. The
  lists are what happens to a stream before and after the cancellation; \<open>None\<close> is a schedule that cannot happen
  or a call that still waits.\<close>

definition shutdown_events :: "(string \<Rightarrow> stream_event list) \<Rightarrow> (string \<Rightarrow> stream_event list) \<Rightarrow> string \<Rightarrow> stream_event list" where
  "shutdown_events before after name = CloseQueue # before name @ CancelContext # after name"

fun run_streams :: "i64 \<Rightarrow> (string \<Rightarrow> stream_event list) \<Rightarrow> (string \<times> stream) list \<Rightarrow> (string \<times> stream) list option" where
  "run_streams bs evs [] = Some []"
| "run_streams bs evs ((name, s) # ss) =
     (case stream_run bs (evs name) s of None \<Rightarrow> None
      | Some s' \<Rightarrow> (case run_streams bs evs ss of None \<Rightarrow> None | Some ss' \<Rightarrow> Some ((name, s') # ss')))"

definition Shutdown_exporter :: "i64 \<Rightarrow> (string \<Rightarrow> stream_event list) \<Rightarrow> (string \<Rightarrow> stream_event list) \<Rightarrow> bool
    \<Rightarrow> (string \<times> stream) list \<Rightarrow> (bool \<times> (string \<times> stream) list) option" where
  "Shutdown_exporter bs before after expired ss =
     (case run_streams bs (shutdown_events before after) ss of None \<Rightarrow> None
      | Some ss' \<Rightarrow> if expired then Some (False, ss')
          else if list_all (\<lambda>(_, s). \<not> wk_running (sm_worker s)) ss' then Some (True, ss') else None)"

section \<open>The stream refines its queue\<close>

definition sent :: "stream \<Rightarrow> bytes list" where
  "sent s = concat (wk_flushed (sm_worker s))"

definition taken :: "stream \<Rightarrow> bytes list" where
  "taken s = sent s @ wk_batch (sm_worker s)"

definition ghost_of :: "stream \<Rightarrow> ghost" where
  "ghost_of s = \<lparr>g_queue = sm_queue s, g_offered = sm_offered s, g_received = taken s\<rparr>"

fun queue_event_of :: "stream_event \<Rightarrow> queue_event" where
  "queue_event_of (Offer t1 t2 x) = Enq t1 t2 x"
| "queue_event_of WorkerReceives = Recv 1"
| "queue_event_of CloseQueue = Close"
| "queue_event_of _ = Recv 0"

lemma feed_facts:
  assumes "0 < sint bs" "worker_inv bs w" "wk_running w \<or> ds = []"
  shows "worker_inv bs (feed bs ds w)" "wk_running (feed bs ds w) = wk_running w"
    "concat (wk_flushed (feed bs ds w)) @ wk_batch (feed bs ds w) = concat (wk_flushed w) @ wk_batch w @ ds"
proof -
  have "wk_running w \<or> ds = [] \<Longrightarrow> worker_inv bs w \<Longrightarrow> worker_inv bs (feed bs ds w) \<and> wk_running (feed bs ds w) = wk_running w
    \<and> concat (wk_flushed (feed bs ds w)) @ wk_batch (feed bs ds w) = concat (wk_flushed w) @ wk_batch w @ ds" for w
  proof (induction ds arbitrary: w)
    case (Cons d ds)
    have r: "wk_running w" using Cons.prems by simp
    have "data_of [Data d] = [d]" by (simp add: data_of_def)
    with worker_step_content[OF r, of bs "Data d"] worker_step_inv[OF assms(1) Cons.prems(2), of "Data d"] Cons.IH[of "worker_step bs (Data d) w"] r
    show ?case by (simp add: feed_def)
  qed (simp add: feed_def)
  with assms show "worker_inv bs (feed bs ds w)" "wk_running (feed bs ds w) = wk_running w"
    "concat (wk_flushed (feed bs ds w)) @ wk_batch (feed bs ds w) = concat (wk_flushed w) @ wk_batch w @ ds" by blast+
qed

lemma enqueue_with_no_receive: "enqueue_with 0 0 x q = (q', r) \<Longrightarrow> r = []"
  by (auto simp: enqueue_with_def queue_ops Let_def split: if_splits)

lemma stream_step_refines:
  assumes "0 < sint bs" and "worker_inv bs (sm_worker s)" and "stream_step bs ev s = Some s'"
  shows "worker_inv bs (sm_worker s') \<and> ghost_of s' = queue_step (queue_event_of ev) (ghost_of s)"
proof (cases ev)
  case (Offer t1 t2 x)
  obtain q r where e: "enqueue_with t1 t2 x (sm_queue s) = (q, r)" by force
  then have "wk_running (sm_worker s) \<or> r = []"
    using assms(3) enqueue_with_no_receive[of x "sm_queue s" q r] by (auto simp: Offer split: if_splits)
  with feed_facts[OF assms(1,2) this] assms(3) e show ?thesis
    by (auto simp: Offer ghost_of_def taken_def sent_def split: if_splits)
next
  case WorkerReceives
  then obtain d ds where q: "q_ch (sm_queue s) = d # ds" "wk_running (sm_worker s)"
    "s' = s\<lparr>sm_queue := (sm_queue s)\<lparr>q_ch := ds\<rparr>, sm_worker := worker_step bs (Data d) (sm_worker s)\<rparr>"
    using assms(3) by (auto split: if_splits list.splits)
  with worker_step_inv[OF assms(1,2), of "Data d"] worker_step_content[OF q(2), of bs "Data d"] show ?thesis
    by (simp add: WorkerReceives ghost_of_def taken_def sent_def recv_def data_of_def)
next
  case WorkerSeesClosed
  then show ?thesis using assms worker_step_inv[OF assms(1,2), of Closed] worker_step_content[of "sm_worker s" bs Closed]
    by (auto simp: ghost_of_def taken_def sent_def recv_def data_of_def split: if_splits)
next
  case WorkerTicks
  then show ?thesis using assms worker_step_inv[OF assms(1,2), of Tick] worker_step_content[of "sm_worker s" bs Tick]
    by (auto simp: ghost_of_def taken_def sent_def recv_def data_of_def split: if_splits)
next
  case WorkerSeesDone
  then show ?thesis using assms worker_step_inv[OF assms(1,2), of Done] worker_step_content[of "sm_worker s" bs Done]
    by (auto simp: ghost_of_def taken_def sent_def recv_def data_of_def split: if_splits)
qed (use assms in \<open>auto simp: ghost_of_def taken_def sent_def recv_def\<close>)

lemma stream_run_refines:
  assumes "0 < sint bs" and "worker_inv bs (sm_worker s)" and "stream_run bs evs s = Some s'"
  shows "worker_inv bs (sm_worker s') \<and> ghost_of s' = fold queue_step (map queue_event_of evs) (ghost_of s)"
  using assms(2,3)
proof (induction evs arbitrary: s)
  case (Cons ev evs)
  then obtain s1 where "stream_step bs ev s = Some s1" "stream_run bs evs s1 = Some s'" by (auto split: option.splits)
  with stream_step_refines[OF assms(1) Cons.prems(1)] Cons.IH show ?case by fastforce
qed simp

lemma stream_run_append:
  "stream_run bs (xs @ ys) s = (case stream_run bs xs s of None \<Rightarrow> None | Some s' \<Rightarrow> stream_run bs ys s')"
  by (induction xs arbitrary: s) (simp_all split: option.splits)

text \<open>From the start, nothing offered to a stream disappears: it was sent, is in the worker's batch or the queue, or
  was counted as dropped, and what was sent is in the order of the offers.\<close>

lemma stream_accounts:
  assumes "0 < sint bs" and "stream_run bs evs (start_stream (newQueue cap)) = Some s"
  shows "subseq (sent s @ wk_batch (sm_worker s) @ q_ch (sm_queue s)) (sm_offered s)"
    and "(of_nat (length (sm_offered s)) :: u64) = of_nat (length (sent s)) + of_nat (length (wk_batch (sm_worker s)))
      + of_nat (depth (sm_queue s)) + dropped (sm_queue s)"
    and "depth (sm_queue s) \<le> q_cap (sm_queue s)" and "worker_inv bs (sm_worker s)"
proof -
  have "ghost_of (start_stream (newQueue cap)) = start cap"
    by (simp add: ghost_of_def start_stream_def start_def taken_def sent_def worker_start_def)
  then have g: "ghost_of s = run cap (map queue_event_of evs)" and i: "worker_inv bs (sm_worker s)"
    using stream_run_refines[OF assms(1) _ assms(2)] worker_start_inv[OF assms(1)] by (simp_all add: start_stream_def run_def)
  from run_invariant[of cap "map queue_event_of evs"] g
  have "in_order (ghost_of s)" "balanced (ghost_of s)" "bounded (ghost_of s)" by simp_all
  then show "subseq (sent s @ wk_batch (sm_worker s) @ q_ch (sm_queue s)) (sm_offered s)"
    "(of_nat (length (sm_offered s)) :: u64) = of_nat (length (sent s)) + of_nat (length (wk_batch (sm_worker s)))
      + of_nat (depth (sm_queue s)) + dropped (sm_queue s)"
    "depth (sm_queue s) \<le> q_cap (sm_queue s)"
    by (simp_all add: in_order_def balanced_def bounded_def ghost_of_def taken_def)
  show "worker_inv bs (sm_worker s)" by (rule i)
qed

lemma stream_sends_offered:
  assumes "0 < sint bs" and "stream_run bs evs (start_stream (newQueue cap)) = Some s" and "d \<in> set (sent s)"
  shows "d \<in> set (sm_offered s)"
proof -
  from assms(3) have "d \<in> set (sent s @ wk_batch (sm_worker s) @ q_ch (sm_queue s))" by simp
  from list_emb_set[OF stream_accounts(1)[OF assms(1,2)] this] show ?thesis by blast
qed

section \<open>What Shutdown leaves behind\<close>

text \<open>After a shutdown without new offers: the first \<open>k\<close> queued items were sent after the worker's batch, the others
  are still in the queue, and nobody receives them.\<close>

definition left_behind :: "nat \<Rightarrow> stream \<Rightarrow> stream \<Rightarrow> bool" where
  "left_behind k s s' \<longleftrightarrow> k \<le> depth (sm_queue s) \<and> \<not> wk_running (sm_worker s')
     \<and> sent s' = taken s @ take k (q_ch (sm_queue s)) \<and> q_ch (sm_queue s') = drop k (q_ch (sm_queue s))"

definition offers :: "stream_event list \<Rightarrow> bool" where
  "offers evs \<longleftrightarrow> list_ex (\<lambda>ev. case ev of Offer t1 t2 x \<Rightarrow> True | _ \<Rightarrow> False) evs"

lemma offers_simps [simp]: "\<not> offers []"
  "offers (ev # evs) \<longleftrightarrow> (case ev of Offer t1 t2 x \<Rightarrow> True | _ \<Rightarrow> False) \<or> offers evs"
  by (simp_all add: offers_def)

lemma offers_append [simp]: "offers (xs @ ys) \<longleftrightarrow> offers xs \<or> offers ys"
  by (simp add: offers_def)

lemma quiet_step:
  assumes "0 < sint bs" and "worker_inv bs (sm_worker s)" and "stream_step bs ev s = Some s'" and "\<not> offers [ev]"
  shows "\<exists>ds. taken s' = taken s @ ds \<and> q_ch (sm_queue s) = ds @ q_ch (sm_queue s')"
proof -
  have g: "ghost_of s' = queue_step (queue_event_of ev) (ghost_of s)" using stream_step_refines[OF assms(1-3)] by blast
  show ?thesis
  proof (cases "queue_event_of ev")
    case (Enq t1 t2 x)
    with assms(4) show ?thesis by (cases ev) simp_all
  next
    case (Recv n)
    with g have "taken s' = taken s @ take n (q_ch (sm_queue s))" "q_ch (sm_queue s') = drop n (q_ch (sm_queue s))"
      by (simp_all add: ghost_of_def recv_def)
    then show ?thesis by (intro exI[of _ "take n (q_ch (sm_queue s))"]) simp
  next
    case Close
    with g have "taken s' = taken s" "sm_queue s' = close (sm_queue s)" by (simp_all add: ghost_of_def)
    then show ?thesis by (simp add: close_def)
  qed
qed

lemma quiet_run:
  assumes "0 < sint bs" and "worker_inv bs (sm_worker s)" and "stream_run bs evs s = Some s'" and "\<not> offers evs"
  shows "\<exists>ds. taken s' = taken s @ ds \<and> q_ch (sm_queue s) = ds @ q_ch (sm_queue s')"
  using assms(2-4)
proof (induction evs arbitrary: s)
  case (Cons ev evs)
  from Cons.prems(2) obtain s1 where s1: "stream_step bs ev s = Some s1" "stream_run bs evs s1 = Some s'"
    by (simp only: stream_run.simps split: option.splits) simp
  have i: "worker_inv bs (sm_worker s1)" using stream_step_refines[OF assms(1) Cons.prems(1) s1(1)] by blast
  have o: "\<not> offers [ev]" "\<not> offers evs" using Cons.prems(3) by simp_all
  from quiet_step[OF assms(1) Cons.prems(1) s1(1) o(1)] Cons.IH[OF i s1(2) o(2)] show ?case by (metis append.assoc)
qed simp

lemma drained_step:
  assumes "stream_step bs ev s = Some s'" and "\<not> offers [ev]" and "ev \<noteq> WorkerSeesDone"
    and "wk_running (sm_worker s) \<or> q_ch (sm_queue s) = []"
  shows "wk_running (sm_worker s') \<or> q_ch (sm_queue s') = []"
proof (cases ev)
  case WorkerReceives
  then show ?thesis using assms(1) worker_step_content[of "sm_worker s" bs "Data (hd (q_ch (sm_queue s)))"]
    by (cases "q_ch (sm_queue s)") (auto simp del: worker_step.simps split: if_splits)
next
  case WorkerTicks
  then show ?thesis using assms(1) worker_step_content[of "sm_worker s" bs Tick]
    by (auto simp del: worker_step.simps split: if_splits)
next
  case WorkerSeesClosed
  then show ?thesis using assms(1) by (auto simp del: worker_step.simps split: if_splits)
qed (use assms in \<open>auto simp: close_def\<close>)

lemma quiet_drained:
  assumes "stream_run bs evs s = Some s'" and "\<not> offers evs" and "WorkerSeesDone \<notin> set evs"
    and "wk_running (sm_worker s) \<or> q_ch (sm_queue s) = []"
  shows "wk_running (sm_worker s') \<or> q_ch (sm_queue s') = []"
  using assms
proof (induction evs arbitrary: s)
  case (Cons ev evs)
  from Cons.prems(1) obtain s1 where s1: "stream_step bs ev s = Some s1" "stream_run bs evs s1 = Some s'"
    by (simp only: stream_run.simps split: option.splits) simp
  have "\<not> offers [ev]" "\<not> offers evs" "ev \<noteq> WorkerSeesDone" "WorkerSeesDone \<notin> set evs" using Cons.prems(2,3) by auto
  with Cons.IH[OF s1(2)] drained_step[OF s1(1)] Cons.prems(4) show ?case by blast
qed simp

lemma quiet_stop:
  assumes "0 < sint bs" and "worker_inv bs (sm_worker s)" and "wk_running (sm_worker s)"
    and "stream_run bs evs s = Some s'" and "\<not> offers evs" and "\<not> wk_running (sm_worker s')"
  shows "\<exists>k. left_behind k s s' \<and> (WorkerSeesDone \<notin> set evs \<longrightarrow> k = depth (sm_queue s))"
proof -
  define k where "k = length (taken s') - length (taken s)"
  obtain zs where z: "taken s' = taken s @ zs" "q_ch (sm_queue s) = zs @ q_ch (sm_queue s')"
    using quiet_run[OF assms(1,2,4,5)] by blast
  moreover have "wk_batch (sm_worker s') = []"
    using stream_run_refines[OF assms(1,2,4)] assms(6) by (simp add: worker_inv_def)
  ultimately have "left_behind k s s'"
    using assms(6) by (simp add: left_behind_def k_def taken_def depth_def)
  moreover have "WorkerSeesDone \<notin> set evs \<longrightarrow> k = depth (sm_queue s)"
    using quiet_drained[OF assms(4,5)] assms(3,6) z by (auto simp: k_def depth_def)
  ultimately show ?thesis by blast
qed

lemma receive_run:
  assumes "0 < sint bs" and "worker_inv bs (sm_worker s)" and "wk_running (sm_worker s)" and "k \<le> depth (sm_queue s)"
  shows "\<exists>s'. stream_run bs (replicate k WorkerReceives) s = Some s' \<and> wk_running (sm_worker s') \<and> sm_cancelled s' = sm_cancelled s
    \<and> q_ch (sm_queue s') = drop k (q_ch (sm_queue s))"
  using assms(2-4)
proof (induction k arbitrary: s)
  case (Suc k)
  then obtain d ds where d: "q_ch (sm_queue s) = d # ds" by (cases "q_ch (sm_queue s)") (simp_all add: depth_def)
  let ?s = "s\<lparr>sm_queue := (sm_queue s)\<lparr>q_ch := ds\<rparr>, sm_worker := worker_step bs (Data d) (sm_worker s)\<rparr>"
  have "worker_inv bs (sm_worker ?s)" "wk_running (sm_worker ?s)" "k \<le> depth (sm_queue ?s)"
    using worker_step_inv[OF assms(1) Suc.prems(1), of "Data d"] worker_step_content[OF Suc.prems(2), of bs "Data d"] Suc.prems(3) d
    by (simp_all add: depth_def)
  from Suc.IH[OF this] Suc.prems(2) d show ?case by simp
qed simp

lemma shutdown_leaves:
  assumes "0 < sint bs" and "worker_inv bs (sm_worker s)" and "wk_running (sm_worker s)" and "k \<le> depth (sm_queue s)"
  shows "\<exists>s'. stream_run bs (CloseQueue # CancelContext # replicate k WorkerReceives @ [WorkerSeesDone]) s = Some s' \<and> left_behind k s s'"
proof -
  let ?s = "s\<lparr>sm_queue := close (sm_queue s), sm_cancelled := True\<rparr>" and ?evs = "replicate k WorkerReceives @ [WorkerSeesDone]"
  have q: "q_ch (close (sm_queue s)) = q_ch (sm_queue s)" by (simp add: close_def)
  obtain s1 where s1: "stream_run bs (replicate k WorkerReceives) ?s = Some s1" "wk_running (sm_worker s1)" "sm_cancelled s1"
    "q_ch (sm_queue s1) = drop k (q_ch (sm_queue s))"
    using receive_run[OF assms(1), of ?s k] assms(2-4) by (auto simp: q depth_def)
  define s2 where "s2 = s1\<lparr>sm_worker := worker_step bs Done (sm_worker s1)\<rparr>"
  have r: "stream_run bs ?evs ?s = Some s2" using s1 by (simp add: stream_run_append s2_def)
  have stop: "\<not> wk_running (sm_worker s2)" using worker_step_content[OF s1(2), of bs Done] by (simp add: s2_def)
  have "\<not> offers ?evs" by (simp add: offers_def list_ex_iff)
  from quiet_stop[OF assms(1) _ _ r this stop] assms(2,3) obtain j where j: "left_behind j ?s s2" by auto
  have "depth (sm_queue s2) = depth (sm_queue s) - k" using s1(4) by (simp add: s2_def depth_def)
  with j assms(4) have "j = k" by (auto simp: left_behind_def depth_def q)
  with j have "left_behind k s s2" by (simp add: left_behind_def depth_def q taken_def sent_def)
  with r show ?thesis by auto
qed

lemma run_streams_Some:
  "run_streams bs evs ss = Some ss' \<longleftrightarrow> list_all2 (\<lambda>(n, s) (n', s'). n' = n \<and> stream_run bs (evs n) s = Some s') ss ss'"
proof (induction ss arbitrary: ss')
  case (Cons x ss)
  then show ?case by (cases x; cases ss'; cases "run_streams bs evs ss") (auto split: option.splits)
qed auto

definition workers_run :: "i64 \<Rightarrow> (string \<times> stream) list \<Rightarrow> bool" where
  "workers_run bs ss \<longleftrightarrow> list_all (\<lambda>(_, s). wk_running (sm_worker s) \<and> worker_inv bs (sm_worker s)) ss"

lemma Shutdown_leaves:
  assumes "0 < sint bs" and "workers_run bs ss" and "Shutdown_exporter bs before after False ss = Some (True, ss')"
    and "\<forall>name. \<not> offers (before name) \<and> \<not> offers (after name)"
  shows "list_all2 (\<lambda>(n, s) (n', s'). n' = n \<and> (\<exists>k. left_behind k s s'
      \<and> (WorkerSeesDone \<notin> set (before n @ after n) \<longrightarrow> k = depth (sm_queue s)))) ss ss'"
proof -
  have stopped: "\<forall>(n, s)\<in>set ss'. \<not> wk_running (sm_worker s)"
    and run: "list_all2 (\<lambda>(n, s) (n', s'). n' = n \<and> stream_run bs (shutdown_events before after n) s = Some s') ss ss'"
    using assms(3) by (auto simp: Shutdown_exporter_def run_streams_Some list_all_iff split: option.splits if_splits)
  show ?thesis
  proof (rule list.rel_mono_strong[OF run], clarsimp)
    fix n s s'
    assume s: "(n, s) \<in> set ss" "(n, s') \<in> set ss'" "stream_run bs (shutdown_events before after n) s = Some s'"
    have "\<not> offers (shutdown_events before after n)" using assms(4) by (simp add: shutdown_events_def)
    moreover have "worker_inv bs (sm_worker s)" "wk_running (sm_worker s)" "\<not> wk_running (sm_worker s')"
      using s stopped assms(2) by (auto simp: workers_run_def list_all_iff)
    ultimately obtain k where "left_behind k s s'" "WorkerSeesDone \<notin> set (shutdown_events before after n) \<longrightarrow> k = depth (sm_queue s)"
      using quiet_stop[OF assms(1) _ _ s(3)] by blast
    then show "\<exists>k. left_behind k s s' \<and> (WorkerSeesDone \<notin> set (before n) \<and> WorkerSeesDone \<notin> set (after n) \<longrightarrow> k = depth (sm_queue s))"
      by (auto simp: shutdown_events_def)
  qed
qed

lemma Shutdown_can_leave:
  assumes "0 < sint bs" and "workers_run bs ss" and "\<forall>(n, s)\<in>set ss. k n \<le> depth (sm_queue s)"
  shows "\<exists>before after ss'. Shutdown_exporter bs before after False ss = Some (True, ss')
    \<and> (\<forall>name. \<not> offers (before name) \<and> \<not> offers (after name))
    \<and> list_all2 (\<lambda>(n, s) (n', s'). n' = n \<and> left_behind (k n) s s') ss ss'"
proof -
  let ?before = "\<lambda>_. []" and ?after = "\<lambda>n. replicate (k n) WorkerReceives @ [WorkerSeesDone]"
  have "\<exists>ss'. list_all2 (\<lambda>(n, s) (n', s'). n' = n \<and> stream_run bs (shutdown_events ?before ?after n) s = Some s') ss ss'
    \<and> list_all2 (\<lambda>(n, s) (n', s'). n' = n \<and> left_behind (k n) s s') ss ss'"
    using assms(2,3)
  proof (induction ss)
    case (Cons x ss)
    obtain n s where x: "x = (n, s)" by force
    have "\<exists>s'. stream_run bs (shutdown_events ?before ?after n) s = Some s' \<and> left_behind (k n) s s'"
      using shutdown_leaves[OF assms(1), of s "k n"] Cons.prems unfolding shutdown_events_def x workers_run_def by simp
    then obtain s' where s': "stream_run bs (shutdown_events ?before ?after n) s = Some s'" "left_behind (k n) s s'" by blast
    have "workers_run bs ss" "\<forall>(n, s)\<in>set ss. k n \<le> depth (sm_queue s)" using Cons.prems by (auto simp: workers_run_def)
    from Cons.IH[OF this] obtain ss' where
      "list_all2 (\<lambda>(n, s) (n', s'). n' = n \<and> stream_run bs (shutdown_events ?before ?after n) s = Some s') ss ss'"
      "list_all2 (\<lambda>(n, s) (n', s'). n' = n \<and> left_behind (k n) s s') ss ss'" by blast
    with s' show ?case by (intro exI[of _ "(n, s') # ss'"]) (simp add: x)
  qed simp
  then obtain ss' where run: "run_streams bs (shutdown_events ?before ?after) ss = Some ss'"
    and left: "list_all2 (\<lambda>(n, s) (n', s'). n' = n \<and> left_behind (k n) s s') ss ss'"
    unfolding run_streams_Some by blast
  from left have "list_all (\<lambda>(_, s). \<not> wk_running (sm_worker s)) ss'"
    by (induction rule: list_all2_induct) (auto simp: left_behind_def)
  with run have "Shutdown_exporter bs ?before ?after False ss = Some (True, ss')" by (simp add: Shutdown_exporter_def)
  moreover have "\<forall>name. \<not> offers (?before name) \<and> \<not> offers (?after name)" by (simp add: offers_def list_ex_iff)
  ultimately show ?thesis using left by blast
qed

text \<open>The workers of a new exporter run, and still do after any events before a shutdown that stopped none of them.\<close>

lemma Start_workers_run: "0 < sint bs \<Longrightarrow> workers_run bs (Start_exporter e)"
  using worker_start_inv[of bs] by (auto simp: workers_run_def Start_exporter_def start_stream_def list_all_iff worker_start_def)

end
