(* ===== verification/Linker_Run.thy ===== *)
theory Linker_Run
  imports Linking Stripe_Client Export_Stream
begin

text \<open>
  The one-shot modes of \<open>main.go\<close>: \<open>runMatcherPipeline\<close> and \<open>runBillingExportMode\<close>, from the client and
  the exporter to the shutdown of the queues. Log output and the sleeps are left out; the exporter's
  workers do not receive before the shutdown, so the queues of the result show what was offered to them, and the
  last section carries that over to every schedule of the workers.

  A run ends, ends the process with \<open>log.Fatal\<close>, dereferences nil, or waits for ever in the rate limiter.
\<close>

datatype 'e fatal =
    StripeSourceMissing | ClientFailed "'e stripe_error" | SmokeCheckFailed "'e stripe_error"
  | ExporterFailed export_error | SubsFailed "'e stripe_error" | InvsFailed "'e stripe_error"
  | RunFailed pipeline_error

datatype ('e, 'r) outcome = Finished 'r | Fatal "'e fatal" | NilDereference | Waiting

definition bindO :: "('e, 'a) outcome \<Rightarrow> ('a \<Rightarrow> ('e, 'b) outcome) \<Rightarrow> ('e, 'b) outcome" where
  "bindO r f = (case r of Finished x \<Rightarrow> f x | Fatal e \<Rightarrow> Fatal e | NilDereference \<Rightarrow> NilDereference | Waiting \<Rightarrow> Waiting)"

lemma bindO_Finished: "bindO r f = Finished y \<longleftrightarrow> (\<exists>x. r = Finished x \<and> f x = Finished y)"
  by (cases r) (auto simp: bindO_def)

definition fatal_on :: "('x \<Rightarrow> 'e fatal) \<Rightarrow> ('x + 'a) \<Rightarrow> ('e, 'a) outcome" where
  "fatal_on wrap r = (case r of Inl e \<Rightarrow> Fatal (wrap e) | Inr x \<Rightarrow> Finished x)"

lemma fatal_on_Finished: "fatal_on wrap r = Finished x \<longleftrightarrow> r = Inr x"
  by (cases r) (simp_all add: fatal_on_def)

definition awaited :: "('e stripe_error \<Rightarrow> 'e fatal) \<Rightarrow> (('e stripe_error + 'a) \<times> 'e Client) option \<Rightarrow> ('e, 'a \<times> 'e Client) outcome" where
  "awaited wrap r = (case r of None \<Rightarrow> Waiting | Some (Inl e, _) \<Rightarrow> Fatal (wrap e) | Some (Inr x, c) \<Rightarrow> Finished (x, c))"

lemma awaited_Finished: "awaited wrap r = Finished (x, c) \<longleftrightarrow> r = Some (Inr x, c)"
  by (auto simp: awaited_def split: option.splits sum.splits)

record 'e run_env =
  re_start :: int
  re_now :: i64
  re_api :: "string \<Rightarrow> 'e stripe_api"
  re_wait :: "nat \<Rightarrow> rateLimiter \<Rightarrow> (bool \<times> rateLimiter) option"
  re_mkdir :: "string \<Rightarrow> bool"
  re_order :: map_order
  re_marshal_sub :: "Subscription \<Rightarrow> bytes option"
  re_marshal_inv :: "Invoice \<Rightarrow> bytes option"
  re_marshal_edge :: "LinkEdge \<Rightarrow> bytes option"

section \<open>Fetching and sanitizing\<close>

text \<open>An object whose sanitizing fails is skipped with a warning; a nil dereference ends the process.\<close>

fun sanitize_all :: "('a \<Rightarrow> sanitize_error + 'b) \<Rightarrow> 'a list \<Rightarrow> 'b list option" where
  "sanitize_all f [] = Some []"
| "sanitize_all f (x # xs) =
     (case f x of
        Inl Panic \<Rightarrow> None
      | Inl (HashFailed _) \<Rightarrow> sanitize_all f xs
      | Inr y \<Rightarrow> (case sanitize_all f xs of None \<Rightarrow> None | Some ys \<Rightarrow> Some (y # ys)))"

definition of_nil :: "'a option \<Rightarrow> ('e, 'a) outcome" where
  "of_nil r = (case r of None \<Rightarrow> NilDereference | Some x \<Rightarrow> Finished x)"

lemma of_nil_Finished: "of_nil r = Finished x \<longleftrightarrow> r = Some x"
  by (cases r) (simp_all add: of_nil_def)

definition fetch_billing :: "'e run_env \<Rightarrow> nat \<Rightarrow> bytes \<Rightarrow> 'e Client \<Rightarrow> ('e, Subscription list \<times> Invoice list) outcome" where
  "fetch_billing env n salt c =
     bindO (awaited SubsFailed (ListRawSubscriptions (re_wait env n) [] 100 c)) (\<lambda>(rawSubscriptions, c1).
     bindO (awaited InvsFailed (ListRawInvoices (re_wait env (Suc n)) [] [] 100 c1)) (\<lambda>(rawInvoices, c2).
     bindO (of_nil (sanitize_all (SanitizeSubscription salt) rawSubscriptions)) (\<lambda>modelSubscriptions.
     bindO (of_nil (sanitize_all (SanitizeInvoice salt) rawInvoices)) (\<lambda>modelInvoices.
     Finished (modelSubscriptions, modelInvoices)))))"

text \<open>An \<open>Enqueue\<close> error is logged and the loop goes on.\<close>

definition enqueue_warn :: "('p \<Rightarrow> bytes option) \<Rightarrow> 'p list \<Rightarrow> Exporter \<Rightarrow> Exporter" where
  "enqueue_warn marshal = fold (\<lambda>p x. case Enqueue marshal x StreamBilling p of Inl _ \<Rightarrow> x | Inr x' \<Rightarrow> x')"

definition export_billing :: "'e run_env \<Rightarrow> Subscription list \<Rightarrow> Invoice list \<Rightarrow> Exporter \<Rightarrow> Exporter" where
  "export_billing env subs invs x = enqueue_warn (re_marshal_inv env) invs (enqueue_warn (re_marshal_sub env) subs x)"

definition start_client :: "'e run_env \<Rightarrow> Config \<Rightarrow> ('e, 'e Client) outcome" where
  "start_client env cfg =
     (case so_Stripe (cfg_Sources cfg) of None \<Rightarrow> Fatal StripeSourceMissing
      | Some src \<Rightarrow> fatal_on ClientFailed (New_client (re_start env) (re_api env) (st_APIKey src) (st_Account src) (st_MaxRequestsPerSecond src)))"

definition start_exporter :: "'e run_env \<Rightarrow> Config \<Rightarrow> ('e, Exporter) outcome" where
  "start_exporter env cfg = fatal_on ExporterFailed
     (New (re_mkdir env) \<lparr>op_Config = cfg_Export cfg, op_TenantKey = ''test-tenant-key'', op_QueueCapacity = 500\<rparr>)"

definition pipeline_inputs :: "'e run_env \<Rightarrow> Subscription list \<Rightarrow> Invoice list \<Rightarrow> Inputs" where
  "pipeline_inputs env subs invs = \<lparr>in_Usages = seedUsage (re_now env) subs, in_Subs = ToSubscriptionLites subs,
     in_Invs = ToInvoiceLites invs\<rparr>"

definition runMatcherPipeline :: "'e run_env \<Rightarrow> Config \<Rightarrow> bytes \<Rightarrow> ('e, Result \<times> Exporter) outcome" where
  "runMatcherPipeline env cfg salt =
     bindO (start_client env cfg) (\<lambda>c.
     bindO (start_exporter env cfg) (\<lambda>x.
     bindO (fetch_billing env 0 salt c) (\<lambda>(subs, invs).
     (let x1 = export_billing env subs invs x
      in case Run (re_marshal_edge env) (re_order env) (linker_ensemble salt (mc_Recipe (cfg_Matchers cfg))) (Some x1)
           (pipeline_inputs env subs invs) of
         (Inl err, _) \<Rightarrow> Fatal (RunFailed err)
       | (Inr res, sink) \<Rightarrow> Finished (res, Shutdown_queues (case sink of None \<Rightarrow> x1 | Some x2 \<Rightarrow> x2))))))"

definition runBillingExportMode :: "'e run_env \<Rightarrow> Config \<Rightarrow> bytes \<Rightarrow> ('e, Exporter) outcome" where
  "runBillingExportMode env cfg salt =
     bindO (start_client env cfg) (\<lambda>c.
     bindO (awaited SmokeCheckFailed (SmokeCheck (re_wait env 0) c)) (\<lambda>(customerCount, c1).
     bindO (start_exporter env cfg) (\<lambda>x.
     bindO (fetch_billing env 1 salt c1) (\<lambda>(subs, invs).
     Finished (Shutdown_queues (export_billing env subs invs x))))))"

section \<open>Sanitized inputs\<close>

lemma sanitize_all_Some:
  "sanitize_all f xs = Some ys \<Longrightarrow> y \<in> set ys \<Longrightarrow> \<exists>x\<in>set xs. f x = Inr y"
proof (induction xs arbitrary: ys)
  case (Cons x xs)
  then show ?case by (fastforce split: sum.splits sanitize_error.splits option.splits)
qed simp

lemma fetch_billing_Finished:
  assumes "fetch_billing env n salt c = Finished (subs, invs)"
  shows "(\<forall>m\<in>set subs. \<exists>s. SanitizeSubscription salt (s :: stripe_subscription) = Inr m)
    \<and> (\<forall>m\<in>set invs. \<exists>i. SanitizeInvoice salt (i :: stripe_invoice) = Inr m)"
proof -
  obtain rs ri where "sanitize_all (SanitizeSubscription salt) (rs :: stripe_subscription list) = Some subs"
    "sanitize_all (SanitizeInvoice salt) (ri :: stripe_invoice list) = Some invs"
    using assms by (auto simp: fetch_billing_def bindO_Finished of_nil_Finished split: prod.splits)
  then show ?thesis by (meson sanitize_all_Some)
qed

text \<open>Creation times that the seed offsets keep positive.\<close>

definition recent :: "i64 \<Rightarrow> bool" where
  "recent t \<longleftrightarrow> 0 < sint t \<and> sint t < 2 ^ 62"

lemma sint_plus_small: "recent t \<Longrightarrow> n \<le> 1000 \<Longrightarrow> 0 < sint (t + of_nat n)"
  using sint_add_no_wrap[of t "of_nat n"] sint_in_range[of "int n"] by (simp add: recent_def)

lemma seed_events_ok:
  assumes "SanitizeSubscription salt (s :: stripe_subscription) = Inr m" "recent (sub_CreatedAt m)" "i < 5" "u \<in> set (seed_events i m)"
  shows "IsSyntheticID (us_User u) \<and> 0 < sint (us_At u)"
  using assms SanitizeSubscription_synthetic[OF assms(1)] sint_plus_small[OF assms(2), of "i * 60"] sint_plus_small[OF assms(2), of "i * 120"]
  by (auto simp: seed_events_def split: list.splits if_splits)

lemma seedUsage_ok:
  assumes "\<forall>m\<in>set subs. (\<exists>s. SanitizeSubscription salt (s :: stripe_subscription) = Inr m) \<and> recent (sub_CreatedAt m)"
    and "600 < sint now" and "u \<in> set (seedUsage now subs)"
  shows "IsSyntheticID (us_User u) \<and> 0 < sint (us_At u)"
proof (cases "u \<in> set (concat (map (\<lambda>(i, sub). seed_events i sub) (enumerate 0 (take 5 subs))))")
  case False
  have "sint (now - 600) = sint now - 600"
    using sint_add_no_wrap[of now "- 600"] assms(2) sint_bounds64[of now] by simp
  with False assms(2,3) show ?thesis by (auto simp: seedUsage_def Let_def IsSyntheticID_def has_prefix_def simp del: set_concat concat_eq_Nil_conv split: if_splits)
next
  case True
  then obtain i m where "(i, m) \<in> set (enumerate 0 (take 5 subs))" "u \<in> set (seed_events i m)"
    by auto
  then have "i < 5" "m \<in> set subs" "u \<in> set (seed_events i m)"
    by (auto simp: in_set_enumerate_eq dest!: in_set_takeD intro: in_set_takeD) 
  with assms(1) seed_events_ok show ?thesis by blast
qed

text \<open>What the linker feeds into the pipeline passes its input check.\<close>

lemma pipeline_inputs_valid:
  assumes "fetch_billing env n salt c = Finished (subs, invs)" and "\<forall>m\<in>set subs. recent (sub_CreatedAt m)" and "600 < sint (re_now env)"
  shows "validateInputs (pipeline_inputs env subs invs) = None"
proof -
  note f = fetch_billing_Finished[OF assms(1)]
  have "\<forall>u\<in>set (seedUsage (re_now env) subs). IsSyntheticID (us_User u) \<and> 0 < sint (us_At u)"
    using seedUsage_ok[of subs salt "re_now env"] f assms(2,3) by blast
  moreover have "\<forall>s\<in>set (ToSubscriptionLites subs). IsSyntheticID (sl_ID s) \<and> IsSyntheticID (sl_Customer s)
      \<and> (\<forall>p\<in>set (sl_PriceIDs s) \<union> set (sl_ProductIDs s). IsSyntheticID p)"
    using f sanitized_sub_lite by (fastforce simp: ToSubscriptionLites_def)
  moreover have "\<forall>i\<in>set (ToInvoiceLites invs). IsSyntheticID (il_ID i) \<and> IsSyntheticID (il_Customer i) \<and> synthetic_or_none (il_Subscription i)"
    using f sanitized_inv_lite by (fastforce simp: ToInvoiceLites_def)
  ultimately show ?thesis unfolding validateInputs_None inputs_synthetic_def by (simp add: pipeline_inputs_def)
qed

text \<open>Without a tenant salt, as the passthrough mode allows, nothing can be sanitized.\<close>

lemma no_salt_no_records:
  assumes "fetch_billing env n [] c = Finished (subs, invs)"
  shows "subs = [] \<and> invs = []"
proof -
  have "\<not> (\<exists>s. SanitizeSubscription [] (s :: stripe_subscription) = Inr m)" for m
    using SanitizeSubscription_InrD[of "[]" _ m] by (auto dest: SyntheticID_InrD)
  moreover have "\<not> (\<exists>i. SanitizeInvoice [] (i :: stripe_invoice) = Inr m)" for m
    using SanitizeInvoice_InrD[of "[]" _ m] by (auto dest: SyntheticID_InrD)
  ultimately show ?thesis using fetch_billing_Finished[OF assms] by (meson list.set_sel(1))
qed

section \<open>A run completes\<close>

lemma enqueue_warn_keeps:
  "ex_cfg (enqueue_warn marshal ps x) = ex_cfg x \<and> fst ` set (ex_streams (enqueue_warn marshal ps x)) = fst ` set (ex_streams x)"
proof (induction ps arbitrary: x)
  case (Cons p ps)
  have "ex_cfg (case Enqueue marshal x StreamBilling p of Inl _ \<Rightarrow> x | Inr x' \<Rightarrow> x') = ex_cfg x
    \<and> fst ` set (ex_streams (case Enqueue marshal x StreamBilling p of Inl _ \<Rightarrow> x | Inr x' \<Rightarrow> x')) = fst ` set (ex_streams x)"
    using Enqueue_streams(2,3)[of marshal x StreamBilling p] by (cases "Enqueue marshal x StreamBilling p") simp_all
  then show ?case using Cons.IH by (simp add: enqueue_warn_def)
qed (simp add: enqueue_warn_def)

lemma export_billing_keeps:
  "ex_cfg (export_billing env subs invs x) = ex_cfg x"
  "fst ` set (ex_streams (export_billing env subs invs x)) = fst ` set (ex_streams x)"
  using enqueue_warn_keeps[of "re_marshal_inv env" invs] enqueue_warn_keeps[of "re_marshal_sub env" subs x]
  by (simp_all add: export_billing_def)

text \<open>The directories of the configured export files, which \<open>New\<close> creates.\<close>

definition file_dirs_made :: "'e run_env \<Rightarrow> Config \<Rightarrow> bool" where
  "file_dirs_made env cfg \<longleftrightarrow> (mode_file (cfg_Export cfg) \<longrightarrow>
     (\<forall>(s, path)\<in>set (case xf_Paths (xp_File (cfg_Export cfg)) of None \<Rightarrow> [] | Some kvs \<Rightarrow> kvs). re_mkdir env path))"

lemma start_exporter_ok:
  assumes "export_valid (cfg_Export cfg)" and "file_dirs_made env cfg"
  obtains x where "start_exporter env cfg = Finished x" "validateStreamConfig x StreamEdges = None" "StreamEdges \<in> fst ` set (ex_streams x)"
proof -
  let ?o = "\<lparr>op_Config = cfg_Export cfg, op_TenantKey = ''test-tenant-key'', op_QueueCapacity = 500\<rparr>"
  have "is_ok (New (re_mkdir env) ?o)"
    using assms(2) by (cases "xf_Paths (xp_File (cfg_Export cfg))")
      (auto simp: New_def Let_def positive_or_def list_all_iff file_dirs_made_def)
  then obtain x where x: "New (re_mkdir env) ?o = Inr x" unfolding is_ok_iff by blast
  from New_Inr(5)[OF x] have "StreamEdges \<in> set (map fst (ex_streams x))" by simp
  moreover have "validateStreamConfig x StreamEdges = None"
    using assms(1) New_Inr(4)[OF x] by (auto simp: validateStreamConfig_None export_valid_def StreamEdges_def)
  ultimately show thesis using that[of x] x by (simp add: start_exporter_def fatal_on_def)
qed

lemma start_exporter_mkdir_fails:
  "\<not> file_dirs_made env cfg \<Longrightarrow> start_exporter env cfg = Fatal (ExporterFailed MkdirFailed)"
  by (cases "xf_Paths (xp_File (cfg_Export cfg))")
    (auto simp: start_exporter_def fatal_on_def New_def Let_def positive_or_def list_all_iff file_dirs_made_def)

lemma start_client_ok:
  assumes "sources_valid (cfg_Sources cfg)" and "so_Stripe (cfg_Sources cfg) \<noteq> None"
  shows "\<exists>c. start_client env cfg = Finished c"
  using assms by (auto simp: start_client_def sources_valid_def New_client_def fatal_on_def)

lemma runMatcherPipeline_completes:
  assumes cfg: "config_valid cfg" "so_Stripe (cfg_Sources cfg) \<noteq> None"
    and env: "file_dirs_made env cfg" "\<forall>e. re_marshal_edge env e \<noteq> None" "600 < sint (re_now env)"
    and fetch: "\<And>c. start_client env cfg = Finished c \<Longrightarrow> fetch_billing env 0 salt c = Finished (subs, invs)"
    and recent: "\<forall>m\<in>set subs. recent (sub_CreatedAt m)"
  shows "\<exists>res x x'. start_exporter env cfg = Finished x \<and> runMatcherPipeline env cfg salt = Finished (res, Shutdown_queues x')
    \<and> map_of (ex_streams x') StreamEdges = map_option (fold (\<lambda>e. enqueue (the (re_marshal_edge env e))) (rs_Edges res))
        (map_of (ex_streams (export_billing env subs invs x)) StreamEdges)"
proof -
  obtain c where c: "start_client env cfg = Finished c"
    using start_client_ok[of cfg env] cfg by (auto simp: config_valid_def)
  obtain x where x: "start_exporter env cfg = Finished x" "validateStreamConfig x StreamEdges = None" "StreamEdges \<in> fst ` set (ex_streams x)"
    using start_exporter_ok[of cfg env] cfg env(1) by (auto simp: config_valid_def)
  let ?x1 = "export_billing env subs invs x" and ?r = "mc_Recipe (cfg_Matchers cfg)"
  have v: "validateInputs (pipeline_inputs env subs invs) = None"
    by (rule pipeline_inputs_valid[OF fetch[OF c] recent env(3)])
  have m: "is_ok (run_matchers (en_Matchers (linker_ensemble salt ?r)) (pipeline_inputs env subs invs) [] [])"
  proof (cases "salt = []")
    case True
    with no_salt_no_records fetch[OF c] have "subs = []" "invs = []" by blast+
    then show ?thesis by (intro linker_no_billing_ok) (simp_all add: pipeline_inputs_def ToSubscriptionLites_def ToInvoiceLites_def)
  qed (rule linker_run_matchers_ok)
  have ok: "StreamEdges \<in> fst ` set (ex_streams ?x1) \<and> validateStreamConfig ?x1 StreamEdges = None \<and> (\<forall>e. re_marshal_edge env e \<noteq> None)"
    using x env(2) export_billing_keeps[of env subs invs x] validateStreamConfig_cong[of ?x1 x] by simp
  obtain res x' where r: "Run (re_marshal_edge env) (re_order env) (linker_ensemble salt ?r) (Some ?x1)
      (pipeline_inputs env subs invs) = (Inr res, Some x')"
    and q: "map_of (ex_streams x') StreamEdges = map_option (fold (\<lambda>e. enqueue (the (re_marshal_edge env e))) (rs_Edges res)) (map_of (ex_streams ?x1) StreamEdges)"
    using linker_Run_ok[where sink = "Some ?x1" and marshal = "re_marshal_edge env" and ord = "re_order env", OF m v] ok by auto
  have "runMatcherPipeline env cfg salt = Finished (res, Shutdown_queues x')"
    by (simp add: runMatcherPipeline_def c x(1) fetch[OF c] bindO_def r Let_def)
  with x(1) q show ?thesis by blast
qed

lemma runMatcherPipeline_mkdir_fails:
  assumes "config_valid cfg" "so_Stripe (cfg_Sources cfg) \<noteq> None" and "\<not> file_dirs_made env cfg"
  shows "runMatcherPipeline env cfg salt = Fatal (ExporterFailed MkdirFailed)"
proof -
  obtain c where "start_client env cfg = Finished c"
    using start_client_ok[of cfg env] assms by (auto simp: config_valid_def)
  then show ?thesis by (simp add: runMatcherPipeline_def bindO_def start_exporter_mkdir_fails[OF assms(3)])
qed

section \<open>What a run exports\<close>

text \<open>Every stream's queue got some payloads offered, all of which satisfy \<open>P\<close>.\<close>

definition got :: "(string \<Rightarrow> bytes \<Rightarrow> bool) \<Rightarrow> Exporter \<Rightarrow> Exporter \<Rightarrow> bool" where
  "got P x x' \<longleftrightarrow> (\<forall>name. \<exists>ds. (\<forall>d\<in>set ds. P name d)
     \<and> map_of (ex_streams x') name = map_option (fold enqueue ds) (map_of (ex_streams x) name))"

lemma got_refl: "got P x x"
  unfolding got_def by (intro allI exI[of _ "[]"]) (simp add: option.map_id)

lemma got_trans:
  assumes "got P x y" and "got P y z" shows "got P x z"
  unfolding got_def
proof
  fix name
  obtain ds es where "\<forall>d\<in>set ds. P name d" "\<forall>d\<in>set es. P name d"
    "map_of (ex_streams y) name = map_option (fold enqueue ds) (map_of (ex_streams x) name)"
    "map_of (ex_streams z) name = map_option (fold enqueue es) (map_of (ex_streams y) name)"
    using assms unfolding got_def by blast
  then show "\<exists>ds. (\<forall>d\<in>set ds. P name d) \<and> map_of (ex_streams z) name = map_option (fold enqueue ds) (map_of (ex_streams x) name)"
    by (intro exI[of _ "ds @ es"]) (auto simp: option.map_comp comp_def)
qed

lemma Enqueue_got:
  assumes "Enqueue marshal x name p = Inr x'" and "\<And>d. marshal p = Some d \<Longrightarrow> P name d"
  shows "got P x x'"
  unfolding got_def
proof
  fix name'
  obtain d where d: "marshal p = Some d" using assms(1) by (auto simp: Enqueue_Inr_iff)
  show "\<exists>ds. (\<forall>d\<in>set ds. P name' d) \<and> map_of (ex_streams x') name' = map_option (fold enqueue ds) (map_of (ex_streams x) name')"
    using assms(2)[OF d] d
    by (intro exI[of _ "if name' = name then [d] else []"]) (simp add: Enqueue_streams(1)[OF assms(1)] option.map_id)
qed

lemma enqueue_warn_got:
  assumes "\<And>p d. p \<in> set ps \<Longrightarrow> marshal p = Some d \<Longrightarrow> P StreamBilling d"
  shows "got P x (enqueue_warn marshal ps x)"
  using assms
proof (induction ps arbitrary: x)
  case (Cons p ps)
  let ?x = "case Enqueue marshal x StreamBilling p of Inl _ \<Rightarrow> x | Inr x' \<Rightarrow> x'"
  have "got P x ?x" using Cons.prems[of p] by (auto split: sum.splits intro: got_refl Enqueue_got)
  moreover have "got P ?x (enqueue_warn marshal ps ?x)" by (rule Cons.IH) (rule Cons.prems[OF list.set_intros(2)])
  ultimately show ?case by (auto simp: enqueue_warn_def intro: got_trans)
qed (simp add: enqueue_warn_def got_refl)

lemma enqueue_edges_got:
  assumes "enqueue_edges marshal x es = (None, x')" and "\<And>e d. e \<in> set es \<Longrightarrow> marshal e = Some d \<Longrightarrow> P StreamEdges d"
  shows "got P x x'"
  using assms
proof (induction es arbitrary: x)
  case (Cons e es)
  then obtain y where y: "Enqueue marshal x StreamEdges e = Inr y" "enqueue_edges marshal y es = (None, x')"
    by (auto split: sum.splits)
  have "got P x y" using Enqueue_got[OF y(1)] Cons.prems(2)[of e] by simp
  moreover have "got P y x'" by (rule Cons.IH[OF y(2)]) (rule Cons.prems(2)[OF list.set_intros(2)])
  ultimately show ?case by (rule got_trans)
qed (simp add: got_refl)

text \<open>Payloads that name nobody: records whose identifiers are all synthetic, and edges between synthetic identifiers.\<close>

definition private_payload :: "'e run_env \<Rightarrow> string \<Rightarrow> bytes \<Rightarrow> bool" where
  "private_payload env name d \<longleftrightarrow>
     name = StreamBilling \<and> (\<exists>m. re_marshal_sub env m = Some d \<and> IsSyntheticID (sub_ID m) \<and> IsSyntheticID (sub_Customer m)
        \<and> (\<forall>i\<in>set (sub_Items m). synthetic_or_none (item_PriceID i) \<and> synthetic_or_none (item_ProductID i)))
   \<or> name = StreamBilling \<and> (\<exists>m. re_marshal_inv env m = Some d \<and> IsSyntheticID (inv_ID m) \<and> IsSyntheticID (inv_Customer m)
        \<and> synthetic_or_none (inv_Subscription m))
   \<or> name = StreamEdges \<and> (\<exists>e. re_marshal_edge env e = Some d \<and> IsSyntheticID (le_From e) \<and> IsSyntheticID (le_To e))"

lemma export_billing_got:
  assumes "fetch_billing env n salt c = Finished (subs, invs)"
  shows "got (private_payload env) x (export_billing env subs invs x)"
proof -
  note f = fetch_billing_Finished[OF assms]
  have "got (private_payload env) x (enqueue_warn (re_marshal_sub env) subs x)"
    using f SanitizeSubscription_synthetic by (intro enqueue_warn_got) (fastforce simp: private_payload_def)
  moreover have "got (private_payload env) y (enqueue_warn (re_marshal_inv env) invs y)" for y
    using f SanitizeInvoice_synthetic by (intro enqueue_warn_got) (fastforce simp: private_payload_def)
  ultimately show ?thesis unfolding export_billing_def by (blast intro: got_trans)
qed

lemma runMatcherPipeline_got:
  fixes env :: "'e run_env"
  assumes "map_order_ok (re_order env)" and "runMatcherPipeline env cfg salt = Finished (res, x')"
  obtains x x2 where "start_exporter env cfg = Finished x" "x' = Shutdown_queues x2" "got (private_payload env) x x2"
proof -
  from assms(2) obtain c x b where x: "start_exporter env cfg = Finished x" and b: "fetch_billing env 0 salt c = Finished b"
    and r: "(case b of (subs, invs) \<Rightarrow> let x1 = export_billing env subs invs x in case Run (re_marshal_edge env) (re_order env)
          (linker_ensemble salt (mc_Recipe (cfg_Matchers cfg))) (Some x1) (pipeline_inputs env subs invs) of
         (Inl err, _) \<Rightarrow> Fatal (RunFailed err)
       | (Inr res, sink) \<Rightarrow> Finished (res, Shutdown_queues (case sink of None \<Rightarrow> x1 | Some x2 \<Rightarrow> x2))) = (Finished (res, x') :: ('e, Result \<times> Exporter) outcome)"
    unfolding runMatcherPipeline_def bindO_Finished by blast
  obtain subs invs where "b = (subs, invs)" by force
  with b r have f: "fetch_billing env 0 salt c = Finished (subs, invs)" by simp
  obtain res' sink where run: "Run (re_marshal_edge env) (re_order env) (linker_ensemble salt (mc_Recipe (cfg_Matchers cfg)))
        (Some (export_billing env subs invs x)) (pipeline_inputs env subs invs) = (res', sink)" by force
  from r run \<open>b = (subs, invs)\<close> have run: "Run (re_marshal_edge env) (re_order env) (linker_ensemble salt (mc_Recipe (cfg_Matchers cfg)))
        (Some (export_billing env subs invs x)) (pipeline_inputs env subs invs) = (Inr res, sink)"
    and x': "x' = Shutdown_queues (case sink of None \<Rightarrow> export_billing env subs invs x | Some x2 \<Rightarrow> x2)"
    by (auto simp: Let_def split: sum.splits)
  let ?x1 = "export_billing env subs invs x"
  obtain x2 where sink: "sink = Some x2" and e: "enqueue_edges (re_marshal_edge env) ?x1 (rs_Edges res) = (None, x2)"
    by (rule Run_Inr[OF run]) auto
  have "IsSyntheticID (le_From e) \<and> IsSyntheticID (le_To e)" if "e \<in> set (rs_Edges res)" for e
    using Run_edges_synthetic[OF assms(1) _ run that] linker_ensemble_matchers[of _ salt] by blast
  then have "got (private_payload env) ?x1 x2"
    by (intro enqueue_edges_got[OF e]) (auto simp: private_payload_def)
  with export_billing_got[OF f, of x] have "got (private_payload env) x x2" by (rule got_trans)
  with x x' sink show thesis by (intro that[of x x2]) simp_all
qed

lemma runBillingExportMode_got:
  assumes "runBillingExportMode env cfg salt = Finished x'"
  obtains x x2 where "start_exporter env cfg = Finished x" "x' = Shutdown_queues x2" "got (private_payload env) x x2"
proof -
  from assms obtain c x subs invs where x: "start_exporter env cfg = Finished x"
    and f: "fetch_billing env 1 salt c = Finished (subs, invs)" and x': "x' = Shutdown_queues (export_billing env subs invs x)"
    by (auto simp: runBillingExportMode_def bindO_Finished split: prod.splits)
  then show thesis using export_billing_got[OF f, of x] by (intro that)
qed

text \<open>The final queues show what was offered, and a worker sends nothing else, whatever the schedule.\<close>

lemma got_exports_private:
  assumes "start_exporter env cfg = Finished x" and "got P x x2" and "map_of (ex_streams (Shutdown_queues x2)) name = Some q"
  shows "\<exists>cap ds. q = close (fold enqueue ds (newQueue cap)) \<and> (\<forall>d\<in>set ds. P name d)
    \<and> (\<forall>evs s. stream_run (ex_batchSize x) evs (start_stream (newQueue cap)) = Some s \<and> sm_offered s = ds \<longrightarrow> (\<forall>d\<in>set (sent s). P name d))"
proof -
  from assms(1) have new: "New (re_mkdir env) \<lparr>op_Config = cfg_Export cfg, op_TenantKey = ''test-tenant-key'', op_QueueCapacity = 500\<rparr> = Inr x"
    by (simp add: start_exporter_def fatal_on_Finished)
  have "map_of (map (\<lambda>(s, q). (s, close q)) xs) name = map_option close (map_of xs name)" for xs
    by (induction xs) auto
  with assms(3) obtain q2 where q2: "map_of (ex_streams x2) name = Some q2" "q = close q2"
    by (auto simp: Shutdown_queues_def)
  from assms(2) obtain ds where ds: "\<forall>d\<in>set ds. P name d"
    and eq: "map_of (ex_streams x2) name = map_option (fold enqueue ds) (map_of (ex_streams x) name)" unfolding got_def by blast
  obtain q1 where q1: "map_of (ex_streams x) name = Some q1" "q2 = fold enqueue ds q1"
    using eq q2(1) by (cases "map_of (ex_streams x) name") simp_all
  then obtain cap where "q1 = newQueue cap" using New_Inr(6)[OF new] by (auto dest!: map_of_SomeD)
  moreover have "\<forall>d\<in>set (sent s). P name d"
    if "stream_run (ex_batchSize x) evs (start_stream (newQueue cap)) = Some s \<and> sm_offered s = ds" for evs s
    using stream_sends_offered[OF New_Inr(1)[OF new]] that ds by blast
  ultimately show ?thesis using q1(2) q2(2) ds by blast
qed

text \<open>Without a tenant salt no billing record is exported.\<close>

lemma no_salt_exports_nothing:
  assumes "runBillingExportMode env cfg [] = Finished x'" and "(name, q) \<in> set (ex_streams x')"
  shows "q_ch q = []"
proof -
  obtain c x subs invs where x: "start_exporter env cfg = Finished x"
    and f: "fetch_billing env 1 [] c = Finished (subs, invs)" and x': "x' = Shutdown_queues (export_billing env subs invs x)"
    using assms(1) by (auto simp: runBillingExportMode_def bindO_Finished split: prod.splits)
  have "New (re_mkdir env) \<lparr>op_Config = cfg_Export cfg, op_TenantKey = ''test-tenant-key'', op_QueueCapacity = 500\<rparr> = Inr x"
    using x by (simp add: start_exporter_def fatal_on_Finished)
  from New_Inr(6)[OF this] assms(2) no_salt_no_records[OF f] show ?thesis
    by (auto simp: x' export_billing_def enqueue_warn_def Shutdown_queues_def close_def newQueue_def)
qed

end
