(* ===== verification/Webhook_Server.thy ===== *)
theory Webhook_Server
  imports Webhook_Worker Polling Linker_Run
begin

text \<open>
  \<open>runWebhookServer\<close> in \<open>main.go\<close>: what it builds from the configuration, and the running server as a
  sequence of events: webhook requests, turns of the job loop, heartbeats, poll cycles, and the
  goroutines that see the cancelled context. The file system, the clock, randomness, Stripe, JSON and
  the servers on the other side are arguments. The routes, the probes and the end of the process
  are in \<open>Linker_Main\<close>, the exporter's own workers in \<open>Export_Stream\<close>; log output is left out.
\<close>

datatype server_error =
    AgentIDFailed id_error | StateFailed state_error | AgentFailed agent_error
  | NoStripeSource | WebhookDisabled | ServerExporterFailed export_error
  | WorkerFailed worker_error | HandlerFailed handler_error | HeartbeatFailed heartbeat_error
  | PollerFailed poller_error

record server =
  sv_agent :: agent_world
  sv_worker :: "Worker option"
  sv_handler :: Handler
  sv_heartbeat :: "HeartbeatSender option"
  sv_poller :: "(agent_world, agent_error command_error) Poller option"
  sv_looping :: bool

record server_env =
  se_home :: "string option"
  se_random :: "bytes option"
  se_faults :: faults
  se_codec :: state_codec
  se_now :: int
  se_mkdir :: "string \<Rightarrow> bool"
  se_metrics :: Metrics

section \<open>Start\<close>

text \<open>The worker as the handler's \<open>JobProcessor\<close>; \<open>None\<close> is a process that a panic ended.\<close>

definition worker_process :: "(f64 \<Rightarrow> i64) \<Rightarrow> (Job \<Rightarrow> worker_env) \<Rightarrow> Worker option processor" where
  "worker_process conv env job wo =
     (case wo of None \<Rightarrow> (None, False)
      | Some w \<Rightarrow> (case pr_outcome (Process conv (env job) job w) of
            JobPanic \<Rightarrow> (None, False)
          | JobDone err \<Rightarrow> (Some (pr_worker (Process conv (env job) job w)), err = None)))"

definition heartbeat_endpoint :: "Config \<Rightarrow> string" where
  "heartbeat_endpoint cfg = (if hb_Endpoint (cfg_Heartbeat cfg) \<noteq> [] then hb_Endpoint (cfg_Heartbeat cfg)
     else cfg_CDPBaseURL cfg @ ''/api/agent/heartbeat'')"

definition optionally :: "bool \<Rightarrow> ('e + 'a) \<Rightarrow> 'e + 'a option" where
  "optionally b r = (if b then (case r of Inl e \<Rightarrow> Inl e | Inr x \<Rightarrow> Inr (Some x)) else Inr None)"

definition map_error :: "('e \<Rightarrow> 'f) \<Rightarrow> 'e + 'a \<Rightarrow> 'f + 'a" where
  "map_error f r = (case r of Inl e \<Rightarrow> Inl (f e) | Inr x \<Rightarrow> Inr x)"

definition start_agent :: "server_env \<Rightarrow> Config \<Rightarrow> files \<Rightarrow> server_error + agent_world" where
  "start_agent env cfg fs =
     (case GetOrCreate (se_faults env) (se_random env) (NewGenerator (se_home env) []) fs of
        (Inl err, _) \<Rightarrow> Inl (AgentIDFailed err)
      | (Inr agentID, fs1) \<Rightarrow>
          bindE (map_error StateFailed (NewManager (se_faults env) (se_codec env) fs1 ''/home/nonroot/.connektn/agent-state.json''))
            (\<lambda>stateManager.
          bindE (map_error AgentFailed (New_agent (se_now env)
              \<lparr>ao_AgentID = agentID, ao_OrganizationID = ac_OrganizationID (cfg_Agent cfg), ao_Version = ac_Version (cfg_Agent cfg),
               ao_InitialMode = pv_Mode (cfg_Privacy cfg), ao_StateManager = Some stateManager\<rparr>))
            (\<lambda>agent. Inr \<lparr>aw_agent = agent, aw_files = fs1, aw_cancelled = False\<rparr>)))"

definition start_worker :: "server_env \<Rightarrow> Config \<Rightarrow> bytes \<Rightarrow> StripeSource \<Rightarrow> server_error + Worker" where
  "start_worker env cfg salt src =
     bindE (map_error ServerExporterFailed (New (se_mkdir env)
         \<lparr>op_Config = cfg_Export cfg, op_TenantKey = ''test-tenant-key'', op_QueueCapacity = 500\<rparr>)) (\<lambda>exp.
       map_error WorkerFailed (NewWorker \<lparr>wo_StripeAPIKey = st_APIKey src, wo_StripeAccount = st_Account src,
         wo_TenantSalt = salt, wo_Ensemble = linker_ensemble salt (mc_Recipe (cfg_Matchers cfg)), wo_Exporter = Some exp,
         wo_RetryConfig = wh_Retry (st_Webhook src)\<rparr>))"

definition start_poller :: "server_env \<Rightarrow> Config \<Rightarrow> string
    \<Rightarrow> poller_error + (agent_world, agent_error command_error) Poller" where
  "start_poller env cfg agentID =
     bindE (NewPoller \<lparr>pf_CDPBaseURL = cfg_CDPBaseURL cfg, pf_AgentID = agentID,
         pf_OrganizationID = ac_OrganizationID (cfg_Agent cfg), pf_Secret = cp_SignatureSecret (cfg_CommandPolling cfg),
         pf_Interval = cp_Interval (cfg_CommandPolling cfg), pf_Timeout = cp_Timeout (cfg_CommandPolling cfg)\<rparr>)
       (\<lambda>p. Inr (agent_poller (se_faults env) (se_codec env) p))"

definition start_server :: "(f64 \<Rightarrow> i64) \<Rightarrow> (Job \<Rightarrow> worker_env) \<Rightarrow> server_env \<Rightarrow> Config \<Rightarrow> bytes \<Rightarrow> files \<Rightarrow> server_error + server" where
  "start_server conv wenv env cfg salt fs =
     bindE (start_agent env cfg fs) (\<lambda>aw.
     (case so_Stripe (cfg_Sources cfg) of None \<Rightarrow> Inl NoStripeSource
      | Some src \<Rightarrow>
          if \<not> wh_Enabled (st_Webhook src) then Inl WebhookDisabled
          else bindE (start_worker env cfg salt src) (\<lambda>worker.
            bindE (map_error HandlerFailed (NewHandler (se_metrics env)
              \<lparr>ho_Config = st_Webhook src, ho_Worker = Some (worker_process conv wenv), ho_QueueDepth = 1000\<rparr>)) (\<lambda>(handler, _).
            bindE (map_error HeartbeatFailed (optionally (hb_Enabled (cfg_Heartbeat cfg)) (NewHeartbeatSender (se_now env)
              (heartbeat_endpoint cfg) (hb_Interval (cfg_Heartbeat cfg)) (hb_SignatureSecret (cfg_Heartbeat cfg))))) (\<lambda>hb.
            bindE (map_error PollerFailed (optionally (cp_Enabled (cfg_CommandPolling cfg))
              (start_poller env cfg (ag_id (aw_agent aw))))) (\<lambda>poller.
            Inr \<lparr>sv_agent = SetShutdownFunc aw, sv_worker = Some worker, sv_handler = handler, sv_heartbeat = hb,
                 sv_poller = poller, sv_looping = True\<rparr>))))))"

section \<open>The running server\<close>

datatype server_event =
    Request int http_request
  | LoopTurn loop_event
  | Beat net_env
  | BeatStops
  | PollCycle nat "nat \<Rightarrow> net_env"
  | PollStops

datatype server_output = Responded http_result | HeartbeatPosted "signed_request option" | CycleDone bool

record run_args =
  ra_conv :: "f64 \<Rightarrow> i64"
  ra_env :: "Job \<Rightarrow> worker_env"
  ra_parse :: "bytes \<Rightarrow> stripeEvent option"
  ra_payload :: "Payload \<Rightarrow> bytes option"
  ra_poll :: poll_codec
  ra_show :: "agent_error command_error exec_error \<Rightarrow> string"

text \<open>The three goroutines end only when they see the cancelled context, which is also the context of the requests the
  heartbeat sender and the poller send. \<open>PollCycle\<close> carries fuel for the chain of polls of one cycle; a cycle that is not
  yet ended when it runs out goes on with a next one, since all that is left of it is to poll again.\<close>

fun server_step :: "run_args \<Rightarrow> server_event \<Rightarrow> server \<Rightarrow> server_output option \<times> server" where
  "server_step ra (Request now r) s =
     (case ServeHTTP (ra_parse ra) now r (sv_handler s) of (h, res) \<Rightarrow> (Some (Responded res), s\<lparr>sv_handler := h\<rparr>))"
| "server_step ra (LoopTurn choice) s =
     (if \<not> sv_looping s \<or> choice = CtxDone \<and> \<not> aw_cancelled (sv_agent s) then (None, s)
      else case processJobs (worker_process (ra_conv ra) (ra_env ra)) [choice] (sv_handler s) (sv_worker s) of
        (running, h, w) \<Rightarrow> (None, s\<lparr>sv_handler := h, sv_worker := w, sv_looping := running\<rparr>))"
| "server_step ra (Beat env) s =
     (case sv_heartbeat s of None \<Rightarrow> (None, s)
      | Some hb \<Rightarrow> (case sendHeartbeat (ra_payload ra) (under (aw_cancelled (sv_agent s)) env) (aw_agent (sv_agent s))
              (map_option wr_exporter (sv_worker s)) hb of
            (_, hb', req) \<Rightarrow> (Some (HeartbeatPosted req), s\<lparr>sv_heartbeat := Some hb'\<rparr>)))"
| "server_step ra BeatStops s = (None, if aw_cancelled (sv_agent s) then s\<lparr>sv_heartbeat := None\<rparr> else s)"
| "server_step ra (PollCycle fuel env) s =
     (case sv_poller s of None \<Rightarrow> (None, s)
      | Some p \<Rightarrow> (case pollOnce fuel (ra_show ra) (ra_poll ra) env aw_cancelled p 0 (sv_agent s) of
            (ended, _, aw) \<Rightarrow> (Some (CycleDone ended), s\<lparr>sv_agent := aw\<rparr>)))"
| "server_step ra PollStops s = (None, if aw_cancelled (sv_agent s) then s\<lparr>sv_poller := None\<rparr> else s)"

fun server_run :: "run_args \<Rightarrow> server_event list \<Rightarrow> server \<Rightarrow> server_output list \<times> server" where
  "server_run ra [] s = ([], s)"
| "server_run ra (e # es) s =
     (case server_step ra e s of (out, s1) \<Rightarrow>
        (case server_run ra es s1 of (outs, s2) \<Rightarrow> ((case out of None \<Rightarrow> outs | Some r \<Rightarrow> r # outs), s2)))"

text \<open>After SIGTERM: the handler's and then the exporter's shutdown, with \<open>n\<close> jobs drained in time.\<close>

definition shutdown_server :: "run_args \<Rightarrow> nat \<Rightarrow> server \<Rightarrow> handler_error option \<times> server" where
  "shutdown_server ra n s =
     (case Shutdown (worker_process (ra_conv ra) (ra_env ra)) n (sv_handler s) (sv_worker s) of
        (err, h, w) \<Rightarrow> (err, s\<lparr>sv_handler := h,
           sv_worker := map_option (\<lambda>w. w\<lparr>wr_exporter := Shutdown_queues (wr_exporter w)\<rparr>) w\<rparr>))"

definition performHealthCheck :: "(string \<Rightarrow> http_reply) \<Rightarrow> http_reply option" where
  "performHealthCheck get = (case get ''http://localhost:8080/healthz'' of
     NoReply \<Rightarrow> Some NoReply | Reply code body \<Rightarrow> if code \<noteq> 200 then Some (Reply code body) else None)"

lemma server_run_invariant:
  assumes step: "\<And>e s. I s \<Longrightarrow> I (snd (server_step ra e s))"
  shows "I s \<Longrightarrow> I (snd (server_run ra es s))"
proof (induction es arbitrary: s)
  case (Cons e es)
  then show ?case using step[of s e] by (auto split: prod.splits) (metis snd_conv)
qed simp

section \<open>What a started server is\<close>

lemma map_error_Inr [simp]: "map_error f r = Inr x \<longleftrightarrow> r = Inr x"
  by (cases r) (simp_all add: map_error_def)

lemma optionally_Inr: "optionally b r = Inr o' \<longleftrightarrow> (case o' of None \<Rightarrow> \<not> b | Some x \<Rightarrow> b \<and> r = Inr x)"
  by (cases r) (auto simp: optionally_def split: option.splits)

definition poller_wired :: "(agent_world, agent_error command_error) Poller option \<Rightarrow> bool" where
  "poller_wired po \<longleftrightarrow> (\<forall>p. po = Some p \<longrightarrow> (\<exists>ft sc p0. po_handlers p0 = Map.empty \<and> p = agent_poller ft sc p0))"

lemma NewPoller_handlers: "NewPoller cfg = Inr p \<Longrightarrow> po_handlers p = Map.empty"
  by (auto simp: NewPoller_def split: if_splits)

lemma start_poller_wired:
  assumes "start_poller env cfg i = Inr p" shows "poller_wired (Some p)"
proof -
  from assms obtain p0 where "p = agent_poller (se_faults env) (se_codec env) p0" "po_handlers p0 = Map.empty"
    by (auto simp: start_poller_def bindE_Inr_iff dest: NewPoller_handlers)
  then show ?thesis unfolding poller_wired_def by blast
qed

lemma start_agent_mode: "start_agent env cfg fs = Inr aw \<Longrightarrow> mode_ok (GetMode aw)"
  by (auto simp: start_agent_def bindE_Inr_iff GetMode_def dest: New_agent_mode split: prod.splits sum.splits)

text \<open>The state that events preserve: the worker's exporter and ensemble, the agent's mode and the
  registered command handlers.\<close>

definition server_ok :: "Worker \<Rightarrow> server \<Rightarrow> bool" where
  "server_ok w0 s \<longleftrightarrow> (sv_worker s = Some w0 \<or> sv_worker s = None) \<and> mode_ok (GetMode (sv_agent s)) \<and> poller_wired (sv_poller s)"

lemma start_server_ok:
  assumes "start_server conv wenv env cfg salt fs = Inr s"
  obtains w x where "server_ok w s" "sv_worker s = Some w" "wr_ensemble w = linker_ensemble salt (mc_Recipe (cfg_Matchers cfg))"
    "wr_exporter w = x" "New (se_mkdir env)
       \<lparr>op_Config = cfg_Export cfg, op_TenantKey = ''test-tenant-key'', op_QueueCapacity = 500\<rparr> = Inr x"
proof -
  from assms obtain aw src w h p hb po where a: "start_agent env cfg fs = Inr aw" and w: "start_worker env cfg salt src = Inr w"
    and po: "optionally (cp_Enabled (cfg_CommandPolling cfg)) (start_poller env cfg (ag_id (aw_agent aw))) = Inr po"
    and s: "s = \<lparr>sv_agent = SetShutdownFunc aw, sv_worker = Some w, sv_handler = h, sv_heartbeat = hb, sv_poller = po, sv_looping = True\<rparr>"
    by (auto simp: start_server_def bindE_Inr_iff split: option.splits if_splits prod.splits)
  from w obtain x where x: "New (se_mkdir env)
       \<lparr>op_Config = cfg_Export cfg, op_TenantKey = ''test-tenant-key'', op_QueueCapacity = 500\<rparr> = Inr x"
    "wr_exporter w = x" "wr_ensemble w = linker_ensemble salt (mc_Recipe (cfg_Matchers cfg))"
    by (auto simp: start_worker_def bindE_Inr_iff NewWorker_def split: if_splits)
  have "poller_wired po" using po start_poller_wired by (auto simp: optionally_Inr poller_wired_def split: option.splits)
  with start_agent_mode[OF a] have "server_ok w s" by (simp add: server_ok_def s GetMode_def SetShutdownFunc_def)
  with that x s show thesis by simp
qed

lemma worker_process_keeps:
  assumes "\<forall>job. map_order_ok (we_order (env job))" and "\<forall>m\<in>set (en_Matchers (wr_ensemble w)). is_matcher m True"
  shows "fst (worker_process conv env job (Some w)) \<in> {Some w, None}"
  using Process_worker[of "env job" w conv job] assms by (auto simp: worker_process_def split: job_outcome.splits)

lemma server_step_ok:
  assumes "\<forall>job. map_order_ok (we_order (ra_env ra job))" and "\<forall>m\<in>set (en_Matchers (wr_ensemble w0)). is_matcher m True"
    and ok: "server_ok w0 s"
  shows "server_ok w0 (snd (server_step ra e s))"
proof (cases "(ra, e, s)" rule: server_step.cases)
  case (2 ra' choice s')
  show ?thesis
  proof (cases "sv_worker s")
    case None
    with ok 2 show ?thesis
      by (cases choice) (auto simp: server_ok_def worker_process_def split: prod.splits option.splits)
  next
    case (Some w)
    with ok have "w = w0" by (simp add: server_ok_def)
    with ok 2 Some worker_process_keeps[OF assms(1,2), of "ra_conv ra"] show ?thesis
      by (cases choice) (auto simp: server_ok_def split: option.splits)
  qed
next
  case (5 ra' fuel env s')
  show ?thesis
  proof (cases "sv_poller s")
    case (Some p)
    with ok obtain ft sc p0 where p: "po_handlers p0 = Map.empty" "p = agent_poller ft sc p0"
      by (auto simp: server_ok_def poller_wired_def)
    from ok have m: "mode_ok (GetMode (sv_agent s))" by (simp add: server_ok_def)
    show ?thesis
      using ok 5 Some p(2) agent_poller_mode[OF p(1) m, of fuel "ra_show ra" "ra_poll ra" env aw_cancelled ft sc 0]
      by (auto simp: server_ok_def split: prod.splits)
  qed (use ok 5 in simp)
qed (use ok in \<open>auto simp: server_ok_def poller_wired_def split: prod.splits option.splits\<close>)

lemma server_run_ok:
  assumes "\<forall>job. map_order_ok (we_order (ra_env ra job))" and "\<forall>m\<in>set (en_Matchers (wr_ensemble w0)). is_matcher m True"
    and "server_ok w0 s"
  shows "server_ok w0 (snd (server_run ra es s))"
  using server_run_invariant[of "server_ok w0" ra] server_step_ok[OF assms(1,2)] assms(3) by blast

section \<open>A restart that does not restart\<close>

text \<open>Once the job loop has seen the cancelled context nothing takes a job off the queue; requests are
  still answered and still queued.\<close>

lemma ServeHTTP_jobs:
  "\<exists>js. hd_jobs (fst (ServeHTTP parse now r h)) = hd_jobs h @ js"
proof (cases rule: ServeHTTP_cases[of parse now r h])
  case (handled body e)
  then show ?thesis by (cases rule: handle_event_cases[of "verified_inc (received_inc h)" e]) simp_all
qed simp

lemma ServeHTTP_keeps_open: "hd_closed (fst (ServeHTTP parse now r h)) = hd_closed h"
proof (cases rule: ServeHTTP_cases[of parse now r h])
  case (handled body e)
  then show ?thesis
    by (auto simp: handle_event_def isDuplicate_def check_and_mark_def send_job_def split: option.splits)
qed simp

definition stuck :: "Handler \<Rightarrow> Worker option \<Rightarrow> server \<Rightarrow> bool" where
  "stuck h w s \<longleftrightarrow> \<not> sv_looping s \<and> sv_worker s = w \<and> hd_closed (sv_handler s) = hd_closed h
     \<and> (\<exists>js. hd_jobs (sv_handler s) = hd_jobs h @ js)"

lemma server_step_stuck: "stuck h w s \<Longrightarrow> stuck h w (snd (server_step ra e s))"
proof (cases "(ra, e, s)" rule: server_step.cases)
  case (1 ra' now r s')
  assume "stuck h w s"
  with 1 ServeHTTP_jobs[of "ra_parse ra" now r "sv_handler s"] ServeHTTP_keeps_open[of "ra_parse ra" now r "sv_handler s"]
  show ?thesis by (auto simp: stuck_def split: prod.splits)
qed (auto simp: stuck_def split: prod.splits option.splits)

lemma loop_stops:
  assumes "aw_cancelled (sv_agent s)"
  shows "stuck (sv_handler s) (sv_worker s) (snd (server_step ra (LoopTurn CtxDone) s))"
  using assms by (auto simp: stuck_def)

text \<open>An authentic request for a new event, when there is room: 200, and one job more.\<close>

lemma request_accepted:
  assumes "authentic now r (sv_handler s) body" "ra_parse ra body = Some e" "\<not> seen (sv_handler s) (ev_ID e)"
    and "\<not> hd_closed (sv_handler s)" "length (hd_jobs (sv_handler s)) < hd_cap (sv_handler s)"
  shows "fst (server_step ra (Request now r) s) = Some (Responded (Status 200))
    \<and> hd_jobs (sv_handler (snd (server_step ra (Request now r) s))) = hd_jobs (sv_handler s) @ [job_of e]"
proof -
  let ?h = "verified_inc (received_inc (sv_handler s))"
  have "ServeHTTP (ra_parse ra) now r (sv_handler s) = handle_event e ?h"
    using assms(1,2) by (auto simp: ServeHTTP_def authentic_def Let_def)
  moreover have "seen ?h = seen (sv_handler s)" by (rule seen_cong) simp
  ultimately show ?thesis using assms(3-5)
    by (cases rule: handle_event_cases[of ?h e]) auto
qed

section \<open>Heartbeats\<close>

lemma sendHeartbeat_payload:
  assumes "sendHeartbeat marshal env a sink hb = (err, hb', Some req)"
  shows "\<exists>p. marshal p = Some (sr_Body req) \<and> pl_Mode p = ag_mode a \<and> pl_QueueDepth p = qm_Depth (gather_metrics sink)
    \<and> pl_DLQSize p = qm_DLQSize (gather_metrics sink) \<and> pl_DroppedCount p = qm_DroppedCount (gather_metrics sink)"
proof -
  let ?p = "NewPayload (ne_now env) (ag_id a) (ag_organizationID a) (ag_version a) (ag_startTime a) (ag_mode a)
    (gather_metrics sink) (hb_lastFlushTimestamp hb)"
  have "marshal ?p = Some (sr_Body req)"
    using assms by (auto simp: sendHeartbeat_def client_Do_def Let_def split: option.splits sum.splits if_splits http_reply.splits)
  then show ?thesis by (intro exI[of _ ?p]) (simp add: NewPayload_def)
qed

lemma sum_list_zero: "(\<And>x. x \<in> set xs \<Longrightarrow> f x = 0) \<Longrightarrow> sum_list (map f xs) = (0 :: 'a :: comm_monoid_add)"
  by (induction xs) simp_all

lemma New_metrics:
  assumes "New mk opts = Inr x"
  shows "gather_metrics (Some x) = \<lparr>qm_Depth = 0, qm_DLQSize = 0, qm_DroppedCount = 0, qm_RetryCount = 0\<rparr>"
proof -
  have z: "depth q = 0 \<and> dlqSize q = 0 \<and> dropped q = 0" if "(st, q) \<in> set (ex_streams x)" for st q
    using New_Inr(6)[OF assms] that by (auto simp: newQueue_def depth_def dlqSize_def dropped_def)
  have "Depth x = 0" "DLQSize x = 0" "DroppedCount x = 0"
    using z by (auto simp: Depth_def DLQSize_def DroppedCount_def sum_list_eq_0_iff intro!: sum_list_zero)
  then show ?thesis by (simp add: gather_metrics_def)
qed

definition zero_heartbeat :: "run_args \<Rightarrow> server_output \<Rightarrow> bool" where
  "zero_heartbeat ra out \<longleftrightarrow> (\<forall>req. out = HeartbeatPosted (Some req) \<longrightarrow>
     (\<exists>p. ra_payload ra p = Some (sr_Body req) \<and> mode_ok (pl_Mode p) \<and> pl_QueueDepth p = 0 \<and> pl_DLQSize p = 0 \<and> pl_DroppedCount p = 0))"

lemma server_step_heartbeat:
  assumes "server_ok w0 s" and "New mk opts = Inr (wr_exporter w0)" and "server_step ra e s = (Some out, s')"
  shows "zero_heartbeat ra out"
proof (cases "(ra, e, s)" rule: server_step.cases)
  case (3 ra' env s'')
  have g: "gather_metrics (map_option wr_exporter (sv_worker s)) = \<lparr>qm_Depth = 0, qm_DLQSize = 0, qm_DroppedCount = 0, qm_RetryCount = 0\<rparr>"
    using assms(1) New_metrics[OF assms(2)] by (auto simp: server_ok_def gather_metrics_def)
  have "mode_ok (ag_mode (aw_agent (sv_agent s)))" using assms(1) by (simp add: server_ok_def GetMode_def)
  with assms(3) 3 g sendHeartbeat_payload show ?thesis
    by (fastforce simp: zero_heartbeat_def split: option.splits prod.splits)
qed (use assms(3) in \<open>auto simp: zero_heartbeat_def split: prod.splits option.splits if_splits\<close>)

lemma server_run_heartbeats:
  assumes "\<forall>job. map_order_ok (we_order (ra_env ra job))" and "\<forall>m\<in>set (en_Matchers (wr_ensemble w0)). is_matcher m True"
    and "New mk opts = Inr (wr_exporter w0)"
  shows "server_ok w0 s \<Longrightarrow> \<forall>out\<in>set (fst (server_run ra es s)). zero_heartbeat ra out"
proof (induction es arbitrary: s)
  case (Cons e es)
  obtain out s1 where st: "server_step ra e s = (out, s1)" by force
  have "server_ok w0 s1" using server_step_ok[OF assms(1,2) Cons.prems, of e] st by simp
  from Cons.IH[OF this] have IH: "\<forall>out\<in>set (fst (server_run ra es s1)). zero_heartbeat ra out" .
  show ?case
  proof (cases out)
    case None
    with st IH show ?thesis by (simp split: prod.splits)
  next
    case (Some o')
    with st IH server_step_heartbeat[OF Cons.prems assms(3), of ra e o' s1] show ?thesis
      by (auto split: prod.splits)
  qed
qed simp

section \<open>The mode the configuration can ask for\<close>

text \<open>The configuration admits \<open>standard\<close>; the agent refuses it.\<close>

lemma standard_mode_refused:
  assumes "pv_Mode (cfg_Privacy cfg) = ''standard''" and "start_server conv wenv env cfg salt fs = Inr s"
  shows "\<exists>m. ag_stateManager (aw_agent (sv_agent s)) = Some m \<and> mode_ok (GetPrivacyMode m)"
proof -
  from assms(2) obtain aw where a: "start_agent env cfg fs = Inr aw" and s: "sv_agent s = SetShutdownFunc aw"
    by (auto simp: start_server_def bindE_Inr_iff split: option.splits if_splits prod.splits)
  from a assms(1) obtain m where "ag_stateManager (aw_agent aw) = Some m" "mode_ok (GetPrivacyMode m)"
    by (auto simp: start_agent_def bindE_Inr_iff New_agent_def initial_mode_def Let_def mode_ok_def
        split: prod.splits sum.splits if_splits)
  then show ?thesis by (simp add: s SetShutdownFunc_def)
qed

end
