(* ===== verification/Linker_Main.thy ===== *)
theory Linker_Main
  imports Webhook_Server Linker_Run
begin

text \<open>
  \<open>main\<close> in \<open>main.go\<close>: the command line as Go's \<open>flag\<close> package reads it, the choice of the mode, the routes of the
  webhook server's mux, and the life of the server process from the listening socket to the exit, with the
  shutdown goroutine beside the main one.
\<close>

section \<open>The command line\<close>

record main_flags =
  fl_exportBillingOnly :: bool
  fl_webhook :: bool
  fl_healthCheck :: bool
  fl_config :: string

definition default_flags :: main_flags where
  "default_flags = \<lparr>fl_exportBillingOnly = False, fl_webhook = False, fl_healthCheck = False, fl_config = ''config.yaml''\<rparr>"

definition ParseBool :: "string \<Rightarrow> bool option" where
  "ParseBool s = (if s \<in> {''1'', ''t'', ''T'', ''TRUE'', ''true'', ''True''} then Some True
     else if s \<in> {''0'', ''f'', ''F'', ''FALSE'', ''false'', ''False''} then Some False else None)"

text \<open>One flag with the value behind its equals sign, if it has one, and the arguments after it: an exit code, or the new
  flags and whether the next argument was its value.\<close>

definition set_bool :: "string option \<Rightarrow> (bool \<Rightarrow> main_flags) \<Rightarrow> nat + main_flags \<times> bool" where
  "set_bool v set_it = (case (case v of None \<Rightarrow> Some True | Some s \<Rightarrow> ParseBool s) of None \<Rightarrow> Inl 2 | Some b \<Rightarrow> Inr (set_it b, False))"

definition set_flag :: "string \<Rightarrow> string option \<Rightarrow> string list \<Rightarrow> main_flags \<Rightarrow> nat + main_flags \<times> bool" where
  "set_flag name v args f =
     (if name = ''export-billing-only'' then set_bool v (\<lambda>b. f\<lparr>fl_exportBillingOnly := b\<rparr>)
      else if name = ''webhook'' then set_bool v (\<lambda>b. f\<lparr>fl_webhook := b\<rparr>)
      else if name = ''health-check'' then set_bool v (\<lambda>b. f\<lparr>fl_healthCheck := b\<rparr>)
      else if name = ''config'' then
        (case v of Some s \<Rightarrow> Inr (f\<lparr>fl_config := s\<rparr>, False)
         | None \<Rightarrow> (case args of [] \<Rightarrow> Inl 2 | s # _ \<Rightarrow> Inr (f\<lparr>fl_config := s\<rparr>, True)))
      else if name = ''help'' \<or> name = ''h'' then Inl 0
      else Inl 2)"

definition flag_name :: "string \<Rightarrow> string" where
  "flag_name arg = (if has_prefix arg ''--'' then drop 2 arg else drop 1 arg)"

text \<open>The loop of \<open>flag.Parse\<close>: the first argument that is no flag, or \<open>--\<close>, ends it.\<close>

function parse_flags :: "string list \<Rightarrow> main_flags \<Rightarrow> nat + main_flags" where
  "parse_flags [] f = Inr f"
| "parse_flags (arg # args) f =
     (if length arg < 2 \<or> \<not> has_prefix arg ''-'' \<or> arg = ''--'' then Inr f
      else let name = flag_name arg
           in if name = [] \<or> has_prefix name ''-'' \<or> has_prefix name ''='' then Inl 2
              else case (case split2 CHR ''='' name of [k, v] \<Rightarrow> set_flag k (Some v) args f | _ \<Rightarrow> set_flag name None args f) of
                  Inl code \<Rightarrow> Inl code
                | Inr (f', took) \<Rightarrow> parse_flags (if took then tl args else args) f')"
  by pat_completeness auto
termination by (relation "measure (\<lambda>(args, _). length args)") auto

section \<open>The choice of the mode\<close>

datatype main_action = ExitWith nat | ServeWebhooks Config bytes | ExportBilling Config bytes | RunPipeline Config bytes

text \<open>\<open>get\<close> is the HTTP client of the health check, \<open>load\<close> is \<open>config.Load\<close> on the machine's files and environment.\<close>

definition main_action :: "(string \<Rightarrow> http_reply) \<Rightarrow> (string \<Rightarrow> config_error + Config) \<Rightarrow> string list \<Rightarrow> main_action" where
  "main_action get load args =
     (case parse_flags args default_flags of Inl code \<Rightarrow> ExitWith code
      | Inr f \<Rightarrow>
          if fl_healthCheck f then ExitWith (if performHealthCheck get \<noteq> None then 1 else 0)
          else (case load (fl_config f) of Inl _ \<Rightarrow> ExitWith 1
            | Inr cfg \<Rightarrow> let tenantSalt = pv_TenantSalt (cfg_Privacy cfg)
                in if fl_webhook f then ServeWebhooks cfg tenantSalt
                   else if fl_exportBillingOnly f then ExportBilling cfg tenantSalt
                   else RunPipeline cfg tenantSalt))"

lemmas flag_rules = parse_flags.simps flag_name_def has_prefix_def split2_def set_flag_def set_bool_def ParseBool_def default_flags_def

text \<open>The health check ends before the configuration is read, the server mode wins over the billing export, and a
  typing error ends the process with status 2 instead of running the default mode.\<close>

lemma health_check_alone: "main_action get load [''-health-check''] = ExitWith (if performHealthCheck get \<noteq> None then 1 else 0)"
  by (simp add: main_action_def flag_rules Let_def)

lemma webhook_wins:
  "load ''c'' = Inr cfg \<Longrightarrow> main_action get load [''-export-billing-only'', ''--webhook=true'', ''-config'', ''c''] =
     ServeWebhooks cfg (pv_TenantSalt (cfg_Privacy cfg))"
  by (simp add: main_action_def flag_rules Let_def)

lemma unknown_flag: "main_action get load [''-webhok''] = ExitWith 2"
  by (simp add: main_action_def flag_rules Let_def)

text \<open>The health check needs no configuration, and a mode never runs on an invalid one.\<close>

lemma main_action_valid:
  assumes "main_action get (Load rf yaml getenv) args = a" and "a \<in> {ServeWebhooks cfg salt, ExportBilling cfg salt, RunPipeline cfg salt}"
  shows "config_valid cfg \<and> salt = pv_TenantSalt (cfg_Privacy cfg)"
proof -
  from assms obtain path where "Load rf yaml getenv path = Inr cfg" "salt = pv_TenantSalt (cfg_Privacy cfg)"
    by (auto simp: main_action_def Let_def split: sum.splits if_splits)
  then show ?thesis by (auto simp: Load_def split: option.splits dest: validate_config_valid)
qed

section \<open>The routes\<close>

datatype route = WebhookRoute | HealthzRoute | ReadyzRoute | MetricsRoute

type_synonym mux = "(string \<times> route) list"

text \<open>\<open>http.ServeMux\<close> for literal patterns: registering a pattern twice panics; a pattern that ends in a slash
  matches every path below it and the longest match wins. A pattern with a method, a host, a wildcard or
  an escape is left to the argument \<open>other\<close> of \<open>new_mux\<close>. Paths are clean ones, others are redirected.\<close>

definition literal_pattern :: "string \<Rightarrow> bool" where
  "literal_pattern p \<longleftrightarrow> has_prefix p ''/'' \<and> list_all (\<lambda>c. c \<notin> {CHR ''{'', CHR ''%'', CHR '' '', CHR 0x09}) p"

definition mux_handle :: "string \<Rightarrow> route \<Rightarrow> mux \<Rightarrow> mux option" where
  "mux_handle p r m = (if p \<in> fst ` set m then None else Some (m @ [(p, r)]))"

definition new_mux :: "(string \<Rightarrow> mux option) \<Rightarrow> string \<Rightarrow> mux option" where
  "new_mux other path =
     (if \<not> literal_pattern path then other path
      else Option.bind (mux_handle path WebhookRoute []) (\<lambda>m1.
           Option.bind (mux_handle ''/healthz'' HealthzRoute m1) (\<lambda>m2.
           Option.bind (mux_handle ''/readyz'' ReadyzRoute m2) (mux_handle ''/metrics'' MetricsRoute))))"

definition longer :: "string \<times> route \<Rightarrow> (string \<times> route) option \<Rightarrow> (string \<times> route) option" where
  "longer x best = (case best of None \<Rightarrow> Some x | Some y \<Rightarrow> if length (fst y) < length (fst x) then Some x else Some y)"

datatype routed = RouteTo route | RedirectTo string | NoRoute

definition mux_route :: "mux \<Rightarrow> string \<Rightarrow> routed" where
  "mux_route m path =
     (case map_of m path of Some r \<Rightarrow> RouteTo r
      | None \<Rightarrow> if \<not> has_suffix path ''/'' \<and> path @ ''/'' \<in> fst ` set m then RedirectTo (path @ ''/'')
          else (case fold longer (filter (\<lambda>(p, _). has_suffix p ''/'' \<and> has_prefix path p) m) None of
              None \<Rightarrow> NoRoute | Some (_, r) \<Rightarrow> RouteTo r))"

text \<open>The three probes answer without looking at the server.\<close>

fun probe_reply :: "route \<Rightarrow> (nat \<times> string) option" where
  "probe_reply WebhookRoute = None"
| "probe_reply HealthzRoute = Some (200, ''OK'')"
| "probe_reply ReadyzRoute = Some (200, ''READY'')"
| "probe_reply MetricsRoute = Some (200, ''# Prometheus metrics placeholder'' @ [CHR 0x0A])"

text \<open>The configured webhook path ends the process at the start when it is the path of a probe, and otherwise it and the
  probes are all reached.\<close>

lemma new_mux_literal:
  assumes "literal_pattern path"
  shows "new_mux other path = (if path \<in> {''/healthz'', ''/readyz'', ''/metrics''} then None
    else Some [(path, WebhookRoute), (''/healthz'', HealthzRoute), (''/readyz'', ReadyzRoute), (''/metrics'', MetricsRoute)])"
  using assms by (auto simp: new_mux_def mux_handle_def)

lemma new_mux_routes:
  assumes "literal_pattern path" and "new_mux other path = Some m"
  shows "mux_route m path = RouteTo WebhookRoute" "mux_route m ''/healthz'' = RouteTo HealthzRoute"
    "mux_route m ''/readyz'' = RouteTo ReadyzRoute" "mux_route m ''/metrics'' = RouteTo MetricsRoute"
  using assms(2) by (auto simp: new_mux_literal[OF assms(1)] mux_route_def split: if_splits)

section \<open>The life of the server process\<close>

text \<open>The shutdown goroutine waits for a signal and then calls \<open>Shutdown\<close> of the HTTP server, of the handler and of the
  exporter, one after the other; its program counter names the call it is in. \<open>server.Shutdown\<close> closes the
  listening socket first, and from then on \<open>ListenAndServe\<close> may return in the main goroutine, whose return from
  \<open>runWebhookServer\<close> runs \<open>handlerCancel\<close> and then ends the process, whatever the other goroutine is doing. Requests after
  the signal are those already accepted. The draining of \<open>handler.Shutdown\<close> takes \<open>n\<close> jobs in time.\<close>

datatype shutdown_pc = AwaitSignal | InServerShutdown | InHandlerShutdown | InExporterShutdown | ShutdownDone

datatype main_pc = Listening | Returning | Exited nat

record process =
  ps_server :: server
  ps_shutdown :: shutdown_pc
  ps_main :: main_pc

definition handler_shutdown :: "run_args \<Rightarrow> nat \<Rightarrow> server \<Rightarrow> server" where
  "handler_shutdown ra n s =
     (case Shutdown (worker_process (ra_conv ra) (ra_env ra)) n (sv_handler s) (sv_worker s) of
        (_, h, w) \<Rightarrow> s\<lparr>sv_handler := h, sv_worker := w\<rparr>)"

definition exporter_shutdown :: "server \<Rightarrow> server" where
  "exporter_shutdown s = s\<lparr>sv_worker := map_option (\<lambda>w. w\<lparr>wr_exporter := Shutdown_queues (wr_exporter w)\<rparr>) (sv_worker s)\<rparr>"

definition handlerCancel :: "server \<Rightarrow> server" where
  "handlerCancel s = s\<lparr>sv_agent := (sv_agent s)\<lparr>aw_cancelled := True\<rparr>\<rparr>"

fun alive :: "process \<Rightarrow> bool" where
  "alive p = (case ps_main p of Exited _ \<Rightarrow> False | _ \<Rightarrow> True)"

inductive process_step :: "run_args \<Rightarrow> process \<Rightarrow> process \<Rightarrow> bool" for ra where
  server_event: "alive p \<Longrightarrow> process_step ra p (p\<lparr>ps_server := snd (server_step ra e (ps_server p))\<rparr>)"
| signal: "alive p \<Longrightarrow> ps_shutdown p = AwaitSignal \<Longrightarrow> process_step ra p (p\<lparr>ps_shutdown := InServerShutdown\<rparr>)"
| server_down: "alive p \<Longrightarrow> ps_shutdown p = InServerShutdown \<Longrightarrow> process_step ra p (p\<lparr>ps_shutdown := InHandlerShutdown\<rparr>)"
| handler_down: "alive p \<Longrightarrow> ps_shutdown p = InHandlerShutdown \<Longrightarrow>
     process_step ra p (p\<lparr>ps_server := handler_shutdown ra n (ps_server p), ps_shutdown := InExporterShutdown\<rparr>)"
| exporter_down: "alive p \<Longrightarrow> ps_shutdown p = InExporterShutdown \<Longrightarrow>
     process_step ra p (p\<lparr>ps_server := exporter_shutdown (ps_server p), ps_shutdown := ShutdownDone\<rparr>)"
| listen_closed: "ps_main p = Listening \<Longrightarrow> ps_shutdown p \<noteq> AwaitSignal \<Longrightarrow>
     process_step ra p (p\<lparr>ps_server := handlerCancel (ps_server p), ps_main := Returning\<rparr>)"
| listen_fails: "ps_main p = Listening \<Longrightarrow> process_step ra p (p\<lparr>ps_main := Exited 1\<rparr>)"
| exit: "ps_main p = Returning \<Longrightarrow> process_step ra p (p\<lparr>ps_main := Exited 0\<rparr>)"

inductive_cases process_stepE: "process_step ra p p'"

definition process_start :: "server \<Rightarrow> process" where
  "process_start s = \<lparr>ps_server = s, ps_shutdown = AwaitSignal, ps_main = Listening\<rparr>"

lemma shutdown_server_parts: "snd (shutdown_server ra n s) = exporter_shutdown (handler_shutdown ra n s)"
  by (simp add: shutdown_server_def handler_shutdown_def exporter_shutdown_def split: prod.splits)

lemma exited_stays: "ps_main p = Exited c \<Longrightarrow> \<not> process_step ra p p'"
  by (auto elim!: process_stepE)

text \<open>A regular exit follows a signal, and nothing else about the shutdown.\<close>

lemma exit_after_signal:
  assumes "(process_step ra)\<^sup>*\<^sup>* (process_start s) p" and "ps_main p = Exited 0"
  shows "ps_shutdown p \<noteq> AwaitSignal"
proof -
  have "ps_main p = Returning \<or> ps_main p = Exited 0 \<Longrightarrow> ps_shutdown p \<noteq> AwaitSignal"
    using assms(1) by (induction rule: rtranclp_induct) (auto simp: process_start_def elim!: process_stepE)
  with assms(2) show ?thesis by blast
qed

lemma exit_early:
  assumes "ps_main p = Listening"
  shows "\<exists>p'. (process_step ra)\<^sup>*\<^sup>* p p' \<and> ps_main p' = Exited 0 \<and> ps_server p' = handlerCancel (ps_server p)
    \<and> ps_shutdown p' = (if ps_shutdown p = AwaitSignal then InServerShutdown else ps_shutdown p)"
proof -
  let ?p1 = "p\<lparr>ps_shutdown := if ps_shutdown p = AwaitSignal then InServerShutdown else ps_shutdown p\<rparr>"
  let ?p2 = "?p1\<lparr>ps_server := handlerCancel (ps_server p), ps_main := Returning\<rparr>"
  have "(process_step ra)\<^sup>*\<^sup>* p ?p1" using signal[of p ra] assms by auto
  moreover have "process_step ra ?p1 ?p2" using listen_closed[of ?p1 ra] assms by auto
  moreover have "process_step ra ?p2 (?p2\<lparr>ps_main := Exited 0\<rparr>)" by (rule exit) simp
  ultimately have "(process_step ra)\<^sup>*\<^sup>* p (?p2\<lparr>ps_main := Exited 0\<rparr>)" by (meson rtranclp.rtrancl_into_rtrancl)
  then show ?thesis by (intro exI[of _ "?p2\<lparr>ps_main := Exited 0\<rparr>"]) simp
qed

text \<open>The orderly end is one of the runs as well.\<close>

lemma exit_orderly:
  assumes "ps_main p = Listening" and "ps_shutdown p = AwaitSignal"
  shows "\<exists>p'. (process_step ra)\<^sup>*\<^sup>* p p' \<and> ps_main p' = Exited 0 \<and> ps_shutdown p' = ShutdownDone
    \<and> ps_server p' = handlerCancel (snd (shutdown_server ra n (ps_server p)))"
proof -
  let ?p1 = "p\<lparr>ps_shutdown := InServerShutdown\<rparr>"
  let ?p2 = "p\<lparr>ps_shutdown := InHandlerShutdown\<rparr>"
  let ?p3 = "p\<lparr>ps_server := handler_shutdown ra n (ps_server p), ps_shutdown := InExporterShutdown\<rparr>"
  let ?p4 = "p\<lparr>ps_server := exporter_shutdown (handler_shutdown ra n (ps_server p)), ps_shutdown := ShutdownDone\<rparr>"
  let ?p5 = "?p4\<lparr>ps_server := handlerCancel (ps_server ?p4), ps_main := Returning\<rparr>"
  have "process_step ra p ?p1" using signal[of p ra] assms by simp
  moreover have "process_step ra ?p1 ?p2" using server_down[of ?p1 ra] assms by simp
  moreover have "process_step ra ?p2 ?p3" using handler_down[of ?p2 ra n] assms by simp
  moreover have "process_step ra ?p3 ?p4" using exporter_down[of ?p3 ra] assms by simp
  moreover have "process_step ra ?p4 ?p5" using listen_closed[of ?p4 ra] assms by simp
  moreover have "process_step ra ?p5 (?p5\<lparr>ps_main := Exited 0\<rparr>)" by (rule exit) simp
  ultimately have "(process_step ra)\<^sup>*\<^sup>* p (?p5\<lparr>ps_main := Exited 0\<rparr>)"
    by (meson rtranclp.rtrancl_into_rtrancl rtranclp.rtrancl_refl)
  then show ?thesis by (intro exI[of _ "?p5\<lparr>ps_main := Exited 0\<rparr>"]) (simp add: shutdown_server_parts)
qed

text \<open>A job loop that has ended stays ended, and only the drain of \<open>handler.Shutdown\<close> takes jobs after that.\<close>

lemma process_stuck:
  assumes "(process_step ra)\<^sup>*\<^sup>* p p'" and "stuck h w (ps_server p)"
  shows "ps_shutdown p' \<in> {AwaitSignal, InServerShutdown, InHandlerShutdown} \<longrightarrow> stuck h w (ps_server p')"
  using assms(1)
proof (induction rule: rtranclp_induct)
  case (step y z)
  have "stuck h w (handlerCancel s)" if "stuck h w s" for s using that by (simp add: stuck_def handlerCancel_def)
  with step.hyps(2) step.IH show ?case
    by (cases rule: process_step.cases) (auto simp: server_step_stuck simp del: server_step.simps)
qed (simp add: assms(2))

lemma handler_shutdown_drains:
  "\<not> hd_closed (sv_handler s) \<Longrightarrow> hd_jobs (sv_handler (handler_shutdown ra n s)) = drop n (hd_jobs (sv_handler s))
     \<and> hd_closed (sv_handler (handler_shutdown ra n s))"
  by (simp add: handler_shutdown_def Shutdown_def Let_def)

end
