(* ===== verification/Control.thy ===== *)
theory Control
  imports Once Command_Handlers Go_Encoding Go_Sha256 Go_Time
begin

text \<open>
  \<open>internal/control\<close>: signed control commands with replay protection (\<open>control.go\<close>), their
  registration (\<open>handlers.go\<close>) and the HTTP endpoint (\<open>server.go\<close>). The JSON encoding of a command
  and the parsing of a request body are arguments. The code reads the clock several times in one
  call: \<open>clock 0\<close> for the skew test, \<open>clock 1\<close> for the nonce clean-up, \<open>clock 2\<close> for the result.
\<close>

text \<open>A timestamp is its instant with the zone it was written in.\<close>

record Command =
  cmd_Command :: string
  cmd_Params :: params
  cmd_Timestamp :: "int \<times> int"
  cmd_Nonce :: string
  cmd_Signature :: string

definition CommandTypes :: "string list" where
  "CommandTypes = [''stop'', ''start'', ''restart'', ''switch_mode'', ''upgrade'']"

section \<open>The nonce cache\<close>

record nonceCache =
  nc_cache :: "string \<rightharpoonup> int"
  nc_ttl :: i64

definition nonce_expired :: "int \<Rightarrow> i64 \<Rightarrow> int \<Rightarrow> bool" where
  "nonce_expired now ttl t \<longleftrightarrow> sint ttl < sint (time_sub now t)"

definition cleanup :: "int \<Rightarrow> nonceCache \<Rightarrow> nonceCache" where
  "cleanup now nc = nc\<lparr>nc_cache := (\<lambda>n. case nc_cache nc n of None \<Rightarrow> None
     | Some t \<Rightarrow> if nonce_expired now (nc_ttl nc) t then None else Some t)\<rparr>"

definition checkAndStore :: "int \<Rightarrow> string \<Rightarrow> int \<Rightarrow> nonceCache \<Rightarrow> bool \<times> nonceCache" where
  "checkAndStore now nonce timestamp nc =
     (let nc' = cleanup now nc
      in case nc_cache nc' nonce of Some _ \<Rightarrow> (False, nc')
         | None \<Rightarrow> (True, nc'\<lparr>nc_cache := (nc_cache nc')(nonce \<mapsto> timestamp)\<rparr>))"

section \<open>Signatures\<close>

datatype command_verify_error =
    SecretEmpty | SignatureMissing | TimestampSkewed | NonceSeen | SignatureInvalid

datatype sign_error = SignSecretEmpty | SignMarshalFailed

definition unsigned_cmd :: "Command \<Rightarrow> Command" where
  "unsigned_cmd c = c\<lparr>cmd_Signature := []\<rparr>"

definition verifySignature :: "(Command \<Rightarrow> bytes option) \<Rightarrow> string \<Rightarrow> Command \<Rightarrow> bool" where
  "verifySignature marshal secret c =
     (case b64_decode (cmd_Signature c) of None \<Rightarrow> False
      | Some receivedSig \<Rightarrow> (case marshal (unsigned_cmd c) of None \<Rightarrow> False
          | Some d \<Rightarrow> receivedSig = hmac_sha256 secret d))"

definition Sign :: "(Command \<Rightarrow> bytes option) \<Rightarrow> string \<Rightarrow> Command \<Rightarrow> sign_error + Command" where
  "Sign marshal secret c =
     (if secret = [] then Inl SignSecretEmpty
      else case marshal (unsigned_cmd c) of None \<Rightarrow> Inl SignMarshalFailed
        | Some d \<Rightarrow> Inr (c\<lparr>cmd_Signature := b64_encode (hmac_sha256 secret d)\<rparr>))"

definition Verify :: "(Command \<Rightarrow> bytes option) \<Rightarrow> (nat \<Rightarrow> int) \<Rightarrow> string \<Rightarrow> i64 \<Rightarrow> Command \<Rightarrow> nonceCache
    \<Rightarrow> command_verify_error option \<times> nonceCache" where
  "Verify marshal clock secret maxClockSkew c nc =
     (if secret = [] then (Some SecretEmpty, nc)
      else if cmd_Signature c = [] then (Some SignatureMissing, nc)
      else if \<not> within_skew (clock 0) (fst (cmd_Timestamp c)) maxClockSkew then (Some TimestampSkewed, nc)
      else case checkAndStore (clock 1) (cmd_Nonce c) (fst (cmd_Timestamp c)) nc of
          (False, nc') \<Rightarrow> (Some NonceSeen, nc')
        | (True, nc') \<Rightarrow> (if \<not> verifySignature marshal secret c then (Some SignatureInvalid, nc') else (None, nc')))"

section \<open>The handler\<close>

type_synonym ('s, 'e) CommandFunc = "params \<Rightarrow> 's \<Rightarrow> 'e option \<times> 's"

record ('s, 'e) Handler_control =
  ch_secret :: string
  ch_maxClockSkew :: i64
  ch_nonceCache :: nonceCache
  ch_commandRouter :: "string \<rightharpoonup> ('s, 'e) CommandFunc"

definition NewHandler_control :: "string \<Rightarrow> i64 \<Rightarrow> i64 \<Rightarrow> ('s, 'e) Handler_control" where
  "NewHandler_control secret maxClockSkew nonceCacheTTL =
     \<lparr>ch_secret = secret, ch_maxClockSkew = maxClockSkew,
      ch_nonceCache = \<lparr>nc_cache = Map.empty, nc_ttl = nonceCacheTTL\<rparr>, ch_commandRouter = Map.empty\<rparr>"

definition RegisterCommand :: "string \<Rightarrow> ('s, 'e) CommandFunc \<Rightarrow> ('s, 'e) Handler_control \<Rightarrow> ('s, 'e) Handler_control" where
  "RegisterCommand cmdType fn h = h\<lparr>ch_commandRouter := (ch_commandRouter h)(cmdType \<mapsto> fn)\<rparr>"

definition RegisterAll :: "('s, 'e) controller \<Rightarrow> ('s Handlers, 'e command_error) Handler_control \<Rightarrow> ('s Handlers, 'e command_error) Handler_control" where
  "RegisterAll c h =
     RegisterCommand ''upgrade'' control_HandleUpgrade
       (RegisterCommand ''switch_mode'' (control_HandleSwitchMode c)
         (RegisterCommand ''restart'' (control_HandleRestart c)
           (RegisterCommand ''start'' control_HandleStart
             (RegisterCommand ''stop'' (control_HandleStop c) h))))"

datatype 'e handle_error = VerificationFailed command_verify_error | UnknownCommand string | ExecutionFailed 'e

record 'e CommandResult =
  cr_Command :: string
  cr_Success :: bool
  cr_Message :: "'e handle_error option"
  cr_Timestamp :: int

definition Handle :: "(Command \<Rightarrow> bytes option) \<Rightarrow> (nat \<Rightarrow> int) \<Rightarrow> Command \<Rightarrow> ('s, 'e) Handler_control \<Rightarrow> 's
    \<Rightarrow> 'e CommandResult \<times> 'e handle_error option \<times> ('s, 'e) Handler_control \<times> 's" where
  "Handle marshal clock c h s =
     (let result = (\<lambda>err. \<lparr>cr_Command = cmd_Command c, cr_Success = (err = None), cr_Message = err, cr_Timestamp = clock 2\<rparr>)
      in case Verify marshal clock (ch_secret h) (ch_maxClockSkew h) c (ch_nonceCache h) of
        (Some err, nc) \<Rightarrow> (result (Some (VerificationFailed err)), Some (VerificationFailed err), h\<lparr>ch_nonceCache := nc\<rparr>, s)
      | (None, nc) \<Rightarrow>
          (let h' = h\<lparr>ch_nonceCache := nc\<rparr>
           in case ch_commandRouter h (cmd_Command c) of
             None \<Rightarrow> (result (Some (UnknownCommand (cmd_Command c))), Some (UnknownCommand (cmd_Command c)), h', s)
           | Some handler \<Rightarrow> (case handler (cmd_Params c) s of
               (Some err, s') \<Rightarrow> (result (Some (ExecutionFailed err)), Some (ExecutionFailed err), h', s')
             | (None, s') \<Rightarrow> (result None, None, h', s'))))"

section \<open>The endpoint\<close>

text \<open>\<open>http.MaxBytesReader\<close> fails past one mebibyte; \<open>None\<close> is a body that cannot be read.\<close>

definition read_max :: "nat \<Rightarrow> bytes option \<Rightarrow> bytes option" where
  "read_max n body = (case body of None \<Rightarrow> None | Some b \<Rightarrow> if n < length b then None else Some b)"

datatype 'e response = ErrorResponse nat string | ResultResponse nat "'e CommandResult"

definition handleCommand :: "(Command \<Rightarrow> bytes option) \<Rightarrow> (bytes \<Rightarrow> Command option) \<Rightarrow> (nat \<Rightarrow> int) \<Rightarrow> string \<Rightarrow> bytes option
    \<Rightarrow> ('s, 'e) Handler_control \<Rightarrow> 's \<Rightarrow> 'e response \<times> ('s, 'e) Handler_control \<times> 's" where
  "handleCommand marshal parse clock httpMethod body h s =
     (if httpMethod \<noteq> ''POST'' then (ErrorResponse 405 ''method not allowed'', h, s)
      else case read_max (1024 * 1024) body of
        None \<Rightarrow> (ErrorResponse 400 ''failed to read request body'', h, s)
      | Some b \<Rightarrow> (case parse b of
          None \<Rightarrow> (ErrorResponse 400 ''invalid JSON'', h, s)
        | Some c \<Rightarrow> (case Handle marshal clock c h s of (result, _, h', s') \<Rightarrow> (ResultResponse 200 result, h', s'))))"

definition handleHealth :: "nat \<times> string" where
  "handleHealth = (200, ''{\"status\":\"healthy\"}'')"

section \<open>The server\<close>

text \<open>\<open>http.Server\<close> and its mux: the routes and the timeouts; \<open>listen\<close> is what \<open>ListenAndServe\<close> returns on the address.\<close>

record control_config =
  cc_ListenAddr :: string
  cc_SignatureSecret :: string
  cc_MaxClockSkew :: i64
  cc_NonceCacheTTL :: i64

record ('s, 'e) control_server =
  cs_handler :: "('s, 'e) Handler_control"
  cs_Addr :: string
  cs_ReadTimeout :: i64
  cs_WriteTimeout :: i64
  cs_IdleTimeout :: i64

definition NewServer :: "control_config \<Rightarrow> ('s, 'e) control_server" where
  "NewServer cfg = \<lparr>cs_handler = NewHandler_control (cc_SignatureSecret cfg) (cc_MaxClockSkew cfg) (cc_NonceCacheTTL cfg),
     cs_Addr = cc_ListenAddr cfg, cs_ReadTimeout = 10 * 1000000000, cs_WriteTimeout = 10 * 1000000000,
     cs_IdleTimeout = 60 * 1000000000\<rparr>"

definition server_RegisterCommand :: "string \<Rightarrow> ('s, 'e) CommandFunc \<Rightarrow> ('s, 'e) control_server \<Rightarrow> ('s, 'e) control_server" where
  "server_RegisterCommand cmdType f srv = srv\<lparr>cs_handler := RegisterCommand cmdType f (cs_handler srv)\<rparr>"

datatype listen_end = ServerClosed | ListenFailed

definition Start_control :: "(string \<Rightarrow> listen_end) \<Rightarrow> ('s, 'e) control_server \<Rightarrow> listen_end option" where
  "Start_control listen srv = (case listen (cs_Addr srv) of ServerClosed \<Rightarrow> None | ListenFailed \<Rightarrow> Some ListenFailed)"

datatype 'e control_reply = CommandReply "'e response" | HealthReply nat string | NotFound

definition serve_control :: "(Command \<Rightarrow> bytes option) \<Rightarrow> (bytes \<Rightarrow> Command option) \<Rightarrow> (nat \<Rightarrow> int) \<Rightarrow> string \<Rightarrow> string \<Rightarrow> bytes option
    \<Rightarrow> ('s, 'e) control_server \<Rightarrow> 's \<Rightarrow> 'e control_reply \<times> ('s, 'e) control_server \<times> 's" where
  "serve_control marshal parse clock path httpMethod body srv s =
     (if path = ''/api/control/command'' then
        (case handleCommand marshal parse clock httpMethod body (cs_handler srv) s of
           (resp, h', s') \<Rightarrow> (CommandReply resp, srv\<lparr>cs_handler := h'\<rparr>, s'))
      else if path = ''/healthz'' then (HealthReply (fst handleHealth) (snd handleHealth), srv, s)
      else (NotFound, srv, s))"

section \<open>The nonce cache admits a nonce once\<close>

lemma cleanup_idem [simp]: "cleanup now (cleanup now nc) = cleanup now nc"
  by (auto simp: cleanup_def fun_eq_iff split: option.splits)

lemma cleanup_ttl [simp]: "nc_ttl (cleanup now nc) = nc_ttl nc"
  by (simp add: cleanup_def)

text \<open>The two cases of \<open>checkAndStore\<close>.\<close>

lemma checkAndStore_iff:
  "checkAndStore now n t nc = (False, nc') \<longleftrightarrow> nc_cache (cleanup now nc) n \<noteq> None \<and> nc' = cleanup now nc"
  "checkAndStore now n t nc = (True, nc') \<longleftrightarrow> nc_cache (cleanup now nc) n = None
     \<and> nc' = (cleanup now nc)\<lparr>nc_cache := (nc_cache (cleanup now nc))(n \<mapsto> t)\<rparr>"
  by (auto simp: checkAndStore_def Let_def split: option.splits)

lemma cleanup_lookup: "nc_cache (cleanup now nc) n = Some t \<longleftrightarrow> nc_cache nc n = Some t \<and> \<not> nonce_expired now (nc_ttl nc) t"
  by (auto simp: cleanup_def split: option.splits)

text \<open>The cache as a set of nonces at one instant: the contract of theory Once.\<close>

definition nonce_check :: "int \<Rightarrow> i64 \<Rightarrow> string \<times> int \<Rightarrow> (string \<rightharpoonup> int) \<Rightarrow> bool \<times> (string \<rightharpoonup> int)" where
  "nonce_check now ttl x m =
     (case checkAndStore now (fst x) (snd x) \<lparr>nc_cache = m, nc_ttl = ttl\<rparr> of (fresh, nc) \<Rightarrow> (\<not> fresh, nc_cache nc))"

definition nonce_known :: "int \<Rightarrow> i64 \<Rightarrow> (string \<rightharpoonup> int) \<Rightarrow> string \<Rightarrow> bool" where
  "nonce_known now ttl m n \<longleftrightarrow> (\<exists>t. m n = Some t \<and> \<not> nonce_expired now ttl t)"

lemma nonce_known_cleanup: "nonce_known now (nc_ttl nc) (nc_cache nc) n \<longleftrightarrow> nc_cache (cleanup now nc) n \<noteq> None"
  using cleanup_lookup[of now nc n] by (auto simp: nonce_known_def)

interpretation nonce_once: once "nonce_check now ttl" "nonce_known now ttl" fst
    "\<lambda>x. \<not> nonce_expired now ttl (snd x)" for now ttl
proof unfold_locales
  fix x :: "string \<times> int" and m d m' k
  assume c: "nonce_check now ttl x m = (d, m')"
  let ?nc = "\<lparr>nc_cache = m, nc_ttl = ttl\<rparr>"
  obtain fresh nc where cs: "checkAndStore now (fst x) (snd x) ?nc = (fresh, nc)" and d: "d = (\<not> fresh)" "m' = nc_cache nc"
    using c by (auto simp: nonce_check_def split: prod.splits)
  have kn: "nonce_known now ttl m n \<longleftrightarrow> nc_cache (cleanup now ?nc) n \<noteq> None" for n
    using nonce_known_cleanup[of now ?nc n] by simp
  show "d \<longleftrightarrow> nonce_known now ttl m (fst x)"
    using cs d by (cases fresh) (auto simp: checkAndStore_iff kn)
  assume v: "\<not> nonce_expired now ttl (snd x)"
  have cl: "nonce_known now ttl (nc_cache (cleanup now ?nc)) n \<longleftrightarrow> nonce_known now ttl m n" for n
    using cleanup_lookup[of now ?nc n] by (auto simp: nonce_known_def)
  show "nonce_known now ttl m' k \<longleftrightarrow> nonce_known now ttl m k \<or> k = fst x"
  proof (cases fresh)
    case True
    then have "m' = (nc_cache (cleanup now ?nc))(fst x \<mapsto> snd x)" using cs d by (simp add: checkAndStore_iff)
    then have "nonce_known now ttl m' k \<longleftrightarrow> (if k = fst x then True else nonce_known now ttl (nc_cache (cleanup now ?nc)) k)"
      using v by (simp add: nonce_known_def)
    with cl show ?thesis by auto
  next
    case False
    then have "m' = nc_cache (cleanup now ?nc)" "nc_cache (cleanup now ?nc) (fst x) \<noteq> None"
      using cs d by (simp_all add: checkAndStore_iff)
    with cl kn show ?thesis by auto
  qed
qed

section \<open>Replay\<close>

text \<open>A nonce stays in the cache while its timestamp is within the ttl.\<close>

lemma Verify_ttl: "Verify marshal clock secret skew c nc = (r, nc') \<Longrightarrow> nc_ttl nc' = nc_ttl nc"
  by (auto simp: Verify_def checkAndStore_def Let_def split: if_splits option.splits)

lemma time_sub_mono: "now \<le> now' \<Longrightarrow> sint (time_sub now t) \<le> sint (time_sub now' t)"
  by (simp add: time_sub_sint)

lemma nonce_expired_mono: "now \<le> now' \<Longrightarrow> nonce_expired now ttl t \<Longrightarrow> nonce_expired now' ttl t"
  using time_sub_mono[of now now' t] by (simp add: nonce_expired_def)

lemma checkAndStore_keeps:
  assumes "nc_cache nc n = Some t" "\<not> nonce_expired now (nc_ttl nc) t"
  shows "nc_cache (snd (checkAndStore now n' t' nc)) n = Some t"
proof -
  have "nc_cache (cleanup now nc) n = Some t" using assms by (simp add: cleanup_lookup)
  then show ?thesis by (auto simp: checkAndStore_def Let_def split: option.splits)
qed

lemma Verify_keeps:
  assumes "nc_cache nc n = Some t" "\<not> nonce_expired (clock 1) (nc_ttl nc) t"
  shows "nc_cache (snd (Verify marshal clock secret skew c nc)) n = Some t"
  using assms checkAndStore_keeps[OF assms, of "cmd_Nonce c" "fst (cmd_Timestamp c)"]
  by (auto simp: Verify_def split: prod.splits bool.splits)

text \<open>A run of verifications, each with its clock.\<close>

fun verify_all :: "(Command \<Rightarrow> bytes option) \<Rightarrow> string \<Rightarrow> i64 \<Rightarrow> ((nat \<Rightarrow> int) \<times> Command) list \<Rightarrow> nonceCache \<Rightarrow> nonceCache" where
  "verify_all marshal secret skew [] nc = nc"
| "verify_all marshal secret skew ((clock, c) # cs) nc =
     verify_all marshal secret skew cs (snd (Verify marshal clock secret skew c nc))"

lemma verify_all_keeps:
  assumes "nc_cache nc n = Some t" "\<not> nonce_expired now (nc_ttl nc) t" "\<forall>(clock, c)\<in>set cs. clock 1 \<le> now"
  shows "nc_cache (verify_all marshal secret skew cs nc) n = Some t \<and> nc_ttl (verify_all marshal secret skew cs nc) = nc_ttl nc"
  using assms
proof (induction marshal secret skew cs nc rule: verify_all.induct)
  case (2 marshal secret skew clock c cs nc)
  have "\<not> nonce_expired (clock 1) (nc_ttl nc) t" using 2(3,4) nonce_expired_mono[of "clock 1" now] by auto
  from Verify_keeps[where clock = clock and marshal = marshal and secret = secret and skew = skew and c = c, OF 2(2) this] 2
  show ?case
    using Verify_ttl[of marshal clock secret skew c nc] by (cases "Verify marshal clock secret skew c nc") auto
qed simp

lemma Verify_accepted:
  assumes "Verify marshal clock secret skew c nc = (None, nc')"
  shows "verifySignature marshal secret c" "within_skew (clock 0) (fst (cmd_Timestamp c)) skew"
    "nc_cache nc' (cmd_Nonce c) = Some (fst (cmd_Timestamp c))" "secret \<noteq> []"
    "nc_cache (cleanup (clock 1) nc) (cmd_Nonce c) = None"
  using assms by (auto simp: Verify_def checkAndStore_iff split: if_splits prod.splits bool.splits)

lemma within_skew_sub:
  assumes "within_skew now t skew" and "\<bar>now - t\<bar> \<le> max_duration"
  shows "now - t \<le> sint skew"
  using assms within_skew_distance by fastforce

text \<open>A replay is rejected for ever: by the nonce while the timestamp is fresh, by the timestamp
  afterwards. The ttl must exceed the skew by the time the code takes between its two clock reads.\<close>

lemma replay_rejected:
  assumes acc: "Verify marshal clock secret skew c nc = (None, nc1)"
    and later: "\<forall>(k, c')\<in>set cs. k 1 \<le> clock' 1"
    and same: "cmd_Nonce c' = cmd_Nonce c" "fst (cmd_Timestamp c') = fst (cmd_Timestamp c)"
    and ttl: "sint skew + (clock' 1 - clock' 0) \<le> sint (nc_ttl nc)"
    and range: "\<bar>clock' 0 - fst (cmd_Timestamp c)\<bar> \<le> max_duration" "\<bar>clock' 1 - fst (cmd_Timestamp c)\<bar> \<le> max_duration"
  shows "fst (Verify marshal clock' secret skew c' (verify_all marshal secret skew cs nc1)) \<noteq> None"
proof (cases "within_skew (clock' 0) (fst (cmd_Timestamp c)) skew")
  case False
  then show ?thesis by (simp add: Verify_def same)
next
  case True
  let ?t = "fst (cmd_Timestamp c)"
  have "clock' 0 - ?t \<le> sint skew" by (rule within_skew_sub[OF True range(1)])
  then have le: "clock' 1 - ?t \<le> sint (nc_ttl nc)" using ttl by linarith
  have "sint (time_sub (clock' 1) ?t) = clock' 1 - ?t"
    using range(2) by (intro time_sub_exact) (simp_all add: min_duration_def max_duration_def abs_le_iff)
  with le have ne: "\<not> nonce_expired (clock' 1) (nc_ttl nc1) ?t"
    using Verify_ttl[OF acc] by (simp add: nonce_expired_def)
  let ?nc = "verify_all marshal secret skew cs nc1"
  have "nc_cache ?nc (cmd_Nonce c) = Some ?t" "nc_ttl ?nc = nc_ttl nc1"
    using verify_all_keeps[OF Verify_accepted(3)[OF acc] ne later] by simp_all
  with ne have "nc_cache (cleanup (clock' 1) ?nc) (cmd_Nonce c') = Some ?t" by (simp add: cleanup_lookup same)
  then show ?thesis by (auto simp: Verify_def same checkAndStore_def Let_def)
qed

section \<open>Signing and verifying\<close>

lemma Sign_Inr: "Sign marshal secret c = Inr c' \<Longrightarrow>
    \<exists>d. marshal (unsigned_cmd c) = Some d \<and> c' = c\<lparr>cmd_Signature := b64_encode (hmac_sha256 secret d)\<rparr> \<and> secret \<noteq> []"
  by (auto simp: Sign_def split: if_splits option.splits)

lemma Sign_verifies: "Sign marshal secret c = Inr c' \<Longrightarrow> verifySignature marshal secret c'"
  by (drule Sign_Inr) (auto simp: verifySignature_def unsigned_cmd_def)

lemma Sign_accepted:
  assumes "Sign marshal secret c = Inr c'" and "within_skew (clock 0) (fst (cmd_Timestamp c)) skew"
    and "nc_cache (cleanup (clock 1) nc) (cmd_Nonce c) = None"
  shows "fst (Verify marshal clock secret skew c' nc) = None"
proof -
  from Sign_Inr[OF assms(1)] obtain d where c': "c' = c\<lparr>cmd_Signature := b64_encode (hmac_sha256 secret d)\<rparr>" "secret \<noteq> []" by blast
  with Sign_verifies[OF assms(1)] assms(2,3) show ?thesis by (simp add: Verify_def checkAndStore_def Let_def)
qed

text \<open>Nothing is executed for a command that does not verify, and its result says so.\<close>

lemma Handle_unverified:
  assumes "Handle marshal clock c h s = (res, err, h', s')"
    and "\<not> verifySignature marshal (ch_secret h) c"
  shows "s' = s \<and> \<not> cr_Success res \<and> (\<exists>e. err = Some (VerificationFailed e))"
  using assms Verify_accepted(1)[of marshal clock "ch_secret h" "ch_maxClockSkew h" c "ch_nonceCache h"]
  by (auto simp: Handle_def Let_def split: prod.splits option.splits)

text \<open>The nonce is stored before the signature is checked: a forged command uses up the nonce of the
  genuine one.\<close>

lemma forged_nonce_blocks:
  assumes "secret \<noteq> []" "cmd_Signature c \<noteq> []" "within_skew (clock 0) (fst (cmd_Timestamp c)) skew"
    and "\<not> verifySignature marshal secret c"
  shows "nc_cache (snd (Verify marshal clock secret skew c nc)) (cmd_Nonce c) \<noteq> None"
  using assms by (auto simp: Verify_def checkAndStore_def Let_def split: option.splits)

section \<open>Registered commands\<close>

lemma RegisterAll_router:
  "ch_commandRouter (RegisterAll c h) ''stop'' = Some (control_HandleStop c)"
  "ch_commandRouter (RegisterAll c h) ''start'' = Some control_HandleStart"
  "ch_commandRouter (RegisterAll c h) ''restart'' = Some (control_HandleRestart c)"
  "ch_commandRouter (RegisterAll c h) ''switch_mode'' = Some (control_HandleSwitchMode c)"
  "ch_commandRouter (RegisterAll c h) ''upgrade'' = Some control_HandleUpgrade"
  by (simp_all add: RegisterAll_def RegisterCommand_def)

lemma RegisterAll_types: "ch_commandRouter h = Map.empty \<Longrightarrow> dom (ch_commandRouter (RegisterAll c h)) = set CommandTypes"
  by (auto simp: RegisterAll_def RegisterCommand_def CommandTypes_def)

end
