(* ===== verification/Send_Command.thy ===== *)
theory Send_Command
  imports Control Agent
begin

text \<open>
  \<open>cmd/send-command/main.go\<close>, the command-line client of the control endpoint: its arguments, the signed
  command it posts and its exit status. The clock, the fresh UUID, the JSON encodings and the reply are
  arguments; what it prints is left out.
\<close>

text \<open>\<open>name=value\<close> arguments; one without \<open>=\<close> is ignored, a later one wins.\<close>

definition add_param :: "string \<Rightarrow> params \<Rightarrow> params" where
  "add_param arg ps = (case split2 CHR ''='' arg of [k, v] \<Rightarrow> ps(k \<mapsto> JString v) | _ \<Rightarrow> ps)"

definition parse_params :: "string list \<Rightarrow> params" where
  "parse_params args = fold add_param args Map.empty"

definition control_secret :: "(string \<Rightarrow> string) \<Rightarrow> string" where
  "control_secret getenv = (if getenv ''CONTROL_SECRET'' = [] then ''test-control-secret-key'' else getenv ''CONTROL_SECRET'')"

definition control_endpoint :: "(string \<Rightarrow> string) \<Rightarrow> string" where
  "control_endpoint getenv = (if getenv ''CONTROL_ENDPOINT'' = [] then ''http://localhost:8081/api/control/command''
     else getenv ''CONTROL_ENDPOINT'')"

record send_env =
  sd_getenv :: "string \<Rightarrow> string"
  sd_now :: int
  sd_uuid :: string
  sd_marshal :: "Command \<Rightarrow> bytes option"
  sd_indent :: "Command \<Rightarrow> bytes option"
  sd_post :: "string \<Rightarrow> bytes \<Rightarrow> bytes option option"
  sd_result :: "bytes \<Rightarrow> bool option"

definition new_command :: "send_env \<Rightarrow> string \<Rightarrow> string list \<Rightarrow> Command" where
  "new_command env cmdType args = \<lparr>cmd_Command = cmdType, cmd_Params = parse_params args, cmd_Timestamp = (sd_now env, 0),
     cmd_Nonce = sd_uuid env, cmd_Signature = []\<rparr>"

definition signed_command :: "send_env \<Rightarrow> string \<Rightarrow> string list \<Rightarrow> sign_error + Command" where
  "signed_command env cmdType args = Sign (sd_marshal env) (control_secret (sd_getenv env)) (new_command env cmdType args)"

text \<open>The exit status; \<open>sd_post\<close> is no reply, a reply whose body breaks off, or a body, and
  \<open>sd_result\<close> the decoded \<open>success\<close> field. \<open>args\<close> are the arguments after the program's name.\<close>

definition send_command :: "send_env \<Rightarrow> string list \<Rightarrow> nat" where
  "send_command env args =
     (case args of [] \<Rightarrow> 1
      | cmdType # rest \<Rightarrow> (case signed_command env cmdType rest of
          Inl _ \<Rightarrow> 1
        | Inr c \<Rightarrow> (case sd_indent env c of None \<Rightarrow> 1
          | Some body \<Rightarrow> (case sd_post env (control_endpoint (sd_getenv env)) body of
              Some (Some respBody) \<Rightarrow> (case sd_result env respBody of None \<Rightarrow> 1 | Some success \<Rightarrow> if success then 0 else 1)
            | _ \<Rightarrow> 1))))"

section \<open>From the command line to the handler\<close>

lemma parse_params_last:
  assumes "CHR ''='' \<notin> set k"
  shows "parse_params (args @ [k @ ''='' @ v]) = (parse_params args)(k \<mapsto> JString v)"
  using assms takeWhile_neq_append[OF assms, of v] dropWhile_neq_append[OF assms, of v] by (simp add: parse_params_def add_param_def split2_def)

text \<open>An accepted command runs its registered function on the parsed parameters, and the result reports
  that function's outcome.\<close>

lemma sent_command_handled:
  assumes "signed_command env cmdType args = Inr c" and "ch_secret h = control_secret (sd_getenv env)"
    and "within_skew (clock 0) (sd_now env) (ch_maxClockSkew h)"
    and "nc_cache (cleanup (clock 1) (ch_nonceCache h)) (sd_uuid env) = None"
    and "ch_commandRouter h cmdType = Some f" and "f (parse_params args) s = (r, s1)"
  shows "\<exists>res h'. Handle (sd_marshal env) clock c h s = (res, map_option ExecutionFailed r, h', s1)
    \<and> cr_Success res = (r = None) \<and> cr_Command res = cmdType"
proof -
  from Sign_Inr[OF assms(1)[unfolded signed_command_def]] obtain sg where
    c: "c = (new_command env cmdType args)\<lparr>cmd_Signature := sg\<rparr>" by blast
  have "fst (Verify (sd_marshal env) clock (ch_secret h) (ch_maxClockSkew h) c (ch_nonceCache h)) = None"
    unfolding assms(2)
    by (rule Sign_accepted[OF assms(1)[unfolded signed_command_def]]) (use assms(3,4) in \<open>simp_all add: new_command_def\<close>)
  then obtain nc where "Verify (sd_marshal env) clock (ch_secret h) (ch_maxClockSkew h) c (ch_nonceCache h) = (None, nc)"
    by (metis prod.collapse)
  with c assms(5,6) show ?thesis by (cases r) (simp_all add: Handle_def Let_def new_command_def)
qed

section \<open>The status client\<close>

text \<open>\<open>cmd/check-status/main.go\<close>: the reply of the endpoint (\<open>None\<close> without a connection, \<open>Some None\<close> when its body
  cannot be read), and its JSON object, \<open>None\<close> when it does not parse; the exit status and the printed health. The
  status code of the reply is not looked at.\<close>

record status_env =
  ck_getenv :: "string \<Rightarrow> string"
  ck_get :: "string \<Rightarrow> bytes option option"
  ck_parse :: "bytes \<Rightarrow> (string \<rightharpoonup> json_value) option"

definition check_status :: "status_env \<Rightarrow> nat \<times> json_value option" where
  "check_status env =
     (let endpoint = (if ck_getenv env ''CONTROL_ENDPOINT'' = [] then ''http://localhost:8081'' else ck_getenv env ''CONTROL_ENDPOINT'')
      in case ck_get env (endpoint @ ''/healthz'') of
           Some (Some body) \<Rightarrow> (case ck_parse env body of None \<Rightarrow> (1, None) | Some result \<Rightarrow> (0, result ''status''))
         | _ \<Rightarrow> (1, None))"

text \<open>With one setting of the shared variable \<open>CONTROL_ENDPOINT\<close> the two clients use different URLs: what makes
  \<open>send-command\<close> post to the command route makes \<open>check-status\<close> ask below it, for a path the server does not have.\<close>

lemma endpoint_shared:
  assumes "getenv ''CONTROL_ENDPOINT'' = base @ ''/api/control/command''"
    and "get (base @ ''/api/control/command/healthz'') = None"
  shows "control_endpoint getenv = base @ ''/api/control/command''
    \<and> check_status \<lparr>ck_getenv = getenv, ck_get = get, ck_parse = p\<rparr> = (1, None)"
  using assms by (simp add: control_endpoint_def check_status_def)

end
