(* ===== verification/Kv_Store.thy ===== *)
theory Kv_Store
  imports Go_Text "HOL-Library.AList"
begin

text \<open>
  The embedded key-value database of \<open>internal/queue\<close> (BadgerDB, a third-party package): the operations
  the queue calls, as a record, and the documented behaviour the queue relies on, as the locale
  \<open>kv_store\<close>. A transaction commits as a whole or fails and changes nothing; an iterator visits the
  keys in byte order; a value read that succeeds returns the stored value; a read transaction can be refused
  (\<open>kv_view\<close>), as on a closed database; the value-log collector keeps every entry. \<open>content\<close> is the
  specification view of a database.
\<close>

record 'd kv =
  kv_set :: "bytes \<Rightarrow> bytes \<Rightarrow> 'd \<Rightarrow> 'd option"
  kv_delete :: "bytes list \<Rightarrow> 'd \<Rightarrow> 'd option"
  kv_keys :: "'d \<Rightarrow> bytes \<Rightarrow> bytes list"
  kv_value :: "'d \<Rightarrow> bytes \<Rightarrow> bytes option"
  kv_view :: "'d \<Rightarrow> bool"
  kv_gc :: "'d \<Rightarrow> 'd"
  kv_close :: "'d \<Rightarrow> bool \<times> 'd"

locale kv_store =
  fixes kv :: "'d kv" and content :: "'d \<Rightarrow> bytes \<Rightarrow> bytes option"
  assumes content_set: "kv_set kv k v d = Some d' \<Longrightarrow> content d' = (content d)(k \<mapsto> v)"
    and content_delete: "kv_delete kv ks d = Some d' \<Longrightarrow> content d' = content d |` (- set ks)"
    and keys_sorted: "sorted_wrt (<) (kv_keys kv d from)"
    and keys_set: "set (kv_keys kv d from) = {k \<in> dom (content d). from \<le> k}"
    and value_content: "kv_value kv d k = Some v \<Longrightarrow> content d k = Some v"
    and content_gc: "content (kv_gc kv d) = content d"
begin

text \<open>An iterator positioned at a key that exists stands on it.\<close>

lemma seek_hit: "(\<exists>ks. kv_keys kv d k = k # ks) \<longleftrightarrow> k \<in> dom (content d)"
proof
  assume "\<exists>ks. kv_keys kv d k = k # ks"
  then show "k \<in> dom (content d)" using keys_set[of d k] by (metis (no_types, lifting) list.set_intros(1) mem_Collect_eq)
next
  assume k: "k \<in> dom (content d)"
  then have "k \<in> set (kv_keys kv d k)" by (simp add: keys_set)
  then obtain x xs where x: "kv_keys kv d k = x # xs" by (cases "kv_keys kv d k") auto
  then have "k \<le> x" using keys_set[of d k] by auto
  moreover have "x \<le> k"
    using \<open>k \<in> set (kv_keys kv d k)\<close> keys_sorted[of d k] by (auto simp: x)
  ultimately show "\<exists>ks. kv_keys kv d k = k # ks" using x by auto
qed

end

section \<open>A database in memory\<close>

text \<open>An association list with room for \<open>cap\<close> entries satisfies the contract.\<close>

definition mem_kv :: "nat \<Rightarrow> (bytes \<times> bytes) list kv" where
  "mem_kv cap = \<lparr>kv_set = (\<lambda>k v d. if length d < cap then Some (AList.update k v d) else None),
     kv_delete = (\<lambda>ks d. Some (filter (\<lambda>(k, _). k \<notin> set ks) d)),
     kv_keys = (\<lambda>d from. remdups (sort (filter (\<lambda>k. from \<le> k) (map fst d)))),
     kv_value = map_of, kv_view = (\<lambda>_. True), kv_gc = (\<lambda>d. d), kv_close = (\<lambda>d. (True, d))\<rparr>"

lemma map_of_filter_keys: "map_of (filter (\<lambda>(k, _). k \<notin> A) d) = map_of d |` (- A)"
  by (induction d) (auto simp: restrict_map_def fun_eq_iff)

interpretation mem: kv_store "mem_kv cap" map_of for cap
proof unfold_locales
  fix k v d d' assume "kv_set (mem_kv cap) k v d = Some d'"
  then show "map_of d' = (map_of d)(k \<mapsto> v)" by (auto simp: mem_kv_def update_conv' fun_eq_iff update_conv split: if_splits)
next
  fix ks d d' assume "kv_delete (mem_kv cap) ks d = Some d'"
  then show "map_of d' = map_of d |` (- set ks)" by (auto simp: mem_kv_def map_of_filter_keys)
next
  fix d "from"
  show "sorted_wrt (<) (kv_keys (mem_kv cap) d from)"
    by (simp add: mem_kv_def strict_sorted_iff sorted_remdups)
  show "set (kv_keys (mem_kv cap) d from) = {k \<in> dom (map_of d). from \<le> k}"
    by (auto simp: mem_kv_def dom_map_of_conv_image_fst)
next
  fix d k v assume "kv_value (mem_kv cap) d k = Some v"
  then show "map_of d k = Some v" by (simp add: mem_kv_def)
next
  fix d
  show "map_of (kv_gc (mem_kv cap) d) = map_of d" by (simp add: mem_kv_def)
qed

section \<open>Prefixes in byte order\<close>

text \<open>The keys with a given prefix are an interval of the byte order, so the iteration that starts at the
  prefix and stops at the first key without it visits exactly them.\<close>

lemma prefix_le: "(p :: string) \<le> p @ r"
  by (induction p) simp_all

lemma prefix_interval: "p \<le> b \<Longrightarrow> b \<le> p @ r \<Longrightarrow> \<exists>r'. b = (p :: string) @ r'"
proof (induction p arbitrary: b)
  case (Cons c p)
  then obtain x xs where b: "b = x # xs" by (cases b) simp_all
  with Cons.prems have "x = c" "p \<le> xs" "xs \<le> p @ r" by auto
  with Cons.IH b show ?case by simp
qed simp

lemma takeWhile_prefix:
  assumes "sorted_wrt (<) ks" and "\<forall>k\<in>set ks. p \<le> k"
  shows "takeWhile (\<lambda>k. has_prefix k p) ks = filter (\<lambda>k. has_prefix k p) ks"
  using assms
proof (induction ks)
  case (Cons k ks)
  show ?case
  proof (cases "has_prefix k p")
    case True
    with Cons show ?thesis by simp
  next
    case False
    have "\<not> has_prefix x p" if "x \<in> set ks" for x
    proof
      assume "has_prefix x p"
      then obtain r where "x = p @ r" by (auto simp: has_prefix_iff)
      moreover have "k \<le> x" using Cons.prems(1) that by (simp add: less_imp_le)
      ultimately show False using prefix_interval[of p k r] Cons.prems(2) False by (auto simp: has_prefix_iff)
    qed
    with False show ?thesis by simp
  qed
qed simp

end
