(* ===== verification/Durable_Queue.thy ===== *)
theory Durable_Queue
  imports Kv_Store
begin

text \<open>
  \<open>internal/queue/queue.go\<close> and \<open>badger_queue.go\<close>: the disk-backed queue. Each method is modelled here as one
  call at a time, and under parallel calls in \<open>Queue_Concurrency\<close>; the counters and offsets are the \<open>uint64\<close> atomics of the code. The database is the
  argument \<open>kv\<close>, the JSON form of a stored item the argument \<open>ic\<close>.
\<close>

definition DropOldest :: string where "DropOldest = ''drop_oldest''"
definition RejectNew :: string where "RejectNew = ''reject_new''"
definition StreamDLQ :: string where "StreamDLQ = ''dlq''"

record QueueItem =
  qi_Offset :: u64
  qi_Data :: bytes
  qi_EnqueuedAt :: int

record queue_Config =
  qf_Stream :: string
  qf_WALPath :: string
  qf_MaxBytes :: i64
  qf_MaxEvents :: i64
  qf_DropPolicy :: string
  qf_SegmentSize :: i64

record queue_Metrics =
  qx_Depth :: i64
  qx_DLQSize :: nat
  qx_DroppedCount :: u64
  qx_EnqueuedCount :: u64
  qx_DequeuedCount :: u64
  qx_CommittedCount :: u64
  qx_BytesUsed :: i64

record DLQEntry =
  de_OriginalEvent :: bytes
  de_Stream :: string
  de_Reason :: string
  de_ErrorMessage :: string
  de_FirstAttemptAt :: int
  de_LastAttemptAt :: int
  de_AttemptCount :: i64
  de_HTTPStatusCode :: i64

datatype queue_error =
    QueueFull | QueueClosed | InvalidOffset | WALPathRequired | OpenDBFailed | RecoverFailed | WriteFailedDB | DropFailed
  | ItemMarshalFailed | DequeueFailed | CommitFailed | DLQNotConfigured | DLQToDLQ
  | DLQMarshalFailed | DLQEnqueueFailed queue_error | EnqueueAfterDrop | DLQUnsupported

section \<open>Keys\<close>

definition formatKey :: "string \<Rightarrow> u64 \<Rightarrow> bytes" where
  "formatKey stream offset = stream @ '':'' @ pad_zero 20 (dec_nat (unat offset))"

definition parseOffsetFromKey :: "bytes \<Rightarrow> u64 option" where
  "parseOffsetFromKey key = (case split2 CHR '':'' key of [_, digits] \<Rightarrow> scan_uint64 digits | _ \<Rightarrow> None)"

lemma unat_less_2_64: "unat (w :: u64) < 2 ^ 64"
  using unsigned_less[of w] by simp

lemma parse_formatKey:
  assumes "CHR '':'' \<notin> set stream"
  shows "parseOffsetFromKey (formatKey stream offset) = Some offset"
proof -
  have "split2 CHR '':'' (formatKey stream offset) = [stream, pad_zero 20 (dec_nat (unat offset))]"
    using split2_append[OF assms] by (simp add: formatKey_def)
  moreover have "scan_uint64 (pad_zero 20 (dec_nat (unat offset))) = Some (of_nat (unat offset))"
    using scan_uint64_digits[of "pad_zero 20 (dec_nat (unat offset))"] unat_less_2_64[of offset]
    by (simp add: pad_zero_digits dec_nat_digits) (simp add: pad_zero_def)
  ultimately show ?thesis by (simp add: parseOffsetFromKey_def)
qed

lemma formatKey_inject [simp]: "formatKey stream a = formatKey stream b \<longleftrightarrow> a = b"
proof
  assume "formatKey stream a = formatKey stream b"
  then have "digits_value (pad_zero 20 (dec_nat (unat a))) = digits_value (pad_zero 20 (dec_nat (unat b)))"
    by (simp add: formatKey_def)
  then show "a = b" by (simp add: word_unat_eq_iff)
qed simp

lemma formatKey_prefix [simp]: "has_prefix (formatKey stream o') (stream @ '':'')"
  by (simp add: formatKey_def has_prefix_iff)

section \<open>The queue\<close>

record item_codec =
  ic_marshal :: "bytes \<Rightarrow> int \<Rightarrow> bytes option"
  ic_parse :: "bytes \<Rightarrow> (bytes \<times> int) option"

definition item_roundtrip :: "item_codec \<Rightarrow> bool" where
  "item_roundtrip ic \<longleftrightarrow> (\<forall>d t v. ic_marshal ic d t = Some v \<longrightarrow> ic_parse ic v = Some (d, t))"

record 'd BadgerQueue =
  bq_cfg :: queue_Config
  bq_db :: 'd
  bq_writeOffset :: u64
  bq_readOffset :: u64
  bq_droppedCount :: u64
  bq_enqueuedCount :: u64
  bq_dequeuedCount :: u64
  bq_committedCount :: u64
  bq_closed :: bool

definition bq_depth :: "'d BadgerQueue \<Rightarrow> i64" where
  "bq_depth q = (if bq_writeOffset q \<le> bq_readOffset q then 0 else bq_writeOffset q - bq_readOffset q)"

definition approximateBytesUsed :: "'d BadgerQueue \<Rightarrow> i64" where
  "approximateBytesUsed q = (if bq_depth q = 0 then 0 else bq_depth q * 500)"

definition checkCapacity :: "'d BadgerQueue \<Rightarrow> queue_error option" where
  "checkCapacity q =
     (if sint (qf_MaxEvents (bq_cfg q)) \<le> sint (bq_depth q) then Some QueueFull
      else if sint (qf_MaxBytes (bq_cfg q)) \<le> sint (approximateBytesUsed q) then Some QueueFull
      else None)"

definition dropOldest :: "'d kv \<Rightarrow> 'd BadgerQueue \<Rightarrow> queue_error option \<times> 'd BadgerQueue" where
  "dropOldest kv q =
     (if bq_writeOffset q \<le> bq_readOffset q then (None, q)
      else case kv_delete kv [formatKey (qf_Stream (bq_cfg q)) (bq_readOffset q)] (bq_db q) of
        None \<Rightarrow> (Some DropFailed, q)
      | Some d \<Rightarrow> (None, q\<lparr>bq_db := d, bq_readOffset := bq_readOffset q + 1, bq_droppedCount := bq_droppedCount q + 1\<rparr>))"

text \<open>The write of \<open>Enqueue\<close>, once there is room. A marshalling error leaves the offset advanced.\<close>

definition write_item :: "'d kv \<Rightarrow> item_codec \<Rightarrow> int \<Rightarrow> bytes \<Rightarrow> 'd BadgerQueue \<Rightarrow> queue_error option \<times> 'd BadgerQueue" where
  "write_item kv ic now d q =
     (let offset = bq_writeOffset q; q1 = q\<lparr>bq_writeOffset := offset + 1\<rparr>
      in case ic_marshal ic d now of None \<Rightarrow> (Some ItemMarshalFailed, q1)
       | Some itemBytes \<Rightarrow> (case kv_set kv (formatKey (qf_Stream (bq_cfg q)) offset) itemBytes (bq_db q) of
           None \<Rightarrow> (Some WriteFailedDB, q1\<lparr>bq_writeOffset := bq_writeOffset q1 + (- 1)\<rparr>)
         | Some db \<Rightarrow> (None, q1\<lparr>bq_db := db, bq_enqueuedCount := bq_enqueuedCount q + 1\<rparr>)))"

definition badger_Enqueue :: "'d kv \<Rightarrow> item_codec \<Rightarrow> int \<Rightarrow> bytes \<Rightarrow> 'd BadgerQueue \<Rightarrow> queue_error option \<times> 'd BadgerQueue" where
  "badger_Enqueue kv ic now d q =
     (if bq_closed q then (Some QueueClosed, q)
      else case checkCapacity q of
        None \<Rightarrow> write_item kv ic now d q
      | Some err \<Rightarrow>
          if qf_DropPolicy (bq_cfg q) = RejectNew then (Some err, q)
          else (case dropOldest kv q of
              (Some err', q') \<Rightarrow> (Some err', q')
            | (None, q') \<Rightarrow> write_item kv ic now d q'))"

text \<open>The loop of \<open>DequeueBatch\<close>: seek to the key of each offset; a missing key is skipped, a value that
  is not the JSON form of an item is returned as it is.\<close>

function dequeue_from :: "'d kv \<Rightarrow> item_codec \<Rightarrow> int \<Rightarrow> string \<Rightarrow> 'd \<Rightarrow> nat \<Rightarrow> nat \<Rightarrow> nat \<Rightarrow> queue_error + QueueItem list" where
  "dequeue_from kv ic now stream d offset write left =
     (if offset < write \<and> 0 < left then
        let key = formatKey stream (of_nat offset)
        in case kv_keys kv d key of
             k # _ \<Rightarrow>
               if k = key then
                 (case kv_value kv d key of None \<Rightarrow> Inl DequeueFailed
                  | Some itemBytes \<Rightarrow>
                      let item = (case ic_parse ic itemBytes of None \<Rightarrow> (itemBytes, now) | Some p \<Rightarrow> p)
                      in (case dequeue_from kv ic now stream d (Suc offset) write (left - 1) of
                            Inl err \<Rightarrow> Inl err
                          | Inr items \<Rightarrow> Inr (\<lparr>qi_Offset = of_nat offset, qi_Data = fst item, qi_EnqueuedAt = snd item\<rparr> # items)))
               else dequeue_from kv ic now stream d (Suc offset) write left
           | [] \<Rightarrow> dequeue_from kv ic now stream d (Suc offset) write left
      else Inr [])"
  by pat_completeness auto
termination by (relation "measure (\<lambda>(kv, ic, now, stream, d, offset, write, left). write - offset)") auto

declare dequeue_from.simps [simp del]

definition badger_DequeueBatch :: "'d kv \<Rightarrow> item_codec \<Rightarrow> int \<Rightarrow> int \<Rightarrow> 'd BadgerQueue \<Rightarrow> (queue_error + QueueItem list) \<times> 'd BadgerQueue" where
  "badger_DequeueBatch kv ic now batchSize q =
     (if batchSize \<le> 0 then (Inr [], q)
      else if \<not> kv_view kv (bq_db q) then (Inl DequeueFailed, q)
      else case dequeue_from kv ic now (qf_Stream (bq_cfg q)) (bq_db q) (unat (bq_readOffset q)) (unat (bq_writeOffset q)) (nat batchSize) of
        Inl err \<Rightarrow> (Inl err, q)
      | Inr items \<Rightarrow> (Inr items, q\<lparr>bq_dequeuedCount := bq_dequeuedCount q + of_nat (length items)\<rparr>))"

text \<open>The condition \<open>o <= offset\<close> holds for every \<open>uint64\<close> when \<open>offset\<close> is the largest one: that loop ends only
  when the database refuses the growing transaction.\<close>

definition badger_Commit :: "'d kv \<Rightarrow> u64 \<Rightarrow> 'd BadgerQueue \<Rightarrow> queue_error option \<times> 'd BadgerQueue" where
  "badger_Commit kv offset q =
     (let readOffset = bq_readOffset q
      in if offset < readOffset then (Some InvalidOffset, q)
         else if offset = - 1 then (Some CommitFailed, q)
         else case kv_delete kv (map (\<lambda>o'. formatKey (qf_Stream (bq_cfg q)) (of_nat o')) [unat readOffset ..< Suc (unat offset)]) (bq_db q) of
           None \<Rightarrow> (Some CommitFailed, q)
         | Some d \<Rightarrow> (None, q\<lparr>bq_db := d, bq_readOffset := offset + 1,
               bq_committedCount := bq_committedCount q + (offset - readOffset + 1)\<rparr>))"

text \<open>\<open>dlq\<close> is the queue behind the pointer of the same name; \<open>errText\<close> is \<open>err.Error()\<close>.\<close>

definition badger_MoveToDLQ :: "'d kv \<Rightarrow> item_codec \<Rightarrow> (DLQEntry \<Rightarrow> bytes option) \<Rightarrow> int \<Rightarrow> QueueItem \<Rightarrow> string \<Rightarrow> string
    \<Rightarrow> 'd BadgerQueue \<Rightarrow> 'd BadgerQueue option \<Rightarrow> queue_error option \<times> 'd BadgerQueue \<times> 'd BadgerQueue option" where
  "badger_MoveToDLQ kv ic marshal now item reason errText q dlq =
     (case dlq of None \<Rightarrow> (Some DLQNotConfigured, q, None)
      | Some dq \<Rightarrow>
          if qf_Stream (bq_cfg q) = StreamDLQ then (Some DLQToDLQ, q, Some dq)
          else (case marshal \<lparr>de_OriginalEvent = qi_Data item, de_Stream = qf_Stream (bq_cfg q), de_Reason = reason,
                  de_ErrorMessage = errText, de_FirstAttemptAt = qi_EnqueuedAt item, de_LastAttemptAt = now,
                  de_AttemptCount = 1, de_HTTPStatusCode = 0\<rparr> of
              None \<Rightarrow> (Some DLQMarshalFailed, q, Some dq)
            | Some d \<Rightarrow> (case badger_Enqueue kv ic now d dq of
                (Some err, dq') \<Rightarrow> (Some (DLQEnqueueFailed err), q, Some dq')
              | (None, dq') \<Rightarrow> (case badger_Commit kv (qi_Offset item) q of (_, q') \<Rightarrow> (None, q', Some dq')))))"

definition badger_Metrics :: "'d BadgerQueue \<Rightarrow> queue_Metrics" where
  "badger_Metrics q = \<lparr>qx_Depth = bq_depth q, qx_DLQSize = 0, qx_DroppedCount = bq_droppedCount q,
     qx_EnqueuedCount = bq_enqueuedCount q, qx_DequeuedCount = bq_dequeuedCount q,
     qx_CommittedCount = bq_committedCount q, qx_BytesUsed = approximateBytesUsed q\<rparr>"

text \<open>The flag tells a nil error.\<close>

definition badger_Close :: "'d kv \<Rightarrow> 'd BadgerQueue \<Rightarrow> bool \<times> 'd BadgerQueue" where
  "badger_Close kv q = (if bq_closed q then (True, q)
     else case kv_close kv (bq_db q) of (ok, d) \<Rightarrow> (ok, q\<lparr>bq_closed := True, bq_db := d\<rparr>))"

text \<open>The scan of \<open>recover\<close>: minimum, maximum and count of the offsets that parse.\<close>

fun recover_scan :: "bytes list \<Rightarrow> u64 \<times> u64 \<times> nat \<Rightarrow> u64 \<times> u64 \<times> nat" where
  "recover_scan [] acc = acc"
| "recover_scan (key # keys) (minOffset, maxOffset, n) =
     (case parseOffsetFromKey key of
        None \<Rightarrow> recover_scan keys (minOffset, maxOffset, n)
      | Some offset \<Rightarrow> recover_scan keys
          (if offset < minOffset then offset else minOffset, if maxOffset < offset then offset else maxOffset, Suc n))"

definition recover :: "'d kv \<Rightarrow> 'd BadgerQueue \<Rightarrow> 'd BadgerQueue" where
  "recover kv q =
     (let prefix = qf_Stream (bq_cfg q) @ '':'';
          keys = takeWhile (\<lambda>k. has_prefix k prefix) (kv_keys kv (bq_db q) prefix)
      in case recover_scan keys (- 1, 0, 0) of (minOffset, maxOffset, n) \<Rightarrow>
           if n = 0 then q\<lparr>bq_readOffset := 0, bq_writeOffset := 0\<rparr>
           else q\<lparr>bq_readOffset := minOffset, bq_writeOffset := maxOffset + 1\<rparr>)"

definition default_config :: "queue_Config \<Rightarrow> queue_Config" where
  "default_config cfg =
     cfg\<lparr>qf_MaxBytes := (if sint (qf_MaxBytes cfg) \<le> 0 then 1 * 1024 * 1024 * 1024 else qf_MaxBytes cfg),
       qf_MaxEvents := (if sint (qf_MaxEvents cfg) \<le> 0 then 100000 else qf_MaxEvents cfg),
       qf_DropPolicy := (if qf_DropPolicy cfg = [] then DropOldest else qf_DropPolicy cfg)\<rparr>"

text \<open>\<open>opened\<close> is the result of \<open>badger.Open\<close> on the path.\<close>

definition NewBadgerQueue :: "'d kv \<Rightarrow> (string \<Rightarrow> 'd option) \<Rightarrow> queue_Config \<Rightarrow> queue_error + 'd BadgerQueue" where
  "NewBadgerQueue kv opened cfg =
     (if qf_WALPath cfg = [] then Inl WALPathRequired
      else case opened (qf_WALPath cfg) of None \<Rightarrow> Inl OpenDBFailed
        | Some d \<Rightarrow> if \<not> kv_view kv d then Inl RecoverFailed else Inr (recover kv \<lparr>bq_cfg = default_config cfg, bq_db = d, bq_writeOffset = 0, bq_readOffset = 0,
            bq_droppedCount = 0, bq_enqueuedCount = 0, bq_dequeuedCount = 0, bq_committedCount = 0, bq_closed = False\<rparr>))"

text \<open>The collector's loop: before every tick of its timer it reads the flag \<open>closed\<close>, the next element of the list;
  an error of the collector is only logged. After \<open>Close\<close> one more collection runs when the timer was pending.\<close>

fun runGC :: "'d kv \<Rightarrow> bool list \<Rightarrow> 'd BadgerQueue \<Rightarrow> 'd BadgerQueue" where
  "runGC kv [] q = q"
| "runGC kv (isClosed # flags) q = (if isClosed then q else runGC kv flags (q\<lparr>bq_db := kv_gc kv (bq_db q)\<rparr>))"

end
