(* ===== verification/Queue_Refinement.thy ===== *)
theory Queue_Refinement
  imports Durable_Queue
begin

text \<open>
  The durable queue refines a list of numbered items. \<open>queue_items\<close> reads the list off the offsets and
  the database, \<open>queue_inv\<close> is the invariant of the offsets; the lemmas give the effect of every method
  on the list, including recovery from the database after a restart.
\<close>

definition decode_item :: "item_codec \<Rightarrow> bytes \<Rightarrow> bytes" where
  "decode_item ic v = (case ic_parse ic v of None \<Rightarrow> v | Some (d, _) \<Rightarrow> d)"

definition slot :: "item_codec \<Rightarrow> string \<Rightarrow> (bytes \<rightharpoonup> bytes) \<Rightarrow> nat \<Rightarrow> (nat \<times> bytes) list" where
  "slot ic stream m o' = (case m (formatKey stream (of_nat o')) of None \<Rightarrow> [] | Some v \<Rightarrow> [(o', decode_item ic v)])"

definition slots :: "item_codec \<Rightarrow> string \<Rightarrow> (bytes \<rightharpoonup> bytes) \<Rightarrow> nat \<Rightarrow> nat \<Rightarrow> (nat \<times> bytes) list" where
  "slots ic stream m r w = concat (map (slot ic stream m) [r..<w])"

definition queue_items :: "item_codec \<Rightarrow> ('d \<Rightarrow> bytes \<rightharpoonup> bytes) \<Rightarrow> 'd BadgerQueue \<Rightarrow> (nat \<times> bytes) list" where
  "queue_items ic content q =
     slots ic (qf_Stream (bq_cfg q)) (content (bq_db q)) (unat (bq_readOffset q)) (unat (bq_writeOffset q))"

definition queue_inv :: "('d \<Rightarrow> bytes \<rightharpoonup> bytes) \<Rightarrow> 'd BadgerQueue \<Rightarrow> bool" where
  "queue_inv content q \<longleftrightarrow> CHR '':'' \<notin> set (qf_Stream (bq_cfg q)) \<and> bq_readOffset q \<le> bq_writeOffset q
     \<and> (\<forall>k\<in>dom (content (bq_db q)). has_prefix k (qf_Stream (bq_cfg q) @ '':'') \<longrightarrow>
         (\<exists>i. k = formatKey (qf_Stream (bq_cfg q)) i \<and> bq_readOffset q \<le> i \<and> i < bq_writeOffset q))"

text \<open>The offset space is \<open>uint64\<close>; the queue is used below its end.\<close>

definition has_offsets :: "'d BadgerQueue \<Rightarrow> bool" where
  "has_offsets q \<longleftrightarrow> unat (bq_writeOffset q) < 2 ^ 64 - 2"

section \<open>Slots\<close>

lemma slots_append: "r \<le> k \<Longrightarrow> k \<le> w \<Longrightarrow> slots ic s m r w = slots ic s m r k @ slots ic s m k w"
proof -
  assume "r \<le> k" "k \<le> w"
  then have "[r..<w] = [r..<k] @ [k..<w]" by (metis le_add_diff_inverse upt_add_eq_append)
  then show ?thesis by (simp add: slots_def)
qed

lemma slots_cong: "(\<And>i. r \<le> i \<Longrightarrow> i < w \<Longrightarrow> m (formatKey s (of_nat i)) = m' (formatKey s (of_nat i))) \<Longrightarrow>
    slots ic s m r w = slots ic s m' r w"
  unfolding slots_def slot_def by (intro arg_cong[where f = concat] map_cong) auto

lemma slots_snoc: "r \<le> w \<Longrightarrow> slots ic s m r (Suc w) = slots ic s m r w @ slot ic s m w"
  by (simp add: slots_def)

lemma slots_Cons: "r < w \<Longrightarrow> slots ic s m r w = slot ic s m r @ slots ic s m (Suc r) w"
  by (simp add: slots_def upt_conv_Cons)

lemma slots_offsets: "(i, d) \<in> set (slots ic s m r w) \<Longrightarrow> r \<le> i \<and> i < w"
  by (auto simp: slots_def slot_def split: option.splits)

lemma slots_empty: "(\<And>i. r \<le> i \<Longrightarrow> i < w \<Longrightarrow> m (formatKey s (of_nat i)) = None) \<Longrightarrow> slots ic s m r w = []"
  by (auto simp: slots_def slot_def)

lemma slots_suffix: "r \<le> k \<Longrightarrow> k \<le> w \<Longrightarrow> slots ic s m k w = filter (\<lambda>(i, _). k \<le> i) (slots ic s m r w)"
proof -
  assume k: "r \<le> k" "k \<le> w"
  have "filter (\<lambda>(i, _). k \<le> i) (slots ic s m r k) = []"
    by (auto simp: filter_empty_conv dest: slots_offsets)
  moreover have "filter (\<lambda>(i, _). k \<le> i) (slots ic s m k w) = slots ic s m k w"
    by (auto simp: filter_id_conv dest: slots_offsets)
  ultimately show ?thesis using slots_append[OF k, of ic s m] by simp
qed

lemma of_nat_unat_u64 [simp]: "(of_nat (unat w) :: u64) = w"
  by simp

lemma unat_of_nat_u64: "a < 2 ^ 64 \<Longrightarrow> unat (of_nat a :: u64) = a"
  by (simp add: unat_of_nat)

lemma of_nat_eq_u64: "a < 2 ^ 64 \<Longrightarrow> b < 2 ^ 64 \<Longrightarrow> (of_nat a :: u64) = of_nat b \<longleftrightarrow> a = b"
  by (metis unat_of_nat_u64)

lemma unat_Suc: "unat w < 2 ^ 64 - 1 \<Longrightarrow> unat (w + 1 :: u64) = Suc (unat w)"
  by (simp add: unat_word_ariths)

lemma slots_drop_key:
  assumes "r < k" "k \<le> w" "w \<le> 2 ^ 64"
    and "m' = m |` (- ((\<lambda>i. formatKey s (of_nat i)) ` {r..<k}))"
  shows "slots ic s m' k w = filter (\<lambda>(i, _). k \<le> i) (slots ic s m r w)"
proof -
  have "slots ic s m' k w = slots ic s m k w"
  proof (rule slots_cong)
    fix i assume i: "k \<le> i" "i < w"
    have "(of_nat i :: u64) \<noteq> of_nat j" if "j \<in> {r..<k}" for j
      using i that assms(3) by (subst of_nat_eq_u64) auto
    then have "formatKey s (of_nat i) \<notin> (\<lambda>i. formatKey s (of_nat i)) ` {r..<k}"
      by (intro notI, elim imageE, unfold formatKey_inject) blast
    then show "m' (formatKey s (of_nat i)) = m (formatKey s (of_nat i))" by (simp add: assms(4) restrict_map_def)
  qed
  with slots_suffix[of r k w ic s m] assms show ?thesis by simp
qed

section \<open>The methods\<close>

lemma unat_le_iff: "(a :: u64) \<le> b \<longleftrightarrow> unat a \<le> unat b" and unat_less_iff: "(a :: u64) < b \<longleftrightarrow> unat a < unat b"
  by (simp_all add: word_le_nat_alt word_less_nat_alt)

context kv_store
begin

lemma write_item_refines:
  assumes inv: "queue_inv content q" and off: "has_offsets q" and ic: "item_roundtrip ic"
    and w: "write_item kv ic now d q = (None, q')"
  shows "queue_inv content q' \<and> queue_items ic content q' = queue_items ic content q @ [(unat (bq_writeOffset q), d)]
    \<and> bq_cfg q' = bq_cfg q \<and> bq_readOffset q' = bq_readOffset q \<and> bq_writeOffset q' = bq_writeOffset q + 1"
proof -
  let ?s = "qf_Stream (bq_cfg q)" and ?w = "bq_writeOffset q" and ?r = "bq_readOffset q"
  obtain v db where v: "ic_marshal ic d now = Some v" and set: "kv_set kv (formatKey ?s ?w) v (bq_db q) = Some db"
    and q': "q' = q\<lparr>bq_writeOffset := ?w + 1, bq_db := db, bq_enqueuedCount := bq_enqueuedCount q + 1\<rparr>"
    using w by (auto simp: write_item_def Let_def split: option.splits)
  have c: "content db = (content (bq_db q))(formatKey ?s ?w \<mapsto> v)" by (rule content_set[OF set])
  have uw: "unat (?w + 1) = Suc (unat ?w)" using off by (intro unat_Suc) (simp add: has_offsets_def)
  have rw: "unat ?r \<le> unat ?w" using inv by (simp add: queue_inv_def unat_le_iff)
  have same: "slots ic ?s (content db) (unat ?r) (unat ?w) = slots ic ?s (content (bq_db q)) (unat ?r) (unat ?w)"
  proof (rule slots_cong)
    fix i assume "unat ?r \<le> i" "i < unat ?w"
    then have "(of_nat i :: u64) \<noteq> ?w"
      by (metis less_irrefl less_trans unat_less_2_64 unat_of_nat_u64)
    then show "content db (formatKey ?s (of_nat i)) = content (bq_db q) (formatKey ?s (of_nat i))" by (simp add: c)
  qed
  have "slot ic ?s (content db) (unat ?w) = [(unat ?w, d)]"
    using ic v by (simp add: slot_def c decode_item_def item_roundtrip_def)
  then have items: "queue_items ic content q' = queue_items ic content q @ [(unat ?w, d)]"
    using slots_snoc[OF rw, of ic ?s "content db"] same by (simp add: queue_items_def q' uw)
  have "queue_inv content q'"
    unfolding queue_inv_def
  proof (intro conjI ballI impI)
    show "CHR '':'' \<notin> set (qf_Stream (bq_cfg q'))" using inv by (simp add: q' queue_inv_def)
    show "bq_readOffset q' \<le> bq_writeOffset q'" using rw by (simp add: q' unat_le_iff uw)
    fix k assume "k \<in> dom (content (bq_db q'))" "has_prefix k (qf_Stream (bq_cfg q') @ '':'')"
    then have "k = formatKey ?s ?w \<or> k \<in> dom (content (bq_db q)) \<and> has_prefix k (?s @ '':'')" by (auto simp: q' c)
    then show "\<exists>i. k = formatKey (qf_Stream (bq_cfg q')) i \<and> bq_readOffset q' \<le> i \<and> i < bq_writeOffset q'"
    proof
      assume "k = formatKey ?s ?w"
      then show ?thesis using rw by (intro exI[of _ ?w]) (simp add: q' unat_le_iff unat_less_iff uw)
    next
      assume "k \<in> dom (content (bq_db q)) \<and> has_prefix k (?s @ '':'')"
      with inv obtain i where "k = formatKey ?s i" "?r \<le> i" "i < ?w" unfolding queue_inv_def by blast
      then show ?thesis by (intro exI[of _ i]) (simp add: q' unat_less_iff uw)
    qed
  qed
  with items show ?thesis by (simp add: q')
qed

text \<open>Deleting the keys of \<open>[readOffset, k)\<close> and moving the read pointer to \<open>k\<close>.\<close>

lemma advance_refines:
  assumes inv: "queue_inv content q" and k: "bq_readOffset q < k" "k \<le> bq_writeOffset q"
    and m: "content db = content (bq_db q) |` (- ((\<lambda>i. formatKey (qf_Stream (bq_cfg q)) (of_nat i)) ` {unat (bq_readOffset q)..<unat k}))"
    and q': "bq_cfg q' = bq_cfg q" "bq_db q' = db" "bq_readOffset q' = k" "bq_writeOffset q' = bq_writeOffset q"
  shows "queue_inv content q' \<and> queue_items ic content q' = filter (\<lambda>(i, _). unat k \<le> i) (queue_items ic content q)"
proof
  let ?s = "qf_Stream (bq_cfg q)"
  have ku: "unat (bq_readOffset q) < unat k" "unat k \<le> unat (bq_writeOffset q)" "unat (bq_writeOffset q) \<le> 2 ^ 64"
    using k unat_less_2_64[of "bq_writeOffset q"] by (simp_all add: unat_less_iff unat_le_iff)
  show "queue_items ic content q' = filter (\<lambda>(i, _). unat k \<le> i) (queue_items ic content q)"
    using slots_drop_key[OF ku m, of ic] by (simp add: queue_items_def q')
  show "queue_inv content q'"
    unfolding queue_inv_def q'
  proof (intro conjI ballI impI)
    show "CHR '':'' \<notin> set ?s" using inv by (simp add: queue_inv_def)
    show "k \<le> bq_writeOffset q" by (rule k(2))
    fix x assume x: "x \<in> dom (content db)" "has_prefix x (?s @ '':'')"
    then have "x \<in> dom (content (bq_db q))" by (auto simp: m)
    with inv x(2) obtain i where i: "x = formatKey ?s i" "bq_readOffset q \<le> i" "i < bq_writeOffset q"
      unfolding queue_inv_def by blast
    have "x \<notin> (\<lambda>i. formatKey ?s (of_nat i)) ` {unat (bq_readOffset q)..<unat k}" using x(1) by (auto simp: m)
    then have "unat i \<notin> {unat (bq_readOffset q)..<unat k}" using i(1) by (metis imageI of_nat_unat_u64)
    then have "k \<le> i" using i(2) by (simp add: unat_le_iff)
    with i show "\<exists>i. x = formatKey ?s i \<and> k \<le> i \<and> i < bq_writeOffset q" by blast
  qed
qed

lemma dropOldest_refines:
  assumes inv: "queue_inv content q" and d: "dropOldest kv q = (None, q')"
  shows "queue_inv content q' \<and> queue_items ic content q' = filter (\<lambda>(i, _). unat (bq_readOffset q) < i) (queue_items ic content q)
    \<and> bq_cfg q' = bq_cfg q \<and> bq_writeOffset q' = bq_writeOffset q"
proof (cases "bq_writeOffset q \<le> bq_readOffset q")
  case True
  then have "queue_items ic content q = []" by (simp add: queue_items_def slots_def unat_le_iff)
  with True inv d show ?thesis by (simp add: dropOldest_def)
next
  case False
  then have lt: "unat (bq_readOffset q) < unat (bq_writeOffset q)" by (simp add: unat_le_iff)
  then have u: "unat (bq_readOffset q + 1) = Suc (unat (bq_readOffset q))"
    using unat_less_2_64[of "bq_writeOffset q"] by (intro unat_Suc) linarith
  obtain db where del: "kv_delete kv [formatKey (qf_Stream (bq_cfg q)) (bq_readOffset q)] (bq_db q) = Some db"
    and q': "q' = q\<lparr>bq_db := db, bq_readOffset := bq_readOffset q + 1, bq_droppedCount := bq_droppedCount q + 1\<rparr>"
    using d False by (auto simp: dropOldest_def split: option.splits)
  have "content db = content (bq_db q) |` (- ((\<lambda>i. formatKey (qf_Stream (bq_cfg q)) (of_nat i)) ` {unat (bq_readOffset q)..<unat (bq_readOffset q + 1)}))"
    using content_delete[OF del] by (simp add: u)
  from advance_refines[OF inv _ _ this, of q' ic] lt u show ?thesis
    by (simp add: q' unat_less_iff unat_le_iff Suc_le_eq)
qed

lemma Commit_refines:
  assumes inv: "queue_inv content q" and o': "offset < bq_writeOffset q" and c: "badger_Commit kv offset q = (None, q')"
  shows "queue_inv content q' \<and> queue_items ic content q' = filter (\<lambda>(i, _). unat offset < i) (queue_items ic content q)
    \<and> bq_cfg q' = bq_cfg q \<and> bq_committedCount q' = bq_committedCount q + (offset - bq_readOffset q + 1)"
proof -
  let ?keys = "map (\<lambda>i. formatKey (qf_Stream (bq_cfg q)) (of_nat i)) [unat (bq_readOffset q) ..< Suc (unat offset)]"
  obtain db where del: "kv_delete kv ?keys (bq_db q) = Some db"
    and q': "q' = q\<lparr>bq_db := db, bq_readOffset := offset + 1, bq_committedCount := bq_committedCount q + (offset - bq_readOffset q + 1)\<rparr>"
    and ge: "bq_readOffset q \<le> offset"
    using c by (auto simp: badger_Commit_def Let_def split: option.splits if_splits)
  have u: "unat (offset + 1) = Suc (unat offset)"
    using o' unat_less_2_64[of "bq_writeOffset q"] by (intro unat_Suc) (simp add: unat_less_iff)
  have "set ?keys = (\<lambda>i. formatKey (qf_Stream (bq_cfg q)) (of_nat i)) ` {unat (bq_readOffset q)..<unat (offset + 1)}"
    by (simp only: set_map set_upt u)
  with content_delete[OF del] have "content db = content (bq_db q) |` (- ((\<lambda>i. formatKey (qf_Stream (bq_cfg q)) (of_nat i)) ` {unat (bq_readOffset q)..<unat (offset + 1)}))"
    by simp
  from advance_refines[OF inv _ _ this, of q' ic] ge o' u show ?thesis
    by (simp add: q' unat_less_iff unat_le_iff Suc_le_eq)
qed

text \<open>\<open>Enqueue\<close>: with room the item goes to the end; without room it is refused, or the oldest slot makes
  way first.\<close>

lemma Enqueue_refines:
  assumes inv: "queue_inv content q" and off: "has_offsets q" and ic: "item_roundtrip ic"
    and e: "badger_Enqueue kv ic now d q = (None, q')"
  shows "queue_inv content q' \<and> \<not> bq_closed q \<and> queue_items ic content q' =
      (if checkCapacity q = None then queue_items ic content q
       else filter (\<lambda>(i, _). unat (bq_readOffset q) < i) (queue_items ic content q)) @ [(unat (bq_writeOffset q), d)]
    \<and> (checkCapacity q \<noteq> None \<longrightarrow> qf_DropPolicy (bq_cfg q) \<noteq> RejectNew)"
proof (cases "checkCapacity q")
  case None
  then have w: "write_item kv ic now d q = (None, q')" and "\<not> bq_closed q"
    using e by (auto simp: badger_Enqueue_def split: if_splits)
  with write_item_refines[OF inv off ic w] None show ?thesis by simp
next
  case (Some err)
  then obtain q1 where d: "dropOldest kv q = (None, q1)" and w: "write_item kv ic now d q1 = (None, q')"
    and "\<not> bq_closed q" "qf_DropPolicy (bq_cfg q) \<noteq> RejectNew"
    using e by (auto simp: badger_Enqueue_def split: if_splits prod.splits option.splits)
  moreover have "has_offsets q1" using dropOldest_refines[OF inv d] off by (simp add: has_offsets_def)
  ultimately show ?thesis
    using dropOldest_refines[OF inv d, of ic] write_item_refines[OF _ _ ic w] Some by simp
qed

text \<open>\<open>DequeueBatch\<close> returns the first items and leaves the queue as it is.\<close>

lemma dequeue_from_eq:
  assumes "w \<le> 2 ^ 64" and "dequeue_from kv ic now s d r w left = Inr items"
  shows "map (\<lambda>i. (unat (qi_Offset i), qi_Data i)) items = take left (slots ic s (content d) r w)"
  using assms(2)
proof (induction "w - r" arbitrary: r left items)
  case 0
  then show ?case by (simp add: dequeue_from.simps slots_def split: if_splits)
next
  case (Suc n)
  then have rw: "r < w" and n: "n = w - Suc r" by simp_all
  let ?key = "formatKey s (of_nat r)"
  have sl: "slots ic s (content d) r w = slot ic s (content d) r @ slots ic s (content d) (Suc r) w"
    by (rule slots_Cons[OF rw])
  show ?case
  proof (cases "left")
    case 0
    then show ?thesis using Suc.prems by (simp add: dequeue_from.simps)
  next
    case left: (Suc l)
    show ?thesis
    proof (cases "?key \<in> dom (content d)")
      case False
      then have "slot ic s (content d) r = []" by (auto simp: slot_def split: option.splits)
      moreover have "dequeue_from kv ic now s d (Suc r) w left = Inr items"
        using Suc.prems rw left seek_hit[of d ?key] False
        by (subst (asm) dequeue_from.simps) (auto simp: Let_def split: list.splits if_splits)
      ultimately show ?thesis using Suc.hyps(1)[OF n] sl by simp
    next
      case True
      then obtain ks where ks: "kv_keys kv d ?key = ?key # ks" using seek_hit by blast
      with Suc.prems rw left obtain v its where v: "kv_value kv d ?key = Some v"
        and its: "dequeue_from kv ic now s d (Suc r) w l = Inr its"
        and items: "items = \<lparr>qi_Offset = of_nat r, qi_Data = fst (case ic_parse ic v of None \<Rightarrow> (v, now) | Some p \<Rightarrow> p),
            qi_EnqueuedAt = snd (case ic_parse ic v of None \<Rightarrow> (v, now) | Some p \<Rightarrow> p)\<rparr> # its"
        by (subst (asm) (2) dequeue_from.simps) (auto simp: Let_def split: option.splits sum.splits)
      have "slot ic s (content d) r = [(r, decode_item ic v)]"
        using value_content[OF v] by (simp add: slot_def)
      moreover have "unat (of_nat r :: u64) = r" using rw assms(1) by (intro unat_of_nat_u64) linarith
      moreover have "decode_item ic v = fst (case ic_parse ic v of None \<Rightarrow> (v, now) | Some p \<Rightarrow> p)"
        by (auto simp: decode_item_def split: option.splits)
      ultimately show ?thesis using Suc.hyps(1)[OF n its] sl by (simp add: items left)
    qed
  qed
qed

lemma DequeueBatch_refines:
  assumes "badger_DequeueBatch kv ic now n q = (Inr items, q')"
  shows "map (\<lambda>i. (unat (qi_Offset i), qi_Data i)) items = take (nat n) (queue_items ic content q)
    \<and> queue_items ic content q' = queue_items ic content q \<and> (queue_inv content q' \<longleftrightarrow> queue_inv content q)"
proof (cases "n \<le> 0")
  case True
  with assms show ?thesis by (simp add: badger_DequeueBatch_def)
next
  case False
  then have d: "dequeue_from kv ic now (qf_Stream (bq_cfg q)) (bq_db q) (unat (bq_readOffset q)) (unat (bq_writeOffset q)) (nat n) = Inr items"
    and q': "q' = q\<lparr>bq_dequeuedCount := bq_dequeuedCount q + of_nat (length items)\<rparr>"
    using assms by (auto simp: badger_DequeueBatch_def split: sum.splits if_splits)
  have "unat (bq_writeOffset q) \<le> 2 ^ 64" using unat_less_2_64[of "bq_writeOffset q"] by simp
  from dequeue_from_eq[OF this d] show ?thesis by (simp add: q' queue_items_def queue_inv_def)
qed

section \<open>Recovery\<close>

lemma recover_scan_bounds:
  assumes "\<forall>k\<in>set keys. \<exists>i. parseOffsetFromKey k = Some i"
    and "recover_scan keys (lo, hi, n) = (lo', hi', n')"
  shows "n' = n + length keys \<and> lo' \<le> lo \<and> hi \<le> hi'
    \<and> (\<forall>k\<in>set keys. \<forall>i. parseOffsetFromKey k = Some i \<longrightarrow> lo' \<le> i \<and> i \<le> hi')
    \<and> (lo' = lo \<or> (\<exists>k\<in>set keys. parseOffsetFromKey k = Some lo'))
    \<and> (hi' = hi \<or> (\<exists>k\<in>set keys. parseOffsetFromKey k = Some hi'))"
  using assms
proof (induction keys "(lo, hi, n)" arbitrary: lo hi n rule: recover_scan.induct)
  case (2 key keys lo hi n)
  then obtain i where i: "parseOffsetFromKey key = Some i" by auto
  let ?lo = "if i < lo then i else lo" and ?hi = "if hi < i then i else hi"
  have "recover_scan keys (?lo, ?hi, Suc n) = (lo', hi', n')" using "2.prems"(2) i by simp
  from "2.hyps"(2)[OF i _ this] "2.prems"(1) i
  have ih: "n' = Suc n + length keys" "lo' \<le> ?lo" "?hi \<le> hi'"
    "\<forall>k\<in>set keys. \<forall>i. parseOffsetFromKey k = Some i \<longrightarrow> lo' \<le> i \<and> i \<le> hi'"
    "lo' = ?lo \<or> (\<exists>k\<in>set keys. parseOffsetFromKey k = Some lo')"
    "hi' = ?hi \<or> (\<exists>k\<in>set keys. parseOffsetFromKey k = Some hi')" by auto
  from ih(2,3) have "lo' \<le> i" "i \<le> hi'" "lo' \<le> lo" "hi \<le> hi'" by (auto split: if_splits)
  with ih i show ?case by (auto split: if_splits)
qed simp

text \<open>A restart of the queue on its own database finds the same items at the same offsets.\<close>

lemma recover_refines:
  assumes inv: "queue_inv content q"
    and q0: "bq_cfg q0 = bq_cfg q" "bq_db q0 = bq_db q"
  shows "queue_inv content (recover kv q0) \<and> queue_items ic content (recover kv q0) = queue_items ic content q"
proof -
  let ?s = "qf_Stream (bq_cfg q)" let ?p = "?s @ '':''" let ?m = "content (bq_db q)"
  let ?r = "bq_readOffset q" and ?w = "bq_writeOffset q"
  define keys where "keys = takeWhile (\<lambda>k. has_prefix k ?p) (kv_keys kv (bq_db q) ?p)"
  have s: "CHR '':'' \<notin> set ?s" using inv by (simp add: queue_inv_def)
  have "keys = filter (\<lambda>k. has_prefix k ?p) (kv_keys kv (bq_db q) ?p)"
    unfolding keys_def by (rule takeWhile_prefix[OF keys_sorted]) (simp add: keys_set)
  moreover have "?p \<le> k" if "has_prefix k ?p" for k using that prefix_le[of ?p] by (auto simp: has_prefix_iff)
  ultimately have keys: "set keys = {k \<in> dom ?m. has_prefix k ?p}" by (auto simp: keys_set)
  have form: "\<exists>i. k = formatKey ?s i \<and> ?r \<le> i \<and> i < ?w" if "k \<in> set keys" for k
    using that inv unfolding keys queue_inv_def by blast
  have mem: "formatKey ?s i \<in> set keys \<longleftrightarrow> formatKey ?s i \<in> dom ?m" for i by (simp add: keys)
  have parse: "parseOffsetFromKey (formatKey ?s i) = Some i" for i by (rule parse_formatKey[OF s])
  obtain lo hi n where scan: "recover_scan keys (- 1, 0, 0) = (lo, hi, n)" by (metis prod_cases3)
  have b: "n = length keys" "\<forall>k\<in>set keys. \<forall>i. parseOffsetFromKey k = Some i \<longrightarrow> lo \<le> i \<and> i \<le> hi"
    "lo = - 1 \<or> (\<exists>k\<in>set keys. parseOffsetFromKey k = Some lo)" "hi = 0 \<or> (\<exists>k\<in>set keys. parseOffsetFromKey k = Some hi)"
    using recover_scan_bounds[OF _ scan] form parse by fastforce+
  have rec: "recover kv q0 = (if keys = [] then q0\<lparr>bq_readOffset := 0, bq_writeOffset := 0\<rparr>
      else q0\<lparr>bq_readOffset := lo, bq_writeOffset := hi + 1\<rparr>)"
    using scan b(1) by (simp add: recover_def q0 keys_def[symmetric])
  show ?thesis
  proof (cases "keys = []")
    case True
    have "?m (formatKey ?s i) = None" for i using mem[of i] True by auto
    then have "queue_items ic content q = []" by (auto simp: queue_items_def intro: slots_empty)
    moreover have "{k \<in> dom ?m. has_prefix k ?p} = {}" using keys True by simp
    ultimately show ?thesis using s True by (auto simp: rec queue_inv_def queue_items_def slots_def q0)
  next
    case False
    then obtain k where "k \<in> set keys" by (cases keys) auto
    with form obtain i where i: "formatKey ?s i \<in> set keys" "?r \<le> i" "i < ?w" by blast
    have off_key: "?r \<le> j \<and> j < ?w \<and> lo \<le> j \<and> j \<le> hi" if "formatKey ?s j \<in> set keys" for j
      using form[OF that] b(2) that parse[of j] by auto
    from off_key[OF i(1)] have lo_hi: "lo \<le> i" "i \<le> hi" by simp_all
    have key_of: "formatKey ?s j \<in> set keys" if "\<exists>k\<in>set keys. parseOffsetFromKey k = Some j" for j
      using that form parse by fastforce
    have "lo \<noteq> - 1" using lo_hi(1) i(3) by (metis leD le_less_trans word_n1_ge)
    with b(3) have lo: "formatKey ?s lo \<in> set keys" by (blast intro: key_of)
    have hi: "formatKey ?s hi \<in> set keys"
    proof (cases "hi = 0")
      case True
      then have "i = hi" using lo_hi(2) by simp
      with i(1) show ?thesis by simp
    next
      case False
      with b(4) show ?thesis by (blast intro: key_of)
    qed
    have u: "unat (hi + 1) = Suc (unat hi)"
      using off_key[OF hi] unat_less_2_64[of ?w] by (intro unat_Suc) (simp add: unat_less_iff)
    have le: "unat ?r \<le> unat lo" "unat lo \<le> unat (hi + 1)" "unat (hi + 1) \<le> unat ?w"
      using off_key[OF lo] off_key[OF hi] lo_hi u by (simp_all add: unat_le_iff unat_less_iff)
    have gap: "?m (formatKey ?s (of_nat j)) = None" if "j < 2 ^ 64" "j < unat lo \<or> unat hi < j" for j
    proof (rule ccontr)
      assume "?m (formatKey ?s (of_nat j)) \<noteq> None"
      then have "formatKey ?s (of_nat j) \<in> set keys" by (auto simp: mem)
      from off_key[OF this] that show False by (simp add: unat_le_iff unat_of_nat_u64)
    qed
    have "slots ic ?s ?m (unat ?r) (unat lo) = []"
      using unat_less_2_64[of lo] by (intro slots_empty gap) auto
    moreover have "slots ic ?s ?m (unat (hi + 1)) (unat ?w) = []"
      using unat_less_2_64[of ?w] by (intro slots_empty gap) (auto simp: u)
    ultimately have "queue_items ic content q = slots ic ?s ?m (unat lo) (unat (hi + 1))"
      using slots_append[OF le(1), of "unat ?w" ic ?s ?m] slots_append[OF le(2,3), of ic ?s ?m] le
      by (simp add: queue_items_def)
    then have "queue_items ic content (recover kv q0) = queue_items ic content q"
      using False by (simp add: rec queue_items_def q0)
    moreover have "queue_inv content (recover kv q0)"
      unfolding queue_inv_def
    proof (intro conjI ballI impI)
      show "CHR '':'' \<notin> set (qf_Stream (bq_cfg (recover kv q0)))" using s False by (simp add: rec q0)
      show "bq_readOffset (recover kv q0) \<le> bq_writeOffset (recover kv q0)" using le(2) False by (simp add: rec unat_le_iff)
      fix x assume "x \<in> dom (content (bq_db (recover kv q0)))" "has_prefix x (qf_Stream (bq_cfg (recover kv q0)) @ '':'')"
      then have "x \<in> set keys" using False by (simp add: rec q0 keys)
      with form obtain j where j: "x = formatKey ?s j" by blast
      with \<open>x \<in> set keys\<close> off_key[of j] have "lo \<le> j" "j \<le> hi" by auto
      with j False u show "\<exists>i. x = formatKey (qf_Stream (bq_cfg (recover kv q0))) i
          \<and> bq_readOffset (recover kv q0) \<le> i \<and> i < bq_writeOffset (recover kv q0)"
        by (intro exI[of _ j]) (simp add: rec q0 unat_le_iff unat_less_iff)
    qed
    ultimately show ?thesis by blast
  qed
qed

lemma runGC_refines:
  "queue_items ic content (runGC kv flags q) = queue_items ic content q \<and> (queue_inv content (runGC kv flags q) \<longleftrightarrow> queue_inv content q)"
  by (induction flags arbitrary: q) (simp_all add: queue_items_def queue_inv_def content_gc)

end

end
