(* ===== verification/Queue_Concurrency.thy ===== *)
theory Queue_Concurrency
  imports Queue_Refinement "HOL-Library.Multiset"
begin

text \<open>
  The durable queue under concurrency: any number of \<open>Enqueue\<close> calls in parallel with one consumer that
  dequeues and commits. Nothing in \<open>badger_queue.go\<close> takes the mutex \<open>mu\<close> its comment says protects the
  capacity checks, so the calls interleave between their atomic operations: the check of \<open>closed\<close> and of the
  capacity (taken as one step), the load of the offsets, the delete and the counter updates of \<open>dropOldest\<close>,
  the reservation of an offset, the write, and the load, the delete and the store of \<open>Commit\<close>. A batch reads one
  snapshot and is one step. The last four fields of a machine are ghosts: what \<open>Enqueue\<close> accepted, which
  offsets it gave up, which offsets a drop or a commit deleted, and what the consumer got.
\<close>

record 'd badger_machine =
  bm_queue :: "'d BadgerQueue"
  bm_full :: "bytes multiset"
  bm_victims :: "(u64 \<times> bytes) multiset"
  bm_dropping :: "bytes multiset"
  bm_checked :: "bytes multiset"
  bm_reserved :: "(u64 \<times> bytes) multiset"
  bm_batch :: "QueueItem list"
  bm_loaded :: "(u64 \<times> u64) option"
  bm_committing :: "(u64 \<times> u64) option"
  bm_accepted :: "(u64 \<times> bytes) list"
  bm_abandoned :: "u64 list"
  bm_removed :: "u64 set"
  bm_delivered :: "QueueItem list"

definition badger_start :: "'d BadgerQueue \<Rightarrow> 'd badger_machine" where
  "badger_start q = \<lparr>bm_queue = q, bm_full = {#}, bm_victims = {#}, bm_dropping = {#}, bm_checked = {#}, bm_reserved = {#}, bm_batch = [], bm_loaded = None,
     bm_committing = None, bm_accepted = [], bm_abandoned = [], bm_removed = {}, bm_delivered = []\<rparr>"

abbreviation key_of :: "'d badger_machine \<Rightarrow> u64 \<Rightarrow> bytes" where
  "key_of m \<equiv> formatKey (qf_Stream (bq_cfg (bm_queue m)))"

abbreviation bm_db :: "'d badger_machine \<Rightarrow> 'd" where
  "bm_db m \<equiv> bq_db (bm_queue m)"

inductive badger_step :: "'d kv \<Rightarrow> item_codec \<Rightarrow> 'd badger_machine \<Rightarrow> 'd badger_machine \<Rightarrow> bool" for kv ic where
  check_room: "\<not> bq_closed (bm_queue m) \<Longrightarrow> checkCapacity (bm_queue m) = None \<Longrightarrow>
     badger_step kv ic m (m\<lparr>bm_checked := add_mset d (bm_checked m)\<rparr>)"
| check_full: "\<not> bq_closed (bm_queue m) \<Longrightarrow> checkCapacity (bm_queue m) \<noteq> None \<Longrightarrow> qf_DropPolicy (bq_cfg (bm_queue m)) \<noteq> RejectNew \<Longrightarrow>
     badger_step kv ic m (m\<lparr>bm_full := add_mset d (bm_full m)\<rparr>)"
| drop_empty: "bm_full m = add_mset d ds \<Longrightarrow> bq_writeOffset (bm_queue m) \<le> bq_readOffset (bm_queue m) \<Longrightarrow>
     badger_step kv ic m (m\<lparr>bm_full := ds, bm_checked := add_mset d (bm_checked m)\<rparr>)"
| drop_load: "bm_full m = add_mset d ds \<Longrightarrow> bq_readOffset (bm_queue m) < bq_writeOffset (bm_queue m) \<Longrightarrow>
     badger_step kv ic m (m\<lparr>bm_full := ds, bm_victims := add_mset (bq_readOffset (bm_queue m), d) (bm_victims m)\<rparr>)"
| drop_delete: "bm_victims m = add_mset (offset, d) vs \<Longrightarrow> kv_delete kv [key_of m offset] (bm_db m) = Some db \<Longrightarrow>
     badger_step kv ic m (m\<lparr>bm_queue := (bm_queue m)\<lparr>bq_db := db\<rparr>, bm_victims := vs, bm_dropping := add_mset d (bm_dropping m),
       bm_removed := insert offset (bm_removed m)\<rparr>)"
| drop_fails: "bm_victims m = add_mset (offset, d) vs \<Longrightarrow> kv_delete kv [key_of m offset] (bm_db m) = None \<Longrightarrow>
     badger_step kv ic m (m\<lparr>bm_victims := vs\<rparr>)"
| drop_count: "bm_dropping m = add_mset d ds \<Longrightarrow>
     badger_step kv ic m (m\<lparr>bm_queue := (bm_queue m)\<lparr>bq_readOffset := bq_readOffset (bm_queue m) + 1,
         bq_droppedCount := bq_droppedCount (bm_queue m) + 1\<rparr>,
       bm_dropping := ds, bm_checked := add_mset d (bm_checked m)\<rparr>)"
| reserve: "bm_checked m = add_mset d ds \<Longrightarrow>
     badger_step kv ic m (m\<lparr>bm_queue := (bm_queue m)\<lparr>bq_writeOffset := bq_writeOffset (bm_queue m) + 1\<rparr>,
       bm_checked := ds, bm_reserved := add_mset (bq_writeOffset (bm_queue m), d) (bm_reserved m)\<rparr>)"
| marshal_fails: "bm_reserved m = add_mset (offset, d) rs \<Longrightarrow> ic_marshal ic d now = None \<Longrightarrow>
     badger_step kv ic m (m\<lparr>bm_reserved := rs, bm_abandoned := bm_abandoned m @ [offset]\<rparr>)"
| write_fails: "bm_reserved m = add_mset (offset, d) rs \<Longrightarrow> ic_marshal ic d now = Some v \<Longrightarrow>
     kv_set kv (key_of m offset) v (bm_db m) = None \<Longrightarrow>
     badger_step kv ic m (m\<lparr>bm_queue := (bm_queue m)\<lparr>bq_writeOffset := bq_writeOffset (bm_queue m) + (- 1)\<rparr>,
       bm_reserved := rs, bm_abandoned := bm_abandoned m @ [offset]\<rparr>)"
| write_ok: "bm_reserved m = add_mset (offset, d) rs \<Longrightarrow> ic_marshal ic d now = Some v \<Longrightarrow>
     kv_set kv (key_of m offset) v (bm_db m) = Some db \<Longrightarrow>
     badger_step kv ic m (m\<lparr>bm_queue := (bm_queue m)\<lparr>bq_db := db, bq_enqueuedCount := bq_enqueuedCount (bm_queue m) + 1\<rparr>,
       bm_reserved := rs, bm_accepted := bm_accepted m @ [(offset, d)]\<rparr>)"
| dequeue: "bm_loaded m = None \<Longrightarrow> bm_committing m = None \<Longrightarrow> badger_DequeueBatch kv ic now n (bm_queue m) = (Inr items, q) \<Longrightarrow>
     badger_step kv ic m (m\<lparr>bm_queue := q, bm_batch := items, bm_delivered := bm_delivered m @ items\<rparr>)"
| commit_load: "bm_loaded m = None \<Longrightarrow> bm_committing m = None \<Longrightarrow> bm_batch m \<noteq> [] \<Longrightarrow> offset = qi_Offset (last (bm_batch m)) \<Longrightarrow>
     bq_readOffset (bm_queue m) \<le> offset \<Longrightarrow> offset \<noteq> - 1 \<Longrightarrow>
     badger_step kv ic m (m\<lparr>bm_batch := [], bm_loaded := Some (bq_readOffset (bm_queue m), offset)\<rparr>)"
| commit_delete: "bm_loaded m = Some (readOffset, offset) \<Longrightarrow>
     kv_delete kv (map (\<lambda>i. key_of m (of_nat i)) [unat readOffset ..< Suc (unat offset)]) (bm_db m) = Some db \<Longrightarrow>
     badger_step kv ic m (m\<lparr>bm_queue := (bm_queue m)\<lparr>bq_db := db\<rparr>, bm_loaded := None,
       bm_committing := Some (readOffset, offset), bm_removed := bm_removed m \<union> {readOffset..offset}\<rparr>)"
| commit_fails: "bm_loaded m = Some (readOffset, offset) \<Longrightarrow>
     kv_delete kv (map (\<lambda>i. key_of m (of_nat i)) [unat readOffset ..< Suc (unat offset)]) (bm_db m) = None \<Longrightarrow>
     badger_step kv ic m (m\<lparr>bm_loaded := None\<rparr>)"
| commit_store: "bm_committing m = Some (readOffset, offset) \<Longrightarrow>
     badger_step kv ic m (m\<lparr>bm_queue := (bm_queue m)\<lparr>bq_readOffset := offset + 1,
         bq_committedCount := bq_committedCount (bm_queue m) + (offset - readOffset + 1)\<rparr>,
       bm_committing := None\<rparr>)"

inductive_cases badger_stepE: "badger_step kv ic m m'"

text \<open>A call that is not interrupted is one of the paths: the machine refines the sequential \<open>Enqueue\<close>.\<close>

lemma write_path:
  assumes c: "bm_checked m = add_mset d C" and w: "write_item kv ic now d (bm_queue m) = (None, q')"
  shows "(badger_step kv ic)\<^sup>*\<^sup>* m
    (m\<lparr>bm_queue := q', bm_checked := C, bm_accepted := bm_accepted m @ [(bq_writeOffset (bm_queue m), d)]\<rparr>)"
proof -
  let ?o = "bq_writeOffset (bm_queue m)"
  obtain v db where v: "ic_marshal ic d now = Some v" "kv_set kv (key_of m ?o) v (bm_db m) = Some db"
    and q': "q' = (bm_queue m)\<lparr>bq_writeOffset := ?o + 1, bq_db := db, bq_enqueuedCount := bq_enqueuedCount (bm_queue m) + 1\<rparr>"
    using w by (auto simp: write_item_def Let_def split: option.splits)
  let ?m1 = "m\<lparr>bm_queue := (bm_queue m)\<lparr>bq_writeOffset := ?o + 1\<rparr>, bm_checked := C, bm_reserved := add_mset (?o, d) (bm_reserved m)\<rparr>"
  have "badger_step kv ic m ?m1" by (rule badger_step.reserve[OF c])
  moreover have "badger_step kv ic ?m1 (m\<lparr>bm_queue := q', bm_checked := C, bm_accepted := bm_accepted m @ [(?o, d)]\<rparr>)"
    using badger_step.write_ok[of ?m1 ?o d "bm_reserved m" ic now v kv db] v by (cases m) (simp add: q')
  ultimately show ?thesis by (meson rtranclp.rtrancl_into_rtrancl rtranclp.rtrancl_refl)
qed

lemma drop_path:
  assumes "\<not> bq_closed (bm_queue m)" "checkCapacity (bm_queue m) \<noteq> None" "qf_DropPolicy (bq_cfg (bm_queue m)) \<noteq> RejectNew"
    and d: "dropOldest kv (bm_queue m) = (None, q1)"
  shows "\<exists>R. (badger_step kv ic)\<^sup>*\<^sup>* m (m\<lparr>bm_queue := q1, bm_checked := add_mset x (bm_checked m), bm_removed := R\<rparr>)"
proof -
  let ?r = "bq_readOffset (bm_queue m)" and ?f = "m\<lparr>bm_full := add_mset x (bm_full m)\<rparr>"
  have f: "badger_step kv ic m ?f" by (rule badger_step.check_full[OF assms(1-3)])
  show ?thesis
  proof (cases "bq_writeOffset (bm_queue m) \<le> ?r")
    case True
    then have "q1 = bm_queue m" using d by (simp add: dropOldest_def)
    moreover have "badger_step kv ic ?f (m\<lparr>bm_checked := add_mset x (bm_checked m)\<rparr>)"
      using badger_step.drop_empty[of ?f x "bm_full m"] True by (cases m) simp
    ultimately show ?thesis using f by (intro exI[of _ "bm_removed m"]) (auto intro: rtranclp.rtrancl_into_rtrancl)
  next
    case False
    then obtain db where db: "kv_delete kv [key_of m ?r] (bm_db m) = Some db"
      and q1: "q1 = (bm_queue m)\<lparr>bq_db := db, bq_readOffset := ?r + 1, bq_droppedCount := bq_droppedCount (bm_queue m) + 1\<rparr>"
      using d by (auto simp: dropOldest_def split: option.splits)
    let ?v = "m\<lparr>bm_victims := add_mset (?r, x) (bm_victims m)\<rparr>"
    let ?d = "m\<lparr>bm_queue := (bm_queue m)\<lparr>bq_db := db\<rparr>, bm_dropping := add_mset x (bm_dropping m), bm_removed := insert ?r (bm_removed m)\<rparr>"
    have "badger_step kv ic ?f ?v" using badger_step.drop_load[of ?f x "bm_full m"] False by (cases m) simp
    moreover have "badger_step kv ic ?v ?d" using badger_step.drop_delete[of ?v ?r x "bm_victims m" kv db] db by (cases m) simp
    moreover have "badger_step kv ic ?d (m\<lparr>bm_queue := q1, bm_checked := add_mset x (bm_checked m), bm_removed := insert ?r (bm_removed m)\<rparr>)"
      using badger_step.drop_count[of ?d x "bm_dropping m", of kv ic] by (cases m) (simp add: q1)
    ultimately show ?thesis using f by (meson rtranclp.rtrancl_into_rtrancl rtranclp.rtrancl_refl)
  qed
qed

lemma Enqueue_path:
  assumes "badger_Enqueue kv ic now d (bm_queue m) = (None, q')"
  shows "\<exists>m'. (badger_step kv ic)\<^sup>*\<^sup>* m m' \<and> bm_queue m' = q' \<and> bm_accepted m' = bm_accepted m @ [(bq_writeOffset (bm_queue m), d)]"
proof (cases "checkCapacity (bm_queue m)")
  case None
  then have w: "write_item kv ic now d (bm_queue m) = (None, q')" and "\<not> bq_closed (bm_queue m)"
    using assms by (auto simp: badger_Enqueue_def split: if_splits)
  let ?m = "m\<lparr>bm_checked := add_mset d (bm_checked m)\<rparr>"
  let ?n = "?m\<lparr>bm_queue := q', bm_checked := bm_checked m, bm_accepted := bm_accepted ?m @ [(bq_writeOffset (bm_queue ?m), d)]\<rparr>"
  have "badger_step kv ic m ?m" by (rule badger_step.check_room) fact+
  moreover have "(badger_step kv ic)\<^sup>*\<^sup>* ?m ?n" by (rule write_path[where now = now]) (simp_all add: w)
  ultimately have "(badger_step kv ic)\<^sup>*\<^sup>* m ?n" by (rule converse_rtranclp_into_rtranclp)
  then show ?thesis by (intro exI[of _ ?n] conjI) simp_all
next
  case (Some err)
  then obtain q1 where d1: "dropOldest kv (bm_queue m) = (None, q1)" and w: "write_item kv ic now d q1 = (None, q')"
    and c: "\<not> bq_closed (bm_queue m)" "qf_DropPolicy (bq_cfg (bm_queue m)) \<noteq> RejectNew"
    using assms by (auto simp: badger_Enqueue_def split: if_splits prod.splits option.splits)
  obtain R where p: "(badger_step kv ic)\<^sup>*\<^sup>* m (m\<lparr>bm_queue := q1, bm_checked := add_mset d (bm_checked m), bm_removed := R\<rparr>)"
    using drop_path[OF c(1) _ c(2) d1] Some by blast
  let ?m = "m\<lparr>bm_queue := q1, bm_checked := add_mset d (bm_checked m), bm_removed := R\<rparr>"
  let ?n = "?m\<lparr>bm_queue := q', bm_checked := bm_checked m, bm_accepted := bm_accepted ?m @ [(bq_writeOffset (bm_queue ?m), d)]\<rparr>"
  have "(badger_step kv ic)\<^sup>*\<^sup>* ?m ?n" by (rule write_path[where now = now]) (simp_all add: w)
  with p have "(badger_step kv ic)\<^sup>*\<^sup>* m ?n" by (rule rtranclp_trans)
  moreover have "bq_writeOffset q1 = bq_writeOffset (bm_queue m)"
    using d1 by (auto simp: dropOldest_def split: if_splits option.splits)
  ultimately show ?thesis by (intro exI[of _ ?n] conjI) simp_all
qed

text \<open>How many offsets were handed out, and all of them with their owners.\<close>

definition bm_offsets :: "'d badger_machine \<Rightarrow> u64 multiset" where
  "bm_offsets m = image_mset fst (bm_reserved m) + mset (map fst (bm_accepted m)) + mset (bm_abandoned m)"

definition bm_count :: "'d badger_machine \<Rightarrow> nat" where
  "bm_count m = size (bm_offsets m)"

definition unique_offsets :: "nat \<Rightarrow> 'd badger_machine \<Rightarrow> bool" where
  "unique_offsets w m \<longleftrightarrow> bq_writeOffset (bm_queue m) = of_nat (w + bm_count m)
     \<and> bm_offsets m = mset (map of_nat [w ..< w + bm_count m])"

text \<open>Without a failing write every offset is handed out once, in order.\<close>

lemma reserve_offsets:
  assumes "unique_offsets w m"
  shows "add_mset (bq_writeOffset (bm_queue m)) (bm_offsets m) = mset (map of_nat [w ..< w + Suc (bm_count m)])"
  using assms by (simp add: unique_offsets_def)

lemma step_unique_offsets:
  assumes "badger_step kv ic m m'" and "\<forall>k v d. kv_set kv k v d \<noteq> None" and "unique_offsets w m"
  shows "unique_offsets w m'"
  using assms(1)
proof (cases rule: badger_step.cases)
  case (reserve d ds)
  have o: "bm_offsets m' = add_mset (bq_writeOffset (bm_queue m)) (bm_offsets m)"
    by (simp add: reserve(1) bm_offsets_def)
  then have c: "bm_count m' = Suc (bm_count m)" by (simp add: bm_count_def)
  from reserve_offsets[OF assms(3)] assms(3) show ?thesis
    unfolding unique_offsets_def o c by (simp add: reserve(1) add.commute)
next
  case (dequeue now n items q)
  then have "bq_writeOffset q = bq_writeOffset (bm_queue m)"
    by (auto simp: badger_DequeueBatch_def split: if_splits sum.splits)
  with dequeue(1) assms(3) show ?thesis by (simp add: unique_offsets_def bm_count_def bm_offsets_def)
qed (use assms(2,3) in \<open>simp_all add: unique_offsets_def bm_count_def bm_offsets_def\<close>)

lemma step_count_mono: "badger_step kv ic m m' \<Longrightarrow> bm_count m \<le> bm_count m'"
  by (erule badger_stepE) (simp_all add: bm_count_def bm_offsets_def)

lemma unique_distinct:
  assumes "unique_offsets w m" and "w + bm_count m \<le> 2 ^ 64"
  shows "count (bm_offsets m) x \<le> 1"
proof -
  have "inj_on (of_nat :: nat \<Rightarrow> u64) {w ..< w + bm_count m}"
    using assms(2) by (intro inj_onI) (metis atLeastLessThan_iff less_le_trans unat_of_nat_u64)
  then have "distinct (map (of_nat :: nat \<Rightarrow> u64) [w ..< w + bm_count m])" by (simp add: distinct_map)
  moreover have "bm_offsets m = mset (map of_nat [w ..< w + bm_count m])" using assms(1) by (simp add: unique_offsets_def)
  ultimately show ?thesis by (metis distinct_count_atmost_1 le_numeral_extra(4) zero_le)
qed

text \<open>Every accepted event is in the database under its own offset unless a drop or a commit deleted that offset;
  and the consumer gets nothing but accepted events under their offsets.\<close>

definition accepted_stored :: "('d \<Rightarrow> bytes \<rightharpoonup> bytes) \<Rightarrow> item_codec \<Rightarrow> 'd badger_machine \<Rightarrow> bool" where
  "accepted_stored content ic m \<longleftrightarrow> (\<forall>(offset, d)\<in>set (bm_accepted m).
     (\<exists>t v. ic_marshal ic d t = Some v \<and> content (bm_db m) (key_of m offset) = Some v) \<or> offset \<in> bm_removed m)"

definition stored_accepted :: "('d \<Rightarrow> bytes \<rightharpoonup> bytes) \<Rightarrow> item_codec \<Rightarrow> 'd badger_machine \<Rightarrow> bool" where
  "stored_accepted content ic m \<longleftrightarrow> (\<forall>offset v. content (bm_db m) (key_of m offset) = Some v \<longrightarrow>
     (\<exists>d t. (offset, d) \<in> set (bm_accepted m) \<and> ic_marshal ic d t = Some v))"

definition delivered_accepted :: "'d badger_machine \<Rightarrow> bool" where
  "delivered_accepted m \<longleftrightarrow> (\<forall>i\<in>set (bm_delivered m). (qi_Offset i, qi_Data i) \<in> set (bm_accepted m))"

lemma DequeueBatch_frame: "badger_DequeueBatch kv ic now n q = (r, q') \<Longrightarrow> bq_db q' = bq_db q \<and> bq_cfg q' = bq_cfg q"
  by (auto simp: badger_DequeueBatch_def split: if_splits sum.splits)

lemma step_cfg: "badger_step kv ic m m' \<Longrightarrow> bq_cfg (bm_queue m') = bq_cfg (bm_queue m)"
  by (erule badger_stepE) (simp_all add: DequeueBatch_frame)

lemma in_commit_range:
  assumes "x \<in> (\<lambda>i. of_nat i :: u64) ` {unat r ..< Suc (unat k)}"
  shows "x \<in> {r..k}"
proof -
  obtain i where i: "x = of_nat i" "unat r \<le> i" "i \<le> unat k" using assms by auto
  then have "unat x = i" using unat_less_2_64[of k] by (simp add: unat_of_nat_u64)
  with i show ?thesis by (simp add: unat_le_iff)
qed

context kv_store
begin

lemma step_accepted_stored:
  assumes "badger_step kv ic m m'" and "\<forall>x. count (bm_offsets m) x \<le> 1" and inv: "accepted_stored content ic m"
  shows "accepted_stored content ic m'"
  using assms(1)
proof (cases rule: badger_step.cases)
  case (drop_delete offset d vs db)
  with inv content_delete[OF drop_delete(3)] show ?thesis
    by (fastforce simp: accepted_stored_def restrict_map_def)
next
  case (write_ok offset d rs now v db)
  have "count (bm_offsets m) offset = count (image_mset fst rs) offset + 1 + count (mset (map fst (bm_accepted m))) offset
      + count (mset (bm_abandoned m)) offset"
    by (simp add: bm_offsets_def write_ok(2))
  moreover have "count (bm_offsets m) offset \<le> 1" using assms(2) by blast
  ultimately have "count (mset (map fst (bm_accepted m))) offset = 0" by linarith
  then have "offset \<notin> set (map fst (bm_accepted m))" by (simp only: count_mset_0_iff not_False_eq_True)
  then have "(x, y) \<in> set (bm_accepted m) \<Longrightarrow> x \<noteq> offset" for x y by force
  with inv content_set[OF write_ok(4)] write_ok(3) show ?thesis
    by (fastforce simp: accepted_stored_def write_ok(1))
next
  case (dequeue now n items q)
  with inv DequeueBatch_frame[OF dequeue(4)] show ?thesis by (simp add: accepted_stored_def)
next
  case (commit_delete readOffset offset db)
  have "key_of m x \<in> key_of m ` (\<lambda>i. of_nat i) ` {unat readOffset ..< Suc (unat offset)} \<Longrightarrow> x \<in> {readOffset..offset}" for x
    using in_commit_range by (metis (no_types, lifting) formatKey_inject imageE)
  with inv content_delete[OF commit_delete(3)] show ?thesis
    unfolding accepted_stored_def commit_delete(1) by (fastforce simp: restrict_map_def image_image)
qed (use inv in \<open>simp_all add: accepted_stored_def\<close>)

lemma step_stored_accepted:
  assumes "badger_step kv ic m m'" and inv: "stored_accepted content ic m"
  shows "stored_accepted content ic m'"
  using assms(1)
proof (cases rule: badger_step.cases)
  case (drop_delete offset d vs db)
  with inv content_delete[OF drop_delete(3)] show ?thesis by (auto simp: stored_accepted_def restrict_map_def split: if_splits)
next
  case (write_ok offset d rs now v db)
  with inv content_set[OF write_ok(4)] show ?thesis by (fastforce simp: stored_accepted_def split: if_splits)
next
  case (dequeue now n items q)
  with inv DequeueBatch_frame[OF dequeue(4)] show ?thesis by (simp add: stored_accepted_def)
next
  case (commit_delete readOffset offset db)
  with inv content_delete[OF commit_delete(3)] show ?thesis
    by (auto simp: stored_accepted_def restrict_map_def split: if_splits)
qed (use inv in \<open>simp_all add: stored_accepted_def\<close>)

lemma step_delivered_accepted:
  assumes "badger_step kv ic m m'" and "item_roundtrip ic" and st: "stored_accepted content ic m" and inv: "delivered_accepted m"
  shows "delivered_accepted m'"
  using assms(1)
proof (cases rule: badger_step.cases)
  case (dequeue now n items q)
  have "(qi_Offset i, qi_Data i) \<in> set (bm_accepted m)" if "i \<in> set items" for i
  proof -
    have "(unat (qi_Offset i), qi_Data i) \<in> set (take (nat n) (queue_items ic content (bm_queue m)))"
      using DequeueBatch_refines[OF dequeue(4)] that by (metis (no_types, lifting) image_eqI list.set_map)
    then have "(unat (qi_Offset i), qi_Data i) \<in> set (queue_items ic content (bm_queue m))" by (rule in_set_takeD)
    then obtain v where v: "content (bm_db m) (key_of m (qi_Offset i)) = Some v" and d: "qi_Data i = decode_item ic v"
      by (auto simp: queue_items_def slots_def slot_def split: option.splits dest: sym)
    from st v obtain d t where "(qi_Offset i, d) \<in> set (bm_accepted m)" "ic_marshal ic d t = Some v"
      unfolding stored_accepted_def by blast
    with assms(2) d show ?thesis by (simp add: decode_item_def item_roundtrip_def)
  qed
  with inv show ?thesis by (auto simp: delivered_accepted_def dequeue(1))
qed (use inv in \<open>auto simp: delivered_accepted_def\<close>)

lemma badger_run_invariant:
  assumes "(badger_step kv ic)\<^sup>*\<^sup>* (badger_start q) m" and sets: "\<forall>k v d. kv_set kv k v d \<noteq> None" and ic: "item_roundtrip ic"
    and fresh: "\<forall>offset. content (bq_db q) (formatKey (qf_Stream (bq_cfg q)) offset) = None"
    and "unat (bq_writeOffset q) + bm_count m \<le> 2 ^ 64"
  shows "accepted_stored content ic m \<and> stored_accepted content ic m \<and> delivered_accepted m
    \<and> unique_offsets (unat (bq_writeOffset q)) m"
  using assms(1,5)
proof (induction rule: rtranclp_induct)
  case base
  then show ?case using fresh
    by (simp add: badger_start_def accepted_stored_def stored_accepted_def delivered_accepted_def unique_offsets_def bm_count_def bm_offsets_def)
next
  case (step m m')
  have c: "unat (bq_writeOffset q) + bm_count m \<le> 2 ^ 64" using step_count_mono[OF step.hyps(2)] step.prems by simp
  note ih = step.IH[OF c]
  have "\<forall>x. count (bm_offsets m) x \<le> 1" using unique_distinct[OF _ c] ih by blast
  with step_accepted_stored[OF step.hyps(2)] step_stored_accepted[OF step.hyps(2)] step_delivered_accepted[OF step.hyps(2) ic]
    step_unique_offsets[OF step.hyps(2) sets] ih
  show ?case by blast
qed

end

lemma unique_accepted:
  assumes "unique_offsets w m" and "w + bm_count m \<le> 2 ^ 64"
  shows "distinct (map fst (bm_accepted m))"
proof -
  have "count (mset (map fst (bm_accepted m))) x \<le> count (bm_offsets m) x" for x by (simp add: bm_offsets_def)
  then have "count (mset (map fst (bm_accepted m))) x \<le> 1" for x
    using unique_distinct[OF assms, of x] le_trans by blast
  then have "count (mset (map fst (bm_accepted m))) x = (if x \<in> set (map fst (bm_accepted m)) then 1 else 0)" for x
    by (metis One_nat_def Suc_le_eq count_mset_0_iff le_antisym neq0_conv)
  then show ?thesis unfolding distinct_count_atmost_1 by blast
qed

section \<open>Accepted events that are lost\<close>

text \<open>A database that refuses some values, as Badger refuses transactions that are too big.\<close>

definition sized_kv :: "(bytes \<Rightarrow> bool) \<Rightarrow> (bytes \<times> bytes) list kv" where
  "sized_kv fits = (mem_kv 0)\<lparr>kv_set := (\<lambda>k v d. if fits v then Some (AList.update k v d) else None)\<rparr>"

interpretation sized: kv_store "sized_kv fits" map_of for fits
proof unfold_locales
  fix k v d d' assume "kv_set (sized_kv fits) k v d = Some d'"
  then show "map_of d' = (map_of d)(k \<mapsto> v)" by (auto simp: sized_kv_def update_conv' fun_eq_iff update_conv split: if_splits)
next
  fix ks d d' assume "kv_delete (sized_kv fits) ks d = Some d'"
  then show "map_of d' = map_of d |` (- set ks)" using mem.content_delete[of 0 ks d d'] by (simp add: sized_kv_def)
next
  fix d "from"
  show "sorted_wrt (<) (kv_keys (sized_kv fits) d from)" using mem.keys_sorted[of 0 d "from"] by (simp add: sized_kv_def)
  show "set (kv_keys (sized_kv fits) d from) = {k \<in> dom (map_of d). from \<le> k}" using mem.keys_set[of 0 d "from"] by (simp add: sized_kv_def)
next
  fix d k v assume "kv_value (sized_kv fits) d k = Some v"
  then show "map_of d k = Some v" using mem.value_content[of 0 d k v] by (simp add: sized_kv_def)
next
  fix d show "map_of (kv_gc (sized_kv fits) d) = map_of d" using mem.content_gc[of 0 d] by (simp add: sized_kv_def)
qed

text \<open>A queue of capacity ten on an empty database, a codec that stores the data as it is, and what it means that
  an accepted event is lost: no call is in flight, the event is neither in the queue nor delivered, and
  nothing was counted as dropped.\<close>

definition plain_items :: item_codec where
  "plain_items = \<lparr>ic_marshal = (\<lambda>d t. if t = 0 then Some d else None), ic_parse = (\<lambda>v. Some (v, 0))\<rparr>"

definition short_value :: "bytes \<Rightarrow> bool" where
  "short_value v \<longleftrightarrow> length v \<le> 1"

definition small_queue :: "(bytes \<times> bytes) list BadgerQueue" where
  "small_queue = \<lparr>bq_cfg = \<lparr>qf_Stream = ''s'', qf_WALPath = ''/q'', qf_MaxBytes = 100000, qf_MaxEvents = 10, qf_DropPolicy = RejectNew,
       qf_SegmentSize = 0\<rparr>,
     bq_db = [], bq_writeOffset = 0, bq_readOffset = 0, bq_droppedCount = 0, bq_enqueuedCount = 0, bq_dequeuedCount = 0,
     bq_committedCount = 0, bq_closed = False\<rparr>"

definition lost :: "('d \<Rightarrow> bytes \<rightharpoonup> bytes) \<Rightarrow> item_codec \<Rightarrow> bytes \<Rightarrow> 'd badger_machine \<Rightarrow> bool" where
  "lost content ic d m \<longleftrightarrow> d \<in> snd ` set (bm_accepted m) \<and> d \<notin> snd ` set (queue_items ic content (bm_queue m))
     \<and> d \<notin> qi_Data ` set (bm_delivered m) \<and> bq_droppedCount (bm_queue m) = 0
     \<and> bm_full m = {#} \<and> bm_victims m = {#} \<and> bm_dropping m = {#} \<and> bm_checked m = {#} \<and> bm_reserved m = {#}
     \<and> bm_loaded m = None \<and> bm_committing m = None"

lemma small_room: "checkCapacity small_queue = None" "\<not> bq_closed small_queue"
  by (simp_all add: checkCapacity_def approximateBytesUsed_def bq_depth_def small_queue_def)

text \<open>Calls that all passed the check on the empty queue.\<close>

lemma checks:
  "(badger_step kv ic)\<^sup>*\<^sup>* (badger_start small_queue) ((badger_start small_queue)\<lparr>bm_checked := mset ds\<rparr>)"
proof (induction ds)
  case (Cons d ds)
  let ?m = "(badger_start small_queue)\<lparr>bm_checked := mset ds\<rparr>"
  have "badger_step kv ic ?m (?m\<lparr>bm_checked := add_mset d (bm_checked ?m)\<rparr>)"
    by (rule badger_step.check_room) (simp_all add: badger_start_def small_room)
  with Cons show ?case by simp
qed (simp add: badger_start_def)

lemma reserved:
  assumes "bm_checked m = add_mset d ds"
  shows "badger_step kv ic m (m\<lparr>bm_queue := (bm_queue m)\<lparr>bq_writeOffset := bq_writeOffset (bm_queue m) + 1\<rparr>,
       bm_checked := ds, bm_reserved := add_mset (bq_writeOffset (bm_queue m), d) (bm_reserved m)\<rparr>)"
  by (rule badger_step.reserve[OF assms])

text \<open>A batch that skips a reserved offset and a commit past it: the slow event is written behind the read offset.\<close>

lemma slow_writer_loses:
  "\<exists>m. (badger_step (sized_kv short_value) plain_items)\<^sup>*\<^sup>* (badger_start small_queue) m \<and> bm_abandoned m = [] \<and> lost map_of plain_items ''a'' m"
proof -
  let ?S = "badger_step (sized_kv short_value) plain_items" and ?k = "formatKey ''s''"
  define i where "i = \<lparr>qi_Offset = 1, qi_Data = ''b'', qi_EnqueuedAt = 0\<rparr>"
  define m2 where "m2 = (badger_start small_queue)\<lparr>bm_checked := mset [''a'', ''b'']\<rparr>"
  define m3 where "m3 = (badger_start (small_queue\<lparr>bq_writeOffset := 1\<rparr>))\<lparr>bm_checked := {#''b''#}, bm_reserved := {#(0, ''a'')#}\<rparr>"
  define m4 where "m4 = (badger_start (small_queue\<lparr>bq_writeOffset := 2\<rparr>))\<lparr>bm_reserved := {#(0, ''a''), (1, ''b'')#}\<rparr>"
  define q5 where "q5 = small_queue\<lparr>bq_writeOffset := 2, bq_db := [(?k 1, ''b'')], bq_enqueuedCount := 1\<rparr>"
  define m5 where "m5 = (badger_start q5)\<lparr>bm_reserved := {#(0, ''a'')#}, bm_accepted := [(1, ''b'')]\<rparr>"
  define m6 where "m6 = m5\<lparr>bm_queue := q5\<lparr>bq_dequeuedCount := 1\<rparr>, bm_batch := [i], bm_delivered := [i]\<rparr>"
  define m7 where "m7 = m5\<lparr>bm_queue := q5\<lparr>bq_dequeuedCount := 1\<rparr>, bm_loaded := Some (0, 1), bm_delivered := [i]\<rparr>"
  define m8 where "m8 = m5\<lparr>bm_queue := q5\<lparr>bq_dequeuedCount := 1, bq_db := []\<rparr>, bm_committing := Some (0, 1),
      bm_removed := {0..1}, bm_delivered := [i]\<rparr>"
  define q9 where "q9 = q5\<lparr>bq_dequeuedCount := 1, bq_db := [], bq_readOffset := 2, bq_committedCount := 2\<rparr>"
  define m9 where "m9 = m5\<lparr>bm_queue := q9, bm_removed := {0..1}, bm_delivered := [i]\<rparr>"
  define q10 where "q10 = q9\<lparr>bq_db := [(?k 0, ''a'')], bq_enqueuedCount := 2\<rparr>"
  define m10 where "m10 = (badger_start q10)\<lparr>bm_accepted := [(1, ''b''), (0, ''a'')], bm_removed := {0..1}, bm_delivered := [i]\<rparr>"
  note d = badger_start_def small_queue_def plain_items_def sized_kv_def short_value_def mem_kv_def
  have s2: "?S\<^sup>*\<^sup>* (badger_start small_queue) m2" unfolding m2_def by (rule checks)
  have s3: "?S m2 m3" using reserved[of m2 "''a''" "{#''b''#}"] by (simp add: m2_def m3_def d)
  have s4: "?S m3 m4" using reserved[of m3 "''b''" "{#}"] by (simp add: m3_def m4_def d add_mset_commute)
  have s5: "?S m4 m5"
    using badger_step.write_ok[of m4 1 "''b''" "{#(0, ''a'')#}" plain_items 0 "''b''" "sized_kv short_value" "[(?k 1, ''b'')]"]
    by (simp add: m4_def m5_def q5_def d add_mset_commute)
  have b: "badger_DequeueBatch (sized_kv short_value) plain_items 0 5 q5 = (Inr [i], q5\<lparr>bq_dequeuedCount := 1\<rparr>)"
    by (simp add: badger_DequeueBatch_def q5_def i_def dequeue_from.simps d Let_def)
  have s6: "?S m5 m6"
    using badger_step.dequeue[of m5 "sized_kv short_value" plain_items 0 5 "[i]"] b by (simp add: m5_def m6_def badger_start_def)
  have s7: "?S m6 m7"
    using badger_step.commit_load[of m6 1] by (simp add: m5_def m6_def m7_def q5_def i_def badger_start_def small_queue_def)
  have s8: "?S m7 m8"
    using badger_step.commit_delete[of m7 0 1 "sized_kv short_value" "[]"] by (simp add: m5_def m7_def m8_def q5_def d)
  have s9: "?S m8 m9"
    using badger_step.commit_store[of m8 0 1] by (simp add: m5_def m8_def m9_def q9_def q5_def d)
  have s10: "?S m9 m10"
    using badger_step.write_ok[of m9 0 "''a''" "{#}" plain_items 0 "''a''" "sized_kv short_value" "[(?k 0, ''a'')]"]
    by (simp add: m5_def m9_def m10_def q10_def q9_def q5_def d)
  have "bm_abandoned m10 = [] \<and> lost map_of plain_items ''a'' m10"
    by (simp add: lost_def m10_def q10_def q9_def q5_def i_def queue_items_def slots_def badger_start_def small_queue_def)
  moreover have "?S\<^sup>*\<^sup>* (badger_start small_queue) m10"
    using s2 s3 s4 s5 s6 s7 s8 s9 s10 by (meson rtranclp.rtrancl_into_rtrancl)
  ultimately show ?thesis by blast
qed

text \<open>A failed write takes the offset back that another call was given in the meantime: the next event gets the
  offset of an accepted one and overwrites it.\<close>

lemma failed_write_loses:
  "\<exists>m. (badger_step (sized_kv short_value) plain_items)\<^sup>*\<^sup>* (badger_start small_queue) m \<and> bm_removed m = {} \<and> lost map_of plain_items ''b'' m"
proof -
  let ?S = "badger_step (sized_kv short_value) plain_items" and ?k = "formatKey ''s''"
  define m2 where "m2 = (badger_start small_queue)\<lparr>bm_checked := mset [''xx'', ''b'', ''c'']\<rparr>"
  define m3 where "m3 = (badger_start (small_queue\<lparr>bq_writeOffset := 1\<rparr>))\<lparr>bm_checked := {#''b'', ''c''#}, bm_reserved := {#(0, ''xx'')#}\<rparr>"
  define m4 where "m4 = (badger_start (small_queue\<lparr>bq_writeOffset := 2\<rparr>))\<lparr>bm_checked := {#''c''#}, bm_reserved := {#(0, ''xx''), (1, ''b'')#}\<rparr>"
  define q5 where "q5 = small_queue\<lparr>bq_writeOffset := 2, bq_db := [(?k 1, ''b'')], bq_enqueuedCount := 1\<rparr>"
  define m5 where "m5 = (badger_start q5)\<lparr>bm_checked := {#''c''#}, bm_reserved := {#(0, ''xx'')#}, bm_accepted := [(1, ''b'')]\<rparr>"
  define m6 where "m6 = (badger_start (q5\<lparr>bq_writeOffset := 1\<rparr>))\<lparr>bm_checked := {#''c''#}, bm_accepted := [(1, ''b'')], bm_abandoned := [0]\<rparr>"
  define m7 where "m7 = (badger_start q5)\<lparr>bm_reserved := {#(1, ''c'')#}, bm_accepted := [(1, ''b'')], bm_abandoned := [0]\<rparr>"
  define q8 where "q8 = q5\<lparr>bq_db := [(?k 1, ''c'')], bq_enqueuedCount := 2\<rparr>"
  define m8 where "m8 = (badger_start q8)\<lparr>bm_accepted := [(1, ''b''), (1, ''c'')], bm_abandoned := [0]\<rparr>"
  note d = badger_start_def small_queue_def plain_items_def sized_kv_def short_value_def
  have s2: "?S\<^sup>*\<^sup>* (badger_start small_queue) m2" unfolding m2_def by (rule checks)
  have s3: "?S m2 m3" using reserved[of m2 "''xx''" "{#''b'', ''c''#}"] by (simp add: m2_def m3_def d)
  have s4: "?S m3 m4" using reserved[of m3 "''b''" "{#''c''#}"] by (simp add: m3_def m4_def d add_mset_commute)
  have s5: "?S m4 m5"
    using badger_step.write_ok[of m4 1 "''b''" "{#(0, ''xx'')#}" plain_items 0 "''b''" "sized_kv short_value" "[(?k 1, ''b'')]"]
    by (simp add: m4_def m5_def q5_def d add_mset_commute)
  have s6: "?S m5 m6"
    using badger_step.write_fails[of m5 0 "''xx''" "{#}" plain_items 0 "''xx''" "sized_kv short_value"] by (simp add: m5_def m6_def q5_def d)
  have s7: "?S m6 m7" using reserved[of m6 "''c''" "{#}"] by (simp add: m6_def m7_def q5_def d)
  have s8: "?S m7 m8"
    using badger_step.write_ok[of m7 1 "''c''" "{#}" plain_items 0 "''c''" "sized_kv short_value" "[(?k 1, ''c'')]"]
    by (simp add: m7_def m8_def q8_def q5_def d)
  have "[0..<2] = [0, 1 :: nat]" by (simp add: upt_rec)
  then have "queue_items plain_items map_of q8 = [(1, ''c'')]"
    by (simp add: queue_items_def slots_def slot_def q8_def q5_def plain_items_def decode_item_def small_queue_def)
  then have "bm_removed m8 = {} \<and> lost map_of plain_items ''b'' m8" by (simp add: lost_def m8_def q8_def q5_def badger_start_def small_queue_def)
  moreover have "?S\<^sup>*\<^sup>* (badger_start small_queue) m8"
    using s2 s3 s4 s5 s6 s7 s8 by (meson rtranclp.rtrancl_into_rtrancl)
  ultimately show ?thesis by blast
qed

end
