(* ===== verification/Memory_Queue.thy ===== *)
theory Memory_Queue
  imports Durable_Queue
begin

text \<open>
  \<open>internal/queue/memory_queue.go\<close>: the in-memory queue, one call at a time. A receive from a closed,
  empty channel yields the zero item without blocking.
\<close>

record MemoryQueue =
  mq_stream :: string
  mq_ch :: "QueueItem list"
  mq_cap :: nat
  mq_closed :: bool
  mq_writeOffset :: u64
  mq_readOffset :: u64
  mq_droppedCount :: u64
  mq_enqueuedCount :: u64
  mq_dequeuedCount :: u64
  mq_committedCount :: u64
  mq_dropPolicy :: string
  mq_maxEvents :: i64

definition NewMemoryQueue :: "string \<Rightarrow> i64 \<Rightarrow> string \<Rightarrow> MemoryQueue" where
  "NewMemoryQueue stream capacity dropPolicy =
     (let cap = (if sint capacity \<le> 0 then 1000 else capacity)
      in \<lparr>mq_stream = stream, mq_ch = [], mq_cap = nat (sint cap), mq_closed = False, mq_writeOffset = 0, mq_readOffset = 0,
          mq_droppedCount = 0, mq_enqueuedCount = 0, mq_dequeuedCount = 0, mq_committedCount = 0,
          mq_dropPolicy = dropPolicy, mq_maxEvents = cap\<rparr>)"

definition zero_item :: QueueItem where
  "zero_item = \<lparr>qi_Offset = 0, qi_Data = [], qi_EnqueuedAt = - 62135596800 * 10 ^ 9\<rparr>"

definition mem_Enqueue :: "bytes \<Rightarrow> MemoryQueue \<Rightarrow> queue_error option \<times> MemoryQueue" where
  "mem_Enqueue d q =
     (if mq_closed q then (Some QueueClosed, q)
      else let q1 = q\<lparr>mq_writeOffset := mq_writeOffset q + 1\<rparr>;
               item = \<lparr>qi_Offset = mq_writeOffset q1 - 1, qi_Data = d, qi_EnqueuedAt = - 62135596800 * 10 ^ 9\<rparr>
      in if length (mq_ch q1) < mq_cap q1
         then (None, q1\<lparr>mq_ch := mq_ch q1 @ [item], mq_enqueuedCount := mq_enqueuedCount q1 + 1\<rparr>)
         else if mq_dropPolicy q1 = RejectNew then (Some QueueFull, q1\<lparr>mq_writeOffset := mq_writeOffset q1 + (- 1)\<rparr>)
         else let q2 = (case mq_ch q1 of [] \<Rightarrow> q1
                | _ # rest \<Rightarrow> q1\<lparr>mq_ch := rest, mq_droppedCount := mq_droppedCount q1 + 1, mq_readOffset := mq_readOffset q1 + 1\<rparr>)
         in if length (mq_ch q2) < mq_cap q2
            then (None, q2\<lparr>mq_ch := mq_ch q2 @ [item], mq_enqueuedCount := mq_enqueuedCount q2 + 1\<rparr>)
            else (Some EnqueueAfterDrop, q2\<lparr>mq_writeOffset := mq_writeOffset q2 + (- 1), mq_droppedCount := mq_droppedCount q2 + 1\<rparr>))"

text \<open>The receive loop; the flag is false when it returned early because nothing was available.\<close>

fun mem_receive :: "nat \<Rightarrow> bool \<Rightarrow> QueueItem list \<Rightarrow> QueueItem list \<times> QueueItem list \<times> bool" where
  "mem_receive 0 shut ch = ([], ch, True)"
| "mem_receive (Suc n) shut (x # ch) = (case mem_receive n shut ch of (items, rest, full) \<Rightarrow> (x # items, rest, full))"
| "mem_receive (Suc n) shut [] = (if shut
     then (case mem_receive n shut [] of (items, rest, full) \<Rightarrow> (zero_item # items, rest, full)) else ([], [], False))"

text \<open>\<open>None\<close>: \<open>make\<close> panics on a negative batch size.\<close>

definition mem_DequeueBatch :: "int \<Rightarrow> MemoryQueue \<Rightarrow> (QueueItem list \<times> MemoryQueue) option" where
  "mem_DequeueBatch batchSize q =
     (if batchSize < 0 then None
      else case mem_receive (nat batchSize) (mq_closed q) (mq_ch q) of (items, rest, full) \<Rightarrow>
        (let q1 = q\<lparr>mq_ch := rest\<rparr>
         in if full \<and> items \<noteq> [] then Some (items, q1\<lparr>mq_dequeuedCount := mq_dequeuedCount q + of_nat (length items)\<rparr>)
            else Some (items, q1)))"

definition mem_Commit :: "u64 \<Rightarrow> MemoryQueue \<Rightarrow> MemoryQueue" where
  "mem_Commit offset q = q\<lparr>mq_committedCount := mq_committedCount q + 1, mq_readOffset := offset + 1\<rparr>"

definition mem_MoveToDLQ :: "MemoryQueue \<Rightarrow> queue_error option \<times> MemoryQueue" where
  "mem_MoveToDLQ q = (Some DLQUnsupported, q)"

definition mem_Metrics :: "MemoryQueue \<Rightarrow> queue_Metrics" where
  "mem_Metrics q = \<lparr>qx_Depth = of_nat (length (mq_ch q)), qx_DLQSize = 0, qx_DroppedCount = mq_droppedCount q,
     qx_EnqueuedCount = mq_enqueuedCount q, qx_DequeuedCount = mq_dequeuedCount q,
     qx_CommittedCount = mq_committedCount q, qx_BytesUsed = 0\<rparr>"

definition mem_Close :: "MemoryQueue \<Rightarrow> MemoryQueue" where
  "mem_Close q = (if \<not> mq_closed q then q\<lparr>mq_closed := True\<rparr> else q)"

section \<open>Enqueue\<close>

text \<open>The buffer holds consecutive offsets that end just before the write offset.\<close>

fun numbered :: "u64 \<Rightarrow> QueueItem list \<Rightarrow> u64 \<Rightarrow> bool" where
  "numbered d [] w \<longleftrightarrow> d = w"
| "numbered d (x # xs) w \<longleftrightarrow> qi_Offset x = d \<and> numbered (d + 1) xs w"

definition mem_ok :: "MemoryQueue \<Rightarrow> bool" where
  "mem_ok q \<longleftrightarrow> 0 < mq_cap q \<and> length (mq_ch q) \<le> mq_cap q \<and> (\<exists>d. numbered d (mq_ch q) (mq_writeOffset q))"

lemma numbered_snoc: "numbered d xs w \<Longrightarrow> qi_Offset x = w \<Longrightarrow> numbered d (xs @ [x]) (w + 1)"
  by (induction d xs w rule: numbered.induct) auto

lemma NewMemoryQueue_ok: "mem_ok (NewMemoryQueue s c p)"
  by (auto simp: NewMemoryQueue_def mem_ok_def Let_def)

text \<open>The three outcomes: appended, refused, or appended after the oldest was dropped.\<close>

lemma mem_Enqueue_cases:
  assumes "mem_ok q" and "\<not> mq_closed q"
  shows "mem_Enqueue d q =
    (let item = \<lparr>qi_Offset = mq_writeOffset q, qi_Data = d, qi_EnqueuedAt = - 62135596800 * 10 ^ 9\<rparr>
     in if length (mq_ch q) < mq_cap q
        then (None, q\<lparr>mq_ch := mq_ch q @ [item], mq_writeOffset := mq_writeOffset q + 1, mq_enqueuedCount := mq_enqueuedCount q + 1\<rparr>)
        else if mq_dropPolicy q = RejectNew then (Some QueueFull, q)
        else (None, q\<lparr>mq_ch := tl (mq_ch q) @ [item], mq_writeOffset := mq_writeOffset q + 1, mq_readOffset := mq_readOffset q + 1,
               mq_droppedCount := mq_droppedCount q + 1, mq_enqueuedCount := mq_enqueuedCount q + 1\<rparr>))"
  using assms by (cases "mq_ch q") (auto simp: mem_Enqueue_def mem_ok_def Let_def)

lemma mem_Enqueue_ok:
  assumes ok: "mem_ok q" and e: "mem_Enqueue d q = (r, q')"
  shows "mem_ok q'"
proof (cases "mq_closed q")
  case True
  with assms show ?thesis by (simp add: mem_Enqueue_def)
next
  case False
  from ok obtain d0 where d0: "numbered d0 (mq_ch q) (mq_writeOffset q)" by (auto simp: mem_ok_def)
  have "\<exists>d. numbered d (tl (mq_ch q) @ [x]) (mq_writeOffset q + 1)" if "qi_Offset x = mq_writeOffset q" "mq_ch q \<noteq> []" for x
    using d0 that by (cases "mq_ch q") (auto intro!: exI[of _ "d0 + 1"] numbered_snoc)
  moreover have "\<exists>d. numbered d (mq_ch q @ [x]) (mq_writeOffset q + 1)" if "qi_Offset x = mq_writeOffset q" for x
    by (rule exI, rule numbered_snoc[OF d0 that])
  moreover have "mq_cap q \<le> length (mq_ch q) \<Longrightarrow> mq_ch q \<noteq> []" using ok by (auto simp: mem_ok_def)
  ultimately show ?thesis using e ok
    by (auto simp: mem_Enqueue_cases[OF ok False] Let_def mem_ok_def split: if_splits)
qed

section \<open>DequeueBatch\<close>

lemma mem_receive_open: "mem_receive n False ch = (take n ch, drop n ch, n \<le> length ch)"
  by (induction n "False" ch rule: mem_receive.induct) auto

lemma mem_receive_closed: "mem_receive n True ch = (take n ch @ replicate (n - length ch) zero_item, drop n ch, True)"
  by (induction n "True" ch rule: mem_receive.induct) auto

text \<open>An open queue gives out the oldest items, and gives them out for good: unlike what the interface
  \<open>Queue\<close> promises, they do not stay in the queue until \<open>Commit\<close>.\<close>

lemma mem_DequeueBatch_open:
  assumes "\<not> mq_closed q" and "mem_DequeueBatch n q = Some (items, q')"
  shows "items = take (nat n) (mq_ch q) \<and> mq_ch q' = drop (nat n) (mq_ch q)"
  using assms by (auto simp: mem_DequeueBatch_def mem_receive_open Let_def split: if_splits)

text \<open>A closed queue fills every batch up with zero items.\<close>

lemma mem_DequeueBatch_closed:
  assumes "mq_closed q" and "mem_DequeueBatch n q = Some (items, q')"
  shows "items = take (nat n) (mq_ch q) @ replicate (nat n - length (mq_ch q)) zero_item"
  using assms by (auto simp: mem_DequeueBatch_def mem_receive_closed Let_def split: if_splits)

text \<open>A short batch is not counted.\<close>

lemma mem_DequeueBatch_short:
  assumes "\<not> mq_closed q" "length (mq_ch q) < nat n" "mem_DequeueBatch n q = Some (items, q')"
  shows "mq_dequeuedCount q' = mq_dequeuedCount q"
  using assms by (auto simp: mem_DequeueBatch_def mem_receive_open Let_def split: if_splits)

end
