(* ===== verification/Dlq.thy ===== *)
theory Dlq
  imports Queue_Refinement Go_Time
begin

text \<open>
  \<open>internal/queue/dlq.go\<close>: the manager of the dead-letter queue, a client of the durable queue. The
  parsing of an entry is an argument. The loop of \<open>PurgeOlderThan\<close> has no bound of its own and takes
  fuel.
\<close>

datatype dlq_error = DLQDequeue queue_error | DLQCommit queue_error | NoEntry u64 | OffsetMismatch u64 u64 | EntryMalformed

fun parse_entries :: "(bytes \<Rightarrow> DLQEntry option) \<Rightarrow> QueueItem list \<Rightarrow> DLQEntry list" where
  "parse_entries unmarshal [] = []"
| "parse_entries unmarshal (item # items) =
     (case unmarshal (qi_Data item) of None \<Rightarrow> parse_entries unmarshal items
      | Some e \<Rightarrow> e # parse_entries unmarshal items)"

definition ListEntries :: "'d kv \<Rightarrow> item_codec \<Rightarrow> (bytes \<Rightarrow> DLQEntry option) \<Rightarrow> int \<Rightarrow> int \<Rightarrow> 'd BadgerQueue
    \<Rightarrow> (dlq_error + DLQEntry list) \<times> 'd BadgerQueue" where
  "ListEntries kv ic unmarshal now limit q =
     (case badger_DequeueBatch kv ic now (if limit \<le> 0 then 100 else limit) q of
        (Inl err, q') \<Rightarrow> (Inl (DLQDequeue err), q')
      | (Inr items, q') \<Rightarrow> (Inr (parse_entries unmarshal items), q'))"

definition dlq_Count :: "'d BadgerQueue \<Rightarrow> i64" where
  "dlq_Count q = qx_Depth (badger_Metrics q)"

definition Purge :: "'d kv \<Rightarrow> item_codec \<Rightarrow> int \<Rightarrow> 'd BadgerQueue \<Rightarrow> dlq_error option \<times> 'd BadgerQueue" where
  "Purge kv ic now q =
     (case badger_DequeueBatch kv ic now (sint (qf_MaxEvents (bq_cfg q))) q of
        (Inl err, q') \<Rightarrow> (Some (DLQDequeue err), q')
      | (Inr items, q') \<Rightarrow>
          (if items = [] then (None, q')
           else case badger_Commit kv (qi_Offset (last items)) q' of
             (Some err, q'') \<Rightarrow> (Some (DLQCommit err), q'') | (None, q'') \<Rightarrow> (None, q'')))"

text \<open>One batch of \<open>PurgeOlderThan\<close>.\<close>

fun purge_batch :: "'d kv \<Rightarrow> (bytes \<Rightarrow> DLQEntry option) \<Rightarrow> int \<Rightarrow> QueueItem list \<Rightarrow> nat \<Rightarrow> 'd BadgerQueue
    \<Rightarrow> dlq_error option \<times> nat \<times> 'd BadgerQueue" where
  "purge_batch kv unmarshal cutoff [] purgedCount q = (None, purgedCount, q)"
| "purge_batch kv unmarshal cutoff (item # items) purgedCount q =
     (case unmarshal (qi_Data item) of None \<Rightarrow> purge_batch kv unmarshal cutoff items purgedCount q
      | Some e \<Rightarrow>
          (if de_FirstAttemptAt e < cutoff then
             (case badger_Commit kv (qi_Offset item) q of
                (Some err, q') \<Rightarrow> (Some (DLQCommit err), purgedCount, q')
              | (None, q') \<Rightarrow> purge_batch kv unmarshal cutoff items (Suc purgedCount) q')
           else purge_batch kv unmarshal cutoff items purgedCount q))"

fun purge_loop :: "nat \<Rightarrow> 'd kv \<Rightarrow> item_codec \<Rightarrow> (bytes \<Rightarrow> DLQEntry option) \<Rightarrow> int \<Rightarrow> int \<Rightarrow> nat \<Rightarrow> 'd BadgerQueue
    \<Rightarrow> (dlq_error option \<times> nat \<times> 'd BadgerQueue) option" where
  "purge_loop 0 kv ic unmarshal now cutoff purgedCount q = None"
| "purge_loop (Suc fuel) kv ic unmarshal now cutoff purgedCount q =
     (case badger_DequeueBatch kv ic now 100 q of
        (Inl err, q') \<Rightarrow> Some (Some (DLQDequeue err), purgedCount, q')
      | (Inr items, q') \<Rightarrow>
          (if items = [] then Some (None, purgedCount, q')
           else case purge_batch kv unmarshal cutoff items purgedCount q' of
             (Some err, n, q'') \<Rightarrow> Some (Some err, n, q'')
           | (None, n, q'') \<Rightarrow> if length items < 100 then Some (None, n, q'')
               else purge_loop fuel kv ic unmarshal now cutoff n q''))"

definition PurgeOlderThan :: "nat \<Rightarrow> 'd kv \<Rightarrow> item_codec \<Rightarrow> (bytes \<Rightarrow> DLQEntry option) \<Rightarrow> int \<Rightarrow> i64 \<Rightarrow> 'd BadgerQueue
    \<Rightarrow> (dlq_error option \<times> nat \<times> 'd BadgerQueue) option" where
  "PurgeOlderThan fuel kv ic unmarshal now age q = purge_loop fuel kv ic unmarshal now (now + sint (- age)) 0 q"

definition Reprocess :: "'d kv \<Rightarrow> item_codec \<Rightarrow> (bytes \<Rightarrow> DLQEntry option) \<Rightarrow> int \<Rightarrow> u64 \<Rightarrow> 'd BadgerQueue
    \<Rightarrow> (dlq_error + bytes \<times> string) \<times> 'd BadgerQueue" where
  "Reprocess kv ic unmarshal now offset q =
     (case badger_DequeueBatch kv ic now 1 q of
        (Inl err, q') \<Rightarrow> (Inl (DLQDequeue err), q')
      | (Inr [], q') \<Rightarrow> (Inl (NoEntry offset), q')
      | (Inr (item # _), q') \<Rightarrow>
          (if qi_Offset item \<noteq> offset then (Inl (OffsetMismatch offset (qi_Offset item)), q')
           else case unmarshal (qi_Data item) of None \<Rightarrow> (Inl EntryMalformed, q')
             | Some e \<Rightarrow> (case badger_Commit kv offset q' of
                 (Some err, q'') \<Rightarrow> (Inl (DLQCommit err), q'')
               | (None, q'') \<Rightarrow> (Inr (de_OriginalEvent e, de_Stream e), q''))))"

record DLQStats =
  ds_TotalEntries :: nat
  ds_OldestEntryAge :: i64
  ds_EntriesByReason :: "string \<Rightarrow> nat"
  ds_EntriesByStream :: "string \<Rightarrow> nat"

fun stats_loop :: "DLQEntry list \<Rightarrow> int \<Rightarrow> (string \<Rightarrow> nat) \<Rightarrow> (string \<Rightarrow> nat) \<Rightarrow> int \<times> (string \<Rightarrow> nat) \<times> (string \<Rightarrow> nat)" where
  "stats_loop [] oldest r s = (oldest, r, s)"
| "stats_loop (e # es) oldest r s =
     stats_loop es (if de_FirstAttemptAt e < oldest then de_FirstAttemptAt e else oldest)
       (r(de_Reason e := r (de_Reason e) + 1)) (s(de_Stream e := s (de_Stream e) + 1))"

text \<open>\<open>clock\<close> gives the readings of the clock: by the batch, for the initial \<open>oldest\<close>, and for the age at the end.\<close>

definition GetStats :: "'d kv \<Rightarrow> item_codec \<Rightarrow> (bytes \<Rightarrow> DLQEntry option) \<Rightarrow> (nat \<Rightarrow> int) \<Rightarrow> 'd BadgerQueue
    \<Rightarrow> (dlq_error + DLQStats) \<times> 'd BadgerQueue" where
  "GetStats kv ic unmarshal clock q =
     (case ListEntries kv ic unmarshal (clock 0) (sint (qf_MaxEvents (bq_cfg q))) q of
        (Inl err, q') \<Rightarrow> (Inl err, q')
      | (Inr entries, q') \<Rightarrow>
          (if entries = [] then (Inr \<lparr>ds_TotalEntries = 0, ds_OldestEntryAge = 0, ds_EntriesByReason = (\<lambda>_. 0), ds_EntriesByStream = (\<lambda>_. 0)\<rparr>, q')
           else case stats_loop entries (clock 1) (\<lambda>_. 0) (\<lambda>_. 0) of (oldest, r, s) \<Rightarrow>
             (Inr \<lparr>ds_TotalEntries = length entries, ds_OldestEntryAge = time_sub (clock 2) oldest,
                ds_EntriesByReason = r, ds_EntriesByStream = s\<rparr>, q')))"

section \<open>Statistics\<close>

text \<open>The counts by reason and by stream are the numbers of entries with that reason or stream, and the
  age is that of the oldest entry.\<close>

lemma stats_loop_eq:
  "stats_loop es oldest r s = (Min (insert oldest (de_FirstAttemptAt ` set es)),
     (\<lambda>k. r k + length (filter (\<lambda>e. de_Reason e = k) es)), (\<lambda>k. s k + length (filter (\<lambda>e. de_Stream e = k) es)))"
proof (induction es arbitrary: oldest r s)
  case (Cons e es)
  have "Min (insert (if de_FirstAttemptAt e < oldest then de_FirstAttemptAt e else oldest) (de_FirstAttemptAt ` set es))
      = Min (insert oldest (insert (de_FirstAttemptAt e) (de_FirstAttemptAt ` set es)))"
    by (cases "set es = {}") (auto simp: min_def insert_commute)
  then show ?case by (auto simp: Cons.IH fun_eq_iff)
qed simp

lemma GetStats_Inr:
  assumes "GetStats kv ic unmarshal clock q = (Inr st, q')"
  shows "\<exists>es q1. ListEntries kv ic unmarshal (clock 0) (sint (qf_MaxEvents (bq_cfg q))) q = (Inr es, q1)
    \<and> ds_TotalEntries st = length es \<and> (\<forall>k. ds_EntriesByReason st k = length (filter (\<lambda>e. de_Reason e = k) es))
    \<and> (\<forall>k. ds_EntriesByStream st k = length (filter (\<lambda>e. de_Stream e = k) es))"
  using assms by (auto simp: GetStats_def stats_loop_eq split: prod.splits sum.splits if_splits)

section \<open>The manager on the abstract queue\<close>

lemma slots_unique: "slots ic s m r w = xs @ [(i, d)] @ ys \<Longrightarrow> (\<forall>(j, _)\<in>set xs. j < i) \<and> (\<forall>(j, _)\<in>set ys. i < j)"
proof -
  have "sorted_wrt (\<lambda>(a, _) (b, _). a < b) (slots ic s m r w)"
  proof (induction "w - r" arbitrary: r)
    case 0
    then show ?case by (simp add: slots_def)
  next
    case (Suc n)
    have "sorted_wrt (\<lambda>(a, _) (b, _). a < b) (slot ic s m r)" by (simp add: slot_def split: option.splits)
    moreover have "a = r" if "(a, d) \<in> set (slot ic s m r)" for a d using that by (auto simp: slot_def split: option.splits)
    moreover have "r < a" if "(a, d) \<in> set (slots ic s m (Suc r) w)" for a d using slots_offsets[OF that] by simp
    moreover have "slots ic s m r w = slot ic s m r @ slots ic s m (Suc r) w" using Suc.hyps(2) by (intro slots_Cons) simp
    ultimately show ?case using Suc.hyps(1)[of "Suc r"] Suc.hyps(2) by (fastforce simp: sorted_wrt_append)
  qed
  then show "slots ic s m r w = xs @ [(i, d)] @ ys \<Longrightarrow> ?thesis" by (auto simp: sorted_wrt_append)
qed

context kv_store
begin

text \<open>A consumer that dequeues a batch and commits its last offset removes exactly that batch.\<close>

lemma dequeue_commit_refines:
  assumes inv: "queue_inv content q" and d: "badger_DequeueBatch kv ic now n q = (Inr items, q1)" and ne: "items \<noteq> []"
    and c: "badger_Commit kv (qi_Offset (last items)) q1 = (None, q2)"
  shows "map (\<lambda>i. (unat (qi_Offset i), qi_Data i)) items = take (nat n) (queue_items ic content q)
    \<and> queue_items ic content q2 = drop (nat n) (queue_items ic content q) \<and> queue_inv content q2"
proof -
  let ?o = "unat (qi_Offset (last items))" and ?qs = "queue_items ic content q"
  have r: "map (\<lambda>i. (unat (qi_Offset i), qi_Data i)) items = take (nat n) ?qs" "queue_items ic content q1 = ?qs" "queue_inv content q1"
    using DequeueBatch_refines[OF d] inv by simp_all
  have "take (nat n) ?qs = map (\<lambda>i. (unat (qi_Offset i), qi_Data i)) (butlast items) @ [(?o, qi_Data (last items))]"
    unfolding r(1)[symmetric] by (subst append_butlast_last_id[OF ne, symmetric], simp only: map_append) simp
  then have "?qs = map (\<lambda>i. (unat (qi_Offset i), qi_Data i)) (butlast items) @ [(?o, qi_Data (last items))] @ drop (nat n) ?qs"
    using append_take_drop_id[of "nat n" ?qs] by simp
  then have u: "\<forall>(j, _)\<in>set (take (nat n) ?qs). j \<le> ?o" "\<forall>(j, _)\<in>set (drop (nat n) ?qs). ?o < j"
    using slots_unique[OF \<open>?qs = _\<close>[unfolded queue_items_def]] \<open>take (nat n) ?qs = _\<close>
    by (auto simp: queue_items_def[symmetric] dest: bspec intro: less_imp_le)
  have "(?o, qi_Data (last items)) \<in> set (take (nat n) ?qs)" by (simp add: \<open>take (nat n) ?qs = _\<close>)
  then have mem: "(?o, qi_Data (last items)) \<in> set ?qs" by (rule in_set_takeD)
  have "?o < unat (bq_writeOffset q1)" using mem[folded r(2)] by (auto simp: queue_items_def dest: slots_offsets)
  then have "qi_Offset (last items) < bq_writeOffset q1" by (simp add: unat_less_iff)
  from Commit_refines[OF r(3) this c, of ic] have q2: "queue_inv content q2"
    "queue_items ic content q2 = filter (\<lambda>(i, _). ?o < i) ?qs" by (simp_all add: r(2))
  have "filter (\<lambda>(i, _). ?o < i) (take (nat n) ?qs) = []" "filter (\<lambda>(i, _). ?o < i) (drop (nat n) ?qs) = drop (nat n) ?qs"
    using u by (auto simp: filter_empty_conv filter_id_conv)
  then have "filter (\<lambda>(i, _). ?o < i) ?qs = drop (nat n) ?qs"
    using filter_append[of "\<lambda>(i, _). ?o < i" "take (nat n) ?qs" "drop (nat n) ?qs"] by simp
  with q2 r(1) show ?thesis by simp
qed

text \<open>\<open>Purge\<close> empties a queue that holds at most \<open>MaxEvents\<close> items.\<close>

lemma Purge_empties:
  assumes inv: "queue_inv content q" and size: "int (length (queue_items ic content q)) \<le> sint (qf_MaxEvents (bq_cfg q))"
    and p: "Purge kv ic now q = (None, q')"
  shows "queue_items ic content q' = []"
proof -
  obtain items q1 where d: "badger_DequeueBatch kv ic now (sint (qf_MaxEvents (bq_cfg q))) q = (Inr items, q1)"
    using p by (auto simp: Purge_def split: prod.splits sum.splits)
  have r: "map (\<lambda>i. (unat (qi_Offset i), qi_Data i)) items = queue_items ic content q" "queue_items ic content q1 = queue_items ic content q"
    "queue_inv content q1" using DequeueBatch_refines[OF d] size inv by simp_all
  show ?thesis
  proof (cases "items = []")
    case True
    then show ?thesis using p d r by (simp add: Purge_def)
  next
    case False
    then have c: "badger_Commit kv (qi_Offset (last items)) q1 = (None, q')"
      using p d by (auto simp: Purge_def split: prod.splits option.splits)
    from dequeue_commit_refines[OF inv d False c] size show ?thesis by simp
  qed
qed

text \<open>\<open>Reprocess\<close> succeeds only on the oldest entry, returns its event and removes exactly it.\<close>

lemma Reprocess_head:
  assumes inv: "queue_inv content q" and p: "Reprocess kv ic unmarshal now offset q = (Inr (event, stream), q')"
  shows "\<exists>d rest e. queue_items ic content q = (unat offset, d) # rest \<and> unmarshal d = Some e
    \<and> event = de_OriginalEvent e \<and> stream = de_Stream e \<and> queue_items ic content q' = rest \<and> queue_inv content q'"
proof -
  obtain items q1 where d: "badger_DequeueBatch kv ic now 1 q = (Inr items, q1)"
    using p by (auto simp: Reprocess_def split: prod.splits sum.splits)
  obtain item its where items: "items = item # its" using p d by (cases items) (auto simp: Reprocess_def)
  have r: "map (\<lambda>i. (unat (qi_Offset i), qi_Data i)) items = take 1 (queue_items ic content q)"
    "queue_items ic content q1 = queue_items ic content q" "queue_inv content q1"
    using DequeueBatch_refines[OF d] inv by simp_all
  obtain e where e: "qi_Offset item = offset" "unmarshal (qi_Data item) = Some e"
    "event = de_OriginalEvent e" "stream = de_Stream e" and c: "badger_Commit kv offset q1 = (None, q')"
    using p d items by (auto simp: Reprocess_def split: prod.splits option.splits if_splits)
  obtain rest where q: "queue_items ic content q1 = [] @ [(unat offset, qi_Data item)] @ rest"
    using r e(1) items by (cases "queue_items ic content q") auto
  then have gt: "\<forall>(j, _)\<in>set rest. unat offset < j" using slots_unique[OF q[unfolded queue_items_def]] by simp
  have "(unat offset, qi_Data item) \<in> set (queue_items ic content q1)" using q by simp
  then have "unat offset < unat (bq_writeOffset q1)" by (auto simp: queue_items_def dest: slots_offsets)
  then have "offset < bq_writeOffset q1" by (simp add: unat_less_iff)
  from Commit_refines[OF r(3) this c, of ic] q gt have "queue_items ic content q' = rest" "queue_inv content q'"
    by (auto simp: filter_id_conv)
  with e q r(2) show ?thesis by auto
qed

end

section \<open>\<open>PurgeOlderThan\<close> may not end\<close>

text \<open>A full batch with nothing to purge leaves the queue as it was, so the next round sees the same
  batch.\<close>

lemma purge_batch_young:
  "\<forall>i\<in>set items. \<forall>e. unmarshal (qi_Data i) = Some e \<longrightarrow> cutoff \<le> de_FirstAttemptAt e \<Longrightarrow>
     purge_batch kv unmarshal cutoff items n q = (None, n, q)"
  by (induction kv unmarshal cutoff items n q rule: purge_batch.induct) (auto split: option.splits)

lemma dequeue_same:
  "badger_DequeueBatch kv ic now b q = (Inr items, q') \<Longrightarrow> \<exists>q''. badger_DequeueBatch kv ic now b q' = (Inr items, q'')"
  by (auto simp: badger_DequeueBatch_def split: if_splits sum.splits)

lemma purge_loop_diverges:
  assumes "badger_DequeueBatch kv ic now 100 q = (Inr items, q1)" and "100 \<le> length items"
    and "\<forall>i\<in>set items. \<forall>e. unmarshal (qi_Data i) = Some e \<longrightarrow> cutoff \<le> de_FirstAttemptAt e"
  shows "purge_loop fuel kv ic unmarshal now cutoff n q = None"
  using assms(1)
proof (induction fuel arbitrary: q q1)
  case (Suc fuel)
  obtain q2 where d2: "badger_DequeueBatch kv ic now 100 q1 = (Inr items, q2)" using dequeue_same[OF Suc.prems] by blast
  have "items \<noteq> []" using assms(2) by auto
  with Suc.prems Suc.IH[OF d2] assms(2) show ?case by (simp add: purge_batch_young[OF assms(3)])
qed simp

end
