(* ===== verification/Queue_Interface.thy ===== *)
theory Queue_Interface
  imports Queue_Concurrency Memory_Queue Dlq "HOL-Library.Sublist"
begin

text \<open>
  The interface \<open>Queue\<close> of \<open>queue.go\<close> with its two implementations. What both keep is the locale \<open>fifo\<close>: a batch is the
  oldest items in order, and an accepted item is the newest. The sentence of the interface that items remain in
  the queue until \<open>Commit\<close> is the locale \<open>retaining\<close>, which the Badger queue keeps; the in-memory queue keeps the
  locale \<open>draining\<close> instead, so the two serve different consumers.
\<close>

text \<open>\<open>None\<close> is a panic. The flag of \<open>Close\<close> tells a nil error.\<close>

record 'q Queue =
  qu_Enqueue :: "bytes \<Rightarrow> 'q \<Rightarrow> queue_error option \<times> 'q"
  qu_DequeueBatch :: "int \<Rightarrow> 'q \<Rightarrow> ((queue_error + QueueItem list) \<times> 'q) option"
  qu_Commit :: "u64 \<Rightarrow> 'q \<Rightarrow> queue_error option \<times> 'q"
  qu_MoveToDLQ :: "QueueItem \<Rightarrow> string \<Rightarrow> string \<Rightarrow> 'q \<Rightarrow> queue_error option \<times> 'q"
  qu_Metrics :: "'q \<Rightarrow> queue_Metrics"
  qu_Close :: "'q \<Rightarrow> bool \<times> 'q"

text \<open>The Badger queue together with the dead-letter queue it points to; \<open>now\<close> is the clock of the call.\<close>

definition badger_Queue :: "'d kv \<Rightarrow> item_codec \<Rightarrow> (DLQEntry \<Rightarrow> bytes option) \<Rightarrow> int \<Rightarrow> ('d BadgerQueue \<times> 'd BadgerQueue option) Queue" where
  "badger_Queue kv ic marshal now = \<lparr>
     qu_Enqueue = (\<lambda>d (q, dlq). case badger_Enqueue kv ic now d q of (err, q') \<Rightarrow> (err, (q', dlq))),
     qu_DequeueBatch = (\<lambda>n (q, dlq). case badger_DequeueBatch kv ic now n q of (r, q') \<Rightarrow> Some (r, (q', dlq))),
     qu_Commit = (\<lambda>offset (q, dlq). case badger_Commit kv offset q of (err, q') \<Rightarrow> (err, (q', dlq))),
     qu_MoveToDLQ = (\<lambda>item reason errText (q, dlq). badger_MoveToDLQ kv ic marshal now item reason errText q dlq),
     qu_Metrics = (\<lambda>(q, _). badger_Metrics q),
     qu_Close = (\<lambda>(q, dlq). case badger_Close kv q of (ok, q') \<Rightarrow> (ok, (q', dlq)))\<rparr>"

definition mem_Queue :: "MemoryQueue Queue" where
  "mem_Queue = \<lparr>
     qu_Enqueue = mem_Enqueue,
     qu_DequeueBatch = (\<lambda>n q. map_option (\<lambda>(items, q'). (Inr items, q')) (mem_DequeueBatch n q)),
     qu_Commit = (\<lambda>offset q. (None, mem_Commit offset q)),
     qu_MoveToDLQ = (\<lambda>_ _ _ q. mem_MoveToDLQ q),
     qu_Metrics = mem_Metrics,
     qu_Close = (\<lambda>q. (True, mem_Close q))\<rparr>"

section \<open>The contract\<close>

locale fifo =
  fixes Q :: "'q Queue" and contents :: "'q \<Rightarrow> (u64 \<times> bytes) list" and ok :: "'q \<Rightarrow> bool" and offsets_left :: "'q \<Rightarrow> bool"
  assumes enqueued: "ok q \<Longrightarrow> offsets_left q \<Longrightarrow> qu_Enqueue Q d q = (None, q') \<Longrightarrow>
      ok q' \<and> (\<exists>xs i. suffix xs (contents q) \<and> contents q' = xs @ [(i, d)])"
    and batch: "ok q \<Longrightarrow> qu_DequeueBatch Q n q = Some (Inr items, q') \<Longrightarrow>
      ok q' \<and> map (\<lambda>i. (qi_Offset i, qi_Data i)) items = take (nat n) (contents q)"
begin

text \<open>An accepted item is delivered by the next batch that is long enough.\<close>

lemma accepted_delivered:
  assumes "ok q" "offsets_left q" and "qu_Enqueue Q d q = (None, q1)" and "qu_DequeueBatch Q n q1 = Some (Inr items, q2)"
    and "length (contents q1) \<le> nat n"
  shows "items \<noteq> [] \<and> qi_Data (last items) = d"
proof -
  obtain xs i where x: "contents q1 = xs @ [(i, d)]" using enqueued[OF assms(1-3)] by blast
  then have m: "map (\<lambda>i. (qi_Offset i, qi_Data i)) items = xs @ [(i, d)]"
    using batch[OF _ assms(4)] enqueued[OF assms(1-3)] assms(5) by simp
  then have ne: "items \<noteq> []" by auto
  then have "last (map (\<lambda>i. (qi_Offset i, qi_Data i)) items) = (qi_Offset (last items), qi_Data (last items))" by (rule last_map)
  with m ne show ?thesis by simp
qed

end

locale retaining = fifo +
  assumes stays: "ok q \<Longrightarrow> qu_DequeueBatch Q n q = Some (Inr items, q') \<Longrightarrow> contents q' = contents q"
    and committed: "ok q \<Longrightarrow> items \<noteq> [] \<Longrightarrow> qu_DequeueBatch Q n q = Some (Inr items, q1) \<Longrightarrow>
      qu_Commit Q (qi_Offset (last items)) q1 = (None, q2) \<Longrightarrow> ok q2 \<and> contents q2 = drop (nat n) (contents q)"

locale draining = fifo +
  assumes gone: "ok q \<Longrightarrow> qu_DequeueBatch Q n q = Some (Inr items, q') \<Longrightarrow> contents q' = drop (nat n) (contents q)"

text \<open>Two consumers: one commits each batch, the other does not. An error or a panic ends the run with \<open>None\<close>.\<close>

fun commit_rounds :: "'q Queue \<Rightarrow> int \<Rightarrow> nat \<Rightarrow> 'q \<Rightarrow> (QueueItem list \<times> 'q) option" where
  "commit_rounds Q n 0 q = Some ([], q)"
| "commit_rounds Q n (Suc k) q =
     (case qu_DequeueBatch Q n q of
        Some (Inr items, q1) \<Rightarrow>
          if items = [] then Some ([], q1)
          else (case qu_Commit Q (qi_Offset (last items)) q1 of
              (None, q2) \<Rightarrow> map_option (\<lambda>(rest, q3). (items @ rest, q3)) (commit_rounds Q n k q2)
            | _ \<Rightarrow> None)
      | _ \<Rightarrow> None)"

fun receive_rounds :: "'q Queue \<Rightarrow> int \<Rightarrow> nat \<Rightarrow> 'q \<Rightarrow> (QueueItem list \<times> 'q) option" where
  "receive_rounds Q n 0 q = Some ([], q)"
| "receive_rounds Q n (Suc k) q =
     (case qu_DequeueBatch Q n q of
        Some (Inr items, q1) \<Rightarrow> map_option (\<lambda>(rest, q2). (items @ rest, q2)) (receive_rounds Q n k q1)
      | _ \<Rightarrow> None)"

context retaining
begin

text \<open>Committing every batch delivers each item once and in order.\<close>

lemma committed_once:
  assumes "ok q" and "commit_rounds Q n k q = Some (items, q')"
  shows "map (\<lambda>i. (qi_Offset i, qi_Data i)) items = take (k * nat n) (contents q) \<and> contents q' = drop (k * nat n) (contents q) \<and> ok q'"
  using assms
proof (induction k arbitrary: q items)
  case (Suc k)
  from Suc.prems(2) obtain b q1 where b: "qu_DequeueBatch Q n q = Some (Inr b, q1)" by (auto split: option.splits sum.splits)
  note bt = batch[OF Suc.prems(1) b]
  show ?case
  proof (cases "b = []")
    case True
    with Suc.prems(2) b have "items = []" "q' = q1" by simp_all
    moreover from True bt have "nat n = 0 \<or> contents q = []" by simp
    ultimately show ?thesis using bt stays[OF Suc.prems(1) b] by auto
  next
    case False
    with Suc.prems(2) b obtain q2 rest where c: "qu_Commit Q (qi_Offset (last b)) q1 = (None, q2)"
      and r: "commit_rounds Q n k q2 = Some (rest, q')" "items = b @ rest" by (auto split: option.splits prod.splits)
    note cm = committed[OF Suc.prems(1) False b c]
    from Suc.IH[OF conjunct1[OF cm] r(1)] cm bt r(2) show ?thesis by (simp add: take_add add.commute)
  qed
qed simp

text \<open>Without a commit the same items come again.\<close>

lemma repeated:
  assumes "ok q" and "qu_DequeueBatch Q n q = Some (Inr items, q1)" and "qu_DequeueBatch Q n q1 = Some (Inr items', q2)"
  shows "map qi_Data items' = map qi_Data items"
proof -
  have "map (\<lambda>i. (qi_Offset i, qi_Data i)) items' = map (\<lambda>i. (qi_Offset i, qi_Data i)) items"
    using batch[OF assms(1,2)] batch[OF _ assms(3)] stays[OF assms(1,2)] by auto
  then have "map snd (map (\<lambda>i. (qi_Offset i, qi_Data i)) items') = map snd (map (\<lambda>i. (qi_Offset i, qi_Data i)) items)" by simp
  then show ?thesis by (simp add: comp_def)
qed

end

context draining
begin

text \<open>Here receiving alone delivers each item once, so what is not handled before a crash is lost.\<close>

lemma received_once:
  assumes "ok q" and "receive_rounds Q n k q = Some (items, q')"
  shows "map (\<lambda>i. (qi_Offset i, qi_Data i)) items = take (k * nat n) (contents q) \<and> contents q' = drop (k * nat n) (contents q)"
  using assms
proof (induction k arbitrary: q items)
  case (Suc k)
  then obtain b q1 rest where b: "qu_DequeueBatch Q n q = Some (Inr b, q1)"
    and r: "receive_rounds Q n k q1 = Some (rest, q')" "items = b @ rest" by (auto split: option.splits sum.splits)
  have "ok q1" using batch[OF Suc.prems(1) b] by blast
  from Suc.IH[OF this r(1)] batch[OF Suc.prems(1) b] gone[OF Suc.prems(1) b] r(2) show ?case by (simp add: take_add add.commute)
qed simp

end

section \<open>The two implementations\<close>

definition badger_contents :: "('d \<Rightarrow> bytes \<rightharpoonup> bytes) \<Rightarrow> item_codec \<Rightarrow> 'd BadgerQueue \<times> 'd BadgerQueue option \<Rightarrow> (u64 \<times> bytes) list" where
  "badger_contents content ic s = map (\<lambda>(i, d). (of_nat i, d)) (queue_items ic content (fst s))"

definition mem_contents :: "MemoryQueue \<Rightarrow> (u64 \<times> bytes) list" where
  "mem_contents q = map (\<lambda>i. (qi_Offset i, qi_Data i)) (mq_ch q)"

lemma suffix_map: "suffix xs ys \<Longrightarrow> suffix (map f xs) (map f ys)"
  by (auto simp: suffix_def)

interpretation memory_queue: draining mem_Queue mem_contents "\<lambda>q. mem_ok q \<and> \<not> mq_closed q" "\<lambda>_. True"
proof unfold_locales
  fix q d q' assume ok: "mem_ok q \<and> \<not> mq_closed q" and e: "qu_Enqueue mem_Queue d q = (None, q')"
  then have e': "mem_Enqueue d q = (None, q')" by (simp add: mem_Queue_def)
  have "mem_ok q'" by (rule mem_Enqueue_ok[OF conjunct1[OF ok] e'])
  moreover have "suffix (map f (tl xs)) (map f xs)" for f :: "QueueItem \<Rightarrow> u64 \<times> bytes" and xs
    by (rule suffix_map) (rule suffix_tl)
  ultimately show "(mem_ok q' \<and> \<not> mq_closed q') \<and> (\<exists>xs i. suffix xs (mem_contents q) \<and> mem_contents q' = xs @ [(i, d)])"
    using e' ok by (auto simp: mem_Enqueue_cases Let_def mem_contents_def split: if_splits)
next
  fix q n items q' assume ok: "mem_ok q \<and> \<not> mq_closed q" and b: "qu_DequeueBatch mem_Queue n q = Some (Inr items, q')"
  then have b': "mem_DequeueBatch n q = Some (items, q')" by (auto simp: mem_Queue_def)
  note d = mem_DequeueBatch_open[OF conjunct2[OF ok] b']
  then show "mem_contents q' = drop (nat n) (mem_contents q)" by (simp add: mem_contents_def drop_map)
  have f: "mq_cap q' = mq_cap q" "mq_writeOffset q' = mq_writeOffset q" "mq_closed q' = mq_closed q"
    using b' by (auto simp: mem_DequeueBatch_def Let_def split: if_splits prod.splits)
  have "\<exists>d'. numbered d' (drop k xs) w" if "numbered d xs w" for k d xs w
    using that by (induction k arbitrary: d xs) (auto, metis drop_Suc_Cons list.exhaust numbered.simps(2) drop_Nil)
  with ok d f show "(mem_ok q' \<and> \<not> mq_closed q') \<and> map (\<lambda>i. (qi_Offset i, qi_Data i)) items = take (nat n) (mem_contents q)"
    by (auto simp: mem_ok_def mem_contents_def take_map)
qed

text \<open>The Badger queue on any database with the contract \<open>kv_store\<close>, with a codec that gives back what it was given.\<close>

lemma later_items_suffix:
  assumes "queue_inv content q"
  shows "suffix (filter (\<lambda>(i, _). unat (bq_readOffset q) < i) (queue_items ic content q)) (queue_items ic content q)"
proof -
  let ?r = "unat (bq_readOffset q)" and ?w = "unat (bq_writeOffset q)"
  show ?thesis
  proof (cases "?r < ?w")
    case True
    then have "Suc ?r \<le> ?w" by simp
    with slots_suffix[of ?r "Suc ?r" ?w] slots_append[of ?r "Suc ?r" ?w] show ?thesis
      by (simp add: queue_items_def Suc_le_eq) (metis suffixI)
  qed (simp add: queue_items_def slots_def)
qed

locale stored_items = kv_store +
  fixes ic :: item_codec
  assumes codec: "item_roundtrip ic"

sublocale stored_items < badger_queue: retaining "badger_Queue kv ic marshal now" "badger_contents content ic"
  "\<lambda>s. queue_inv content (fst s)" "\<lambda>s. has_offsets (fst s)" for marshal now
proof unfold_locales
  fix s d s' assume "queue_inv content (fst s)" "has_offsets (fst s)" "qu_Enqueue (badger_Queue kv ic marshal now) d s = (None, s')"
  moreover from this have e: "badger_Enqueue kv ic now d (fst s) = (None, fst s')"
    by (auto simp: badger_Queue_def split: prod.splits)
  ultimately have r: "queue_inv content (fst s')" "queue_items ic content (fst s') =
      (if checkCapacity (fst s) = None then queue_items ic content (fst s)
       else filter (\<lambda>(i, _). unat (bq_readOffset (fst s)) < i) (queue_items ic content (fst s))) @ [(unat (bq_writeOffset (fst s)), d)]"
    using Enqueue_refines[OF _ _ codec e] by simp_all
  have "suffix (filter (\<lambda>(i, _). unat (bq_readOffset (fst s)) < i) (queue_items ic content (fst s))) (queue_items ic content (fst s))"
    by (rule later_items_suffix) fact
  with r show "queue_inv content (fst s') \<and> (\<exists>xs i. suffix xs (badger_contents content ic s) \<and> badger_contents content ic s' = xs @ [(i, d)])"
    unfolding badger_contents_def by (auto intro!: suffix_map)
next
  fix s n items s' assume inv: "queue_inv content (fst s)" and b: "qu_DequeueBatch (badger_Queue kv ic marshal now) n s = Some (Inr items, s')"
  then have "badger_DequeueBatch kv ic now n (fst s) = (Inr items, fst s')" by (auto simp: badger_Queue_def split: prod.splits)
  note r = DequeueBatch_refines[OF this]
  then show "badger_contents content ic s' = badger_contents content ic s" by (simp add: badger_contents_def)
  have "map (\<lambda>i. (qi_Offset i, qi_Data i)) items = map (\<lambda>(i, d). (of_nat i, d)) (map (\<lambda>i. (unat (qi_Offset i), qi_Data i)) items)"
    by (simp add: comp_def)
  with r inv show "queue_inv content (fst s') \<and> map (\<lambda>i. (qi_Offset i, qi_Data i)) items = take (nat n) (badger_contents content ic s)"
    by (simp add: badger_contents_def take_map)
next
  fix s n items s1 s2 assume inv: "queue_inv content (fst s)" and ne: "items \<noteq> []"
    and b: "qu_DequeueBatch (badger_Queue kv ic marshal now) n s = Some (Inr items, s1)"
    and c: "qu_Commit (badger_Queue kv ic marshal now) (qi_Offset (last items)) s1 = (None, s2)"
  have "badger_DequeueBatch kv ic now n (fst s) = (Inr items, fst s1)" "badger_Commit kv (qi_Offset (last items)) (fst s1) = (None, fst s2)"
    using b c by (auto simp: badger_Queue_def split: prod.splits)
  from dequeue_commit_refines[OF inv this(1) ne this(2)]
  show "queue_inv content (fst s2) \<and> badger_contents content ic s2 = drop (nat n) (badger_contents content ic s)"
    by (simp add: badger_contents_def drop_map)
qed

interpretation stored: stored_items "sized_kv fits" map_of plain_items for fits
  by unfold_locales (auto simp: item_roundtrip_def plain_items_def split: if_splits)

end
