(* ===== verification/Spec2Isabelle.thy ===== *)
theory Spec2Isabelle
  imports Webhook_Concurrency Linker_Main Send_Command Queue_Interface
begin

text \<open>
  A model of \<open>linker-agent\<close>, the agent that joins usage events with billing records under synthetic
  identifiers, exports the resulting edges and takes signed commands from its control plane.

  \<^bold>\<open>How the program fits together.\<close> \<open>main.go\<close> loads a configuration (\<open>internal/config\<close>) and runs in one of three
  modes. The linker mode reads subscriptions and invoices through the rate-limited Stripe client
  (\<open>internal/connectors/stripe\<close>), replaces every platform identifier by a keyed hash (\<open>internal/crypto\<close>), runs
  the pipeline (\<open>internal/pipeline\<close>) over three matchers and their ensemble (\<open>internal/matchers\<close>) and hands the
  accepted edges to the exporter (\<open>internal/exporter\<close>), whose bounded queues a worker per stream empties into
  batches. The export mode does the same without matching. The server mode answers Stripe webhooks
  (\<open>internal/ingest/stripewebhook\<close>), whose jobs a worker turns into pipeline runs, and beside it runs the agent
  (\<open>internal/agent\<close>, \<open>internal/agentid\<close>, \<open>internal/state\<close>), its heartbeat (\<open>internal/heartbeat\<close>) and its command
  poller (\<open>internal/polling\<close>). \<open>internal/control\<close> and \<open>cmd/send-command\<close> are a second, direct command channel, and
  \<open>internal/queue\<close> holds durable queues with a dead-letter queue; \<open>main.go\<close> uses neither yet.

  \<^bold>\<open>Theories.\<close>
  \<^item> \<open>Prelude\<close>: names of the Go types, the loop combinators for Go's loops with an early error return, sums.
  \<^item> \<open>Go_Text\<close>, \<open>Go_Encoding\<close>, \<open>Go_Sha256\<close>, \<open>Go_Float\<close>, \<open>Go_Time\<close>, \<open>Go_Duration\<close>, \<open>Go_Net\<close>, \<open>Go_Files\<close>: the parts of Go's
    standard library the code calls, defined (strings and numbers, hex and base64, SHA-256 and HMAC, binary64
    with rounding to nearest even, saturating time differences, CIDR ranges, files with faults).
  \<^item> \<open>Crypto\<close>: \<open>crypto.go\<close>, \<open>id.go\<close>, \<open>mapper.go\<close>. The interface \<open>IDMapper\<close> is the locale \<open>id_mapper\<close>, extended by
    \<open>strict_mapper\<close> and \<open>passthrough_mapper\<close>, all interpreted on the code's two mappers.
  \<^item> \<open>Stripe_Sanitize\<close>, \<open>Stripe_Client\<close>: \<open>sanitize.go\<close>, \<open>to_lite.go\<close>, \<open>stripe.go\<close> and \<open>internal/models\<close>.
  \<^item> \<open>Matchers\<close> (\<open>matcher.go\<close>; the interface \<open>Matcher\<close> is the locale \<open>matcher\<close>), \<open>Deterministic\<close>, \<open>Temporal\<close>,
    \<open>Sku_Overlap\<close>, \<open>Ensemble\<close>: \<open>internal/matchers\<close>, one theory per file.
  \<^item> \<open>Exporter_Queue\<close>, \<open>Exporter\<close>: \<open>internal/exporter\<close>; \<open>Export_Stream\<close>: a stream of the running exporter, that is its
    queue, its worker's select and \<open>Shutdown\<close>, as a machine that refines the queue. \<open>Config\<close>: \<open>internal/config\<close>.
    \<open>Pipeline\<close>: \<open>internal/pipeline\<close>.
  \<^item> \<open>Linking\<close>, \<open>Linker_Run\<close>, \<open>Webhook_Server\<close>, \<open>Linker_Main\<close>: \<open>main.go\<close>, that is the ensemble and the seed events, the
    one-shot modes, what \<open>runWebhookServer\<close> builds and runs, as a state with one event per request, job-loop turn,
    heartbeat tick and poll cycle, and \<open>main\<close> itself: flags, modes, routes, signal, shutdown and exit.
  \<^item> \<open>Once\<close>: the locale \<open>once\<close> of a component that admits a key at most once, interpreted on the webhook
    handler's seen set and on the control channel's nonce cache.
  \<^item> \<open>Webhook_Verify\<close>, \<open>Webhook_Handler\<close>, \<open>Webhook_Worker\<close>: \<open>verify.go\<close>, \<open>handler.go\<close> with \<open>metrics.go\<close>, \<open>worker.go\<close>;
    \<open>Webhook_Concurrency\<close>: the handler as a step relation over parallel requests.
  \<^item> \<open>Agent_State\<close> (\<open>state.go\<close>, \<open>agentid.go\<close>), \<open>Agent\<close> (\<open>agent.go\<close>), \<open>Command_Handlers\<close> (\<open>polling/handlers.go\<close>,
    \<open>control/handlers.go\<close>; the interface \<open>AgentController\<close> is the locale \<open>mode_controller\<close>), \<open>Heartbeat\<close>
    (\<open>heartbeat.go\<close>, \<open>heartbeat_sender.go\<close>), \<open>Polling\<close> (\<open>poller.go\<close>), \<open>Control\<close> (\<open>control.go\<close>, \<open>server.go\<close>),
    \<open>Send_Command\<close> (\<open>cmd/send-command\<close>, \<open>cmd/check-status\<close>).
  \<^item> \<open>Kv_Store\<close>: the contract of BadgerDB as the locale \<open>kv_store\<close>, shown satisfiable on an association list;
    \<open>Durable_Queue\<close> (\<open>queue.go\<close>, \<open>badger_queue.go\<close>), \<open>Queue_Refinement\<close> (the abstract list of numbered items and
    the simulation of every method), \<open>Queue_Concurrency\<close> (the same queue under parallel calls, as a step relation),
    \<open>Memory_Queue\<close> (\<open>memory_queue.go\<close>), \<open>Dlq\<close> (\<open>dlq.go\<close>), \<open>Queue_Interface\<close> (the interface \<open>Queue\<close> as the locale \<open>fifo\<close>
    with its extensions \<open>retaining\<close>, which the Badger queue keeps, and \<open>draining\<close>, which the in-memory queue keeps).

  \<^bold>\<open>Conventions.\<close> Structs are records, errors are datatypes carried by sums or options, panics and fatal exits are
  values; \<open>int64\<close> and \<open>uint64\<close> are 64-bit words read by \<open>sint\<close> and \<open>unat\<close>; strings are byte strings; a pointer or
  nilable value is an option. A Go map that is iterated is an association list together with an order of
  iteration that is an argument, so a theorem holds for every order. JSON and YAML, the network, the file
  system's faults, the clock, randomness, the environment, the Stripe SDK and BadgerDB are arguments. A receive
  or tick that Go's scheduler chooses is an event of a list or a step of a relation, and the theorems range
  over all of them.

  \<^bold>\<open>What is shown.\<close> C1 to C4: what the ensemble accepts and what an accepted edge says; C5 and C6: the indexed
  matchers equal their nested-loop references, and the confidence curve in binary64; C7 and C8: privacy and totality
  of the pipeline; C9 to C11: a stream of the exporter from the producers to the sinks, what its shutdown can leave
  behind, retries; C12: validation yields the invariant \<open>config_valid\<close> and is idempotent; C13: the mapper contract;
  C14 and C15: the linker mode completes and exports no platform identifier; C16 to C22: webhook signatures,
  authentication, accounting, exactly-once processing under concurrency, refinement of the machine, the worker's
  retries and backoff; C23 to C25: the running server, what a remote restart leaves of it and the end of its process; C26 to C28: replay protection, the
  round trip from the command line to the handler, unsigned requests; C29 to C34: persistence of the mode, atomic
  saves, stable identity, the poller, heartbeats; C35 to C39: the durable queue refines a list, across restarts, and
  what parallel calls keep and lose; C40: the rate limiter. The theorems without a number are facts of one
  component on which the others build or which they generalise.

  \<^bold>\<open>Fuel.\<close> Three loops of the code have no bound of their own and take fuel: the wait of the rate limiter
  (\<open>acquire\<close>; enough once the clock has moved a second, C40), the recursion of \<open>pollOnce\<close> (\<open>Suc\<close> of the number of
  commands the server gives out is enough, C33; with less it returns the prefix it did, marked as not ended, and C32
  holds of every prefix), and the loop of \<open>PurgeOlderThan\<close> (\<open>purge_loop\<close> in \<open>Dlq\<close>, which can run for
  ever in the code too). The retry loops of the exporter and the webhook worker recurse on the attempts left.

  \<^bold>\<open>Not modelled.\<close> Interleavings inside one call of the in-memory queue, whose \<open>Enqueue\<close> and \<open>Close\<close> exclude each
  other by a mutex; \<open>net/http\<close> below the handlers (connections, timeouts, mux patterns with wildcards, hosts or methods);
  panics of \<open>make\<close> for capacities no machine can allocate; sleeps and logging; the Helm charts and scripts. The
  one-shot modes of \<open>Linker_Run\<close> enqueue without the workers receiving in between; C15 carries what they offer over
  to every schedule of \<open>Export_Stream\<close>.
\<close>

section \<open>Matching\<close>

text \<open>C1. Under the default recipe no edge is accepted on circumstantial evidence from one matcher: an
  accepted edge has deterministic evidence, or it is a user-to-subscription edge with both temporal and
  SKU evidence. This holds for every input, every salt and every map iteration order.\<close>

theorem default_policy_sound:
  assumes "map_order_ok ord" and "default_policy r"
    and "run_matchers (en_Matchers (linker_ensemble salt r)) inp [] [] = Inr (counts, es)"
    and "x \<in> set (Combine ord (linker_ensemble salt r) es)"
  shows "(\<exists>g\<in>set (evidence_for es (edge_key x)). det_evidence g)
    \<or> le_Kind x = kind_subscription
      \<and> (\<exists>g\<in>set (evidence_for es (edge_key x)). temporal_evidence g)
      \<and> (\<exists>g\<in>set (evidence_for es (edge_key x)). sku_evidence g)"
  using assms by (rule accepted_evidence)

definition demo_recipe :: MatcherRecipe where
  "demo_recipe = \<lparr>mr_Name = ''default'', mr_Version = ''v1'', mr_Weights = Some default_weights,
     mr_Threshold = lit_08, mr_TemporalWindowSec = 3600, mr_SKUOverlapMin = lit_05\<rparr>"

lemma demo_recipe_policy: "default_policy demo_recipe"
  by (simp add: demo_recipe_def default_policy_def)

definition demo_inputs :: Inputs where
  "demo_inputs = \<lparr>in_Usages = [\<lparr>us_User = ''syn_cust_1'', us_Feature = ''f'', us_SKU = [], us_At = 5000\<rparr>],
     in_Subs = [], in_Invs = [\<lparr>il_ID = ''syn_inv_1'', il_Customer = ''syn_cust_1'', il_Subscription = [],
       il_Total = 10, il_Currency = ''usd'', il_Status = ''paid'', il_CreatedAt = 1000000, il_Paid = True\<rparr>]\<rparr>"

lemma demo_raw:
  obtains counts es g where "run_matchers (en_Matchers (linker_ensemble ''salt'' demo_recipe)) demo_inputs [] [] = Inr (counts, es)"
    "g \<in> set es" "det_evidence g" "le_From g = ''syn_cust_1''" "le_To g = ''syn_inv_1''"
proof -
  have "is_ok (run_matchers (en_Matchers (linker_ensemble ''salt'' demo_recipe)) demo_inputs [] [])"
    by (simp add: linker_run_matchers_ok)
  then obtain counts es where run: "run_matchers (en_Matchers (linker_ensemble ''salt'' demo_recipe)) demo_inputs [] [] = Inr (counts, es)"
    unfolding is_ok_iff by auto
  let ?m = "\<lparr>det_TenantSalt = ''salt'', det_IDMapper = None\<rparr>"
  obtain g where g: "det_Match ?m (in_Usages demo_inputs) (in_Subs demo_inputs) (in_Invs demo_inputs) = Inr [g]"
    "le_From g = ''syn_cust_1''" "le_To g = ''syn_inv_1''"
    unfolding det_Match_eq_ref det_Match_ref_def
    by (simp add: demo_inputs_def det_inv_edges_def det_edge_def det_generateProof_def HMACSHA256Hex_Inr)
  have m: "det_matcher ?m \<in> set (en_Matchers (linker_ensemble ''salt'' demo_recipe))"
    by (simp add: linker_ensemble_def Let_def)
  from run_matchers_contains[OF run m, of "[g]"] g(1) have "g \<in> set es" by (simp add: det_matcher_def)
  then show thesis using that run det_Match_evidence[OF g(1)] g(2,3) by simp
qed


theorem default_policy_sound_witness:
  "\<exists>counts es x. run_matchers (en_Matchers (linker_ensemble ''salt'' demo_recipe)) demo_inputs [] [] = Inr (counts, es)
     \<and> x \<in> set (Combine insertion_order (linker_ensemble ''salt'' demo_recipe) es)
     \<and> ((\<exists>g\<in>set (evidence_for es (edge_key x)). det_evidence g)
        \<or> le_Kind x = kind_subscription
          \<and> (\<exists>g\<in>set (evidence_for es (edge_key x)). temporal_evidence g)
          \<and> (\<exists>g\<in>set (evidence_for es (edge_key x)). sku_evidence g))"
proof -
  obtain counts es g where run: "run_matchers (en_Matchers (linker_ensemble ''salt'' demo_recipe)) demo_inputs [] [] = Inr (counts, es)"
    and g: "g \<in> set es" "det_evidence g" by (rule demo_raw)
  obtain x where "x \<in> set (Combine insertion_order (linker_ensemble ''salt'' demo_recipe) es)"
    using deterministic_accepted[OF insertion_order_ok demo_recipe_policy g, of "''salt''"] by blast
  with run default_policy_sound[OF insertion_order_ok demo_recipe_policy run this] show ?thesis by blast
qed

text \<open>C2. Deterministic evidence is always enough: every raw edge of the deterministic matcher leads to an
  accepted edge with the same endpoints and kind and with confidence exactly 1.\<close>

theorem deterministic_evidence_accepted:
  assumes "map_order_ok ord" and "default_policy r"
    and "run_matchers (en_Matchers (linker_ensemble salt r)) inp [] [] = Inr (counts, es)"
    and "g \<in> set es" and "le_Recipe g = ''deterministic_id/v1''"
  shows "\<exists>x\<in>set (Combine ord (linker_ensemble salt r) es). edge_key x = edge_key g \<and> le_Confidence x = Fin 1"
proof -
  have "det_evidence g" using linker_raw_evidence[OF assms(3,4)] assms(5) by (auto dest: evidence_recipes)
  from deterministic_accepted[OF assms(1,2,4) this] show ?thesis by (simp add: f_const_1)
qed

theorem deterministic_evidence_accepted_witness:
  "\<exists>counts es g. run_matchers (en_Matchers (linker_ensemble ''salt'' demo_recipe)) demo_inputs [] [] = Inr (counts, es)
     \<and> g \<in> set es \<and> le_From g = ''syn_cust_1'' \<and> le_To g = ''syn_inv_1''
     \<and> (\<exists>x\<in>set (Combine insertion_order (linker_ensemble ''salt'' demo_recipe) es).
          edge_key x = edge_key g \<and> le_Confidence x = Fin 1)"
proof -
  obtain counts es g where run: "run_matchers (en_Matchers (linker_ensemble ''salt'' demo_recipe)) demo_inputs [] [] = Inr (counts, es)"
    and g: "g \<in> set es" "det_evidence g" "le_From g = ''syn_cust_1''" "le_To g = ''syn_inv_1''" by (rule demo_raw)
  with deterministic_evidence_accepted[OF insertion_order_ok demo_recipe_policy run g(1) evidence_recipes(1)[OF g(2)]]
  show ?thesis by blast
qed

text \<open>C3. \<open>Combine\<close>, for any recipe: the keys of its output are exactly the keys of the input whose weighted
  score is not below the threshold, each once; the output is sorted by descending confidence and then
  by source; every confidence is a number in [0, 1].\<close>

theorem Combine_correct:
  assumes "map_order_ok ord"
  shows "edge_key ` set (Combine ord e es)
       = {k \<in> edge_key ` set es. \<not> f_less (score_for ord e es k) (rc_Threshold (en_Recipe e))}
    \<and> distinct (map edge_key (Combine ord e es))
    \<and> sorted_wrt (\<lambda>a b. \<not> edge_before b a) (Combine ord e es)
    \<and> (\<forall>x\<in>set (Combine ord e es). unit_interval (le_Confidence x))"
  using Combine_keys[OF assms] Combine_distinct[OF assms] Combine_sorted[OF assms] Combine_confidence[OF assms]
  by (auto simp: unit_interval_def)

definition demo_edge :: "string \<Rightarrow> string \<Rightarrow> LinkEdge" where
  "demo_edge from recipe = \<lparr>le_Meta = no_meta, le_From = from, le_To = ''syn_inv_1'', le_Kind = kind_invoice,
     le_Confidence = Fin 1, le_Proof = ''p'', le_Recipe = recipe, le_At = 7, le_Notes = ''n''\<rparr>"

theorem Combine_correct_witness:
  "edge_key ` set (Combine insertion_order (linker_ensemble ''s'' demo_recipe) [demo_edge ''a'' ''deterministic_id/v1'', demo_edge ''b'' ''other/v1''])
     = {k \<in> edge_key ` set [demo_edge ''a'' ''deterministic_id/v1'', demo_edge ''b'' ''other/v1''].
          \<not> f_less (score_for insertion_order (linker_ensemble ''s'' demo_recipe)
               [demo_edge ''a'' ''deterministic_id/v1'', demo_edge ''b'' ''other/v1''] k) lit_08}"
  using Combine_correct[OF insertion_order_ok, of "linker_ensemble ''s'' demo_recipe"
      "[demo_edge ''a'' ''deterministic_id/v1'', demo_edge ''b'' ''other/v1'']"]
  by (simp add: recipe_of_def demo_recipe_def)

text \<open>C4. What an accepted edge says: its time is the latest of its evidence, its confidence is the weighted
  score capped at 1, it names the recipe; with a tenant salt its proof is the HMAC over its endpoints, its kind and the
  sorted proofs of exactly the evidence for its key (without one, the proof of a most confident piece), and its notes
  are the distinct non-empty notes of that evidence in order with the score, cut to 200 bytes.\<close>

theorem Combine_edge_contents:
  assumes "map_order_ok ord" and "x \<in> set (Combine ord e es)"
  shows "evidence_for es (edge_key x) \<noteq> []
    \<and> sint (le_At x) = Max ((\<lambda>g. sint (le_At g)) ` set (evidence_for es (edge_key x)))
    \<and> le_Confidence x = (if f_less (Fin 1) (score_for ord e es (edge_key x)) then Fin 1
         else score_for ord e es (edge_key x))
    \<and> notes_of_evidence (evidence_for es (edge_key x)) (score_for ord e es (edge_key x)) (le_Notes x)
    \<and> length (le_Notes x) \<le> 200
    \<and> le_Recipe x = rc_Name (en_Recipe e) @ ''/'' @ rc_Version (en_Recipe e)
    \<and> proof_of_evidence (en_TenantSalt e) (edge_key x) (evidence_for es (edge_key x)) (le_Proof x)
    \<and> (en_TenantSalt e \<noteq> [] \<longrightarrow> length (le_Proof x) = 64)"
proof -
  have n: "map le_Notes (evidence_for es (edge_key x)) \<noteq> []" using Combine_evidence(2)[OF assms] by simp
  have "le_Recipe x = rc_Name (en_Recipe e) @ ''/'' @ rc_Version (en_Recipe e)"
    using assms(2)[unfolded Combine_mem[OF assms(1)]] by (elim exE conjE) simp
  with Combine_evidence[OF assms] consolidateNotes_length[OF n] show ?thesis
    by (auto simp: f_const_1 dest: proof_of_evidence_length)
qed

theorem Combine_edge_contents_witness:
  "\<exists>x\<in>set (Combine insertion_order (linker_ensemble ''s'' demo_recipe) [demo_edge ''a'' ''deterministic_id/v1'']).
     length (le_Notes x) \<le> 200 \<and> length (le_Proof x) = 64 \<and> le_Recipe x = ''default/v1''"
proof -
  have d: "det_evidence (demo_edge ''a'' ''deterministic_id/v1'')" by (simp add: det_evidence_def demo_edge_def)
  obtain x where x: "x \<in> set (Combine insertion_order (linker_ensemble ''s'' demo_recipe) [demo_edge ''a'' ''deterministic_id/v1''])"
    using deterministic_accepted[OF insertion_order_ok demo_recipe_policy _ d, of "[demo_edge ''a'' ''deterministic_id/v1'']" "''s''"]
    by auto
  from Combine_edge_contents[OF insertion_order_ok x] x show ?thesis
    by (intro bexI[of _ x]) (simp_all add: recipe_of_def demo_recipe_def)
qed

text \<open>C5. The matchers' indexes are optimisations of nested loops: for every input the deterministic matcher returns
  what comparing each event with each billing object returns, errors included, and the SKU matcher what scanning the
  subscriptions returns, a subscription counting once per occurrence of the event's SKU among its prices and products.\<close>

theorem matcher_indexes_correct:
  "det_Match m us ss is = det_Match_ref m us ss is \<and> sku_Match m' us ss is = sku_Match_ref m' us ss"
  by (simp add: det_Match_eq_ref sku_Match_eq_ref)

text \<open>C6. The temporal confidence, in binary64 and for every pair of 64-bit timestamps and every window, is
  between 0 and the literal 0.6. For a positive window it never grows with the difference the code computes, which is
  the distance of the timestamps whenever that is below \<open>2 ^ 63\<close> and wraps beyond. Equal timestamps score exactly 0.6;
  the boundary of the window still counts as within it and scores exactly 0, so an edge of confidence 0 is possible.\<close>

theorem temporal_confidence_correct:
  "(\<exists>q. calculateConfidence m a b = Fin q \<and> 0 \<le> q \<and> q \<le> base06)
   \<and> (0 < sint (tm_WindowSec m) \<and> sint (abs_diff a b) \<le> sint (abs_diff a' b')
        \<longrightarrow> \<not> f_less (calculateConfidence m a b) (calculateConfidence m a' b'))
   \<and> (0 < sint (tm_WindowSec m) \<and> sub_fits a b \<and> sub_fits a' b' \<and> \<bar>sint a - sint b\<bar> \<le> \<bar>sint a' - sint b'\<bar>
        \<longrightarrow> \<not> f_less (calculateConfidence m a b) (calculateConfidence m a' b'))
   \<and> (tm_WindowSec m \<noteq> 0 \<longrightarrow> calculateConfidence m a a = lit_06)
   \<and> (abs_diff a b = tm_WindowSec m \<longrightarrow> calculateConfidence m a b = Fin 0)
   \<and> (0 < sint (tm_WindowSec m) \<and> abs_diff a b = tm_WindowSec m \<longrightarrow> Within a b (tm_WindowSec m))"
proof -
  obtain q q' where q: "calculateConfidence m a b = Fin q" "calculateConfidence m a' b' = Fin q'"
    using calculateConfidence_range[of m a b] calculateConfidence_range[of m a' b'] by auto
  have mono: "\<not> f_less (calculateConfidence m a b) (calculateConfidence m a' b')"
    if "0 < sint (tm_WindowSec m) \<and> sint (abs_diff a b) \<le> sint (abs_diff a' b')"
    using calculateConfidence_antimono[OF conjunct1[OF that] conjunct2[OF that] q] q by simp
  have "0 < sint (tm_WindowSec m) \<and> abs_diff a b = tm_WindowSec m \<longrightarrow> Within a b (tm_WindowSec m)"
    by (auto simp: Within_def abs_diff_def Let_def)
  with mono show ?thesis
    using calculateConfidence_range[of m a b] calculateConfidence_same[of m a] calculateConfidence_boundary[of a b m]
      abs_diff_exact[of a b] abs_diff_exact[of a' b']
    by (auto simp: f_const_0)
qed

theorem temporal_confidence_correct_witness:
  "calculateConfidence \<lparr>tm_WindowSec = 3600, tm_TenantSalt = []\<rparr> 100 100 = lit_06
   \<and> calculateConfidence \<lparr>tm_WindowSec = 3600, tm_TenantSalt = []\<rparr> 3700 100 = Fin 0
   \<and> \<not> f_less (calculateConfidence \<lparr>tm_WindowSec = 3600, tm_TenantSalt = []\<rparr> 160 100)
        (calculateConfidence \<lparr>tm_WindowSec = 3600, tm_TenantSalt = []\<rparr> 400 100)"
  using temporal_confidence_correct[of "\<lparr>tm_WindowSec = 3600, tm_TenantSalt = []\<rparr>" 100 100 400 100]
    temporal_confidence_correct[of "\<lparr>tm_WindowSec = 3600, tm_TenantSalt = []\<rparr>" 3700 100 400 100]
    temporal_confidence_correct[of "\<lparr>tm_WindowSec = 3600, tm_TenantSalt = []\<rparr>" 160 100 400 100]
  by (simp add: abs_diff_def)

section \<open>The pipeline\<close>

text \<open>C7. Privacy of the pipeline: when a run of the wired matchers succeeds, both endpoints of every edge
  it returns (and so of every edge it exports) are synthetic identifiers, never platform identifiers.\<close>

theorem pipeline_edges_synthetic:
  assumes "map_order_ok ord" and "Run marshal ord (linker_ensemble salt r) sink inp = (Inr res, sink')"
    and "x \<in> set (rs_Edges res)"
  shows "IsSyntheticID (le_From x) \<and> IsSyntheticID (le_To x)
    \<and> \<not> IsStripePlatformID (le_From x) \<and> \<not> IsStripePlatformID (le_To x)"
  using Run_edges_synthetic[OF assms(1) _ assms(2,3)] linker_ensemble_matchers[of _ salt r] synthetic_not_platform
  by blast

lemma demo_run:
  obtains res where "Run marshal insertion_order (linker_ensemble ''salt'' demo_recipe) None demo_inputs = (Inr res, None)"
    and "\<exists>x\<in>set (rs_Edges res). le_From x = ''syn_cust_1'' \<and> le_To x = ''syn_inv_1''"
proof -
  obtain counts es g where run: "run_matchers (en_Matchers (linker_ensemble ''salt'' demo_recipe)) demo_inputs [] [] = Inr (counts, es)"
    and g: "g \<in> set es" "det_evidence g" "le_From g = ''syn_cust_1''" "le_To g = ''syn_inv_1''" by (rule demo_raw)
  have v: "validateInputs demo_inputs = None"
    unfolding validateInputs_None by (simp add: inputs_synthetic_def demo_inputs_def synthetic_or_none_def)
  obtain x where x: "x \<in> set (Combine insertion_order (linker_ensemble ''salt'' demo_recipe) es)" "edge_key x = edge_key g"
    using deterministic_accepted[OF insertion_order_ok demo_recipe_policy g(1,2)] by blast
  then have "le_From x = ''syn_cust_1''" "le_To x = ''syn_inv_1''" using g by (simp_all add: edge_key_def)
  with x(1) show thesis using that by (auto simp: Run_def v run Let_def)
qed

theorem pipeline_edges_synthetic_witness:
  "\<exists>res x. Run (\<lambda>_. None) insertion_order (linker_ensemble ''salt'' demo_recipe) None demo_inputs = (Inr res, None)
     \<and> x \<in> set (rs_Edges res) \<and> IsSyntheticID (le_From x) \<and> \<not> IsStripePlatformID (le_To x)"
proof -
  obtain res where run: "Run (\<lambda>_. None) insertion_order (linker_ensemble ''salt'' demo_recipe) None demo_inputs = (Inr res, None)"
    and "\<exists>x\<in>set (rs_Edges res). le_From x = ''syn_cust_1'' \<and> le_To x = ''syn_inv_1''" by (rule demo_run)
  then obtain x where x: "x \<in> set (rs_Edges res)" by blast
  from pipeline_edges_synthetic[OF insertion_order_ok run x] run x show ?thesis by blast
qed

text \<open>C8. The pipeline fails only for the reasons it names: with a tenant salt, valid inputs and no exporter
  (or one whose edges stream is configured, and edges that marshal) a run succeeds, and its exporter has
  enqueued exactly the accepted edges in order.\<close>

theorem pipeline_total:
  assumes "salt \<noteq> []" and "validateInputs inp = None"
    and "case sink of None \<Rightarrow> True | Some x \<Rightarrow> StreamEdges \<in> fst ` set (ex_streams x)
           \<and> validateStreamConfig x StreamEdges = None \<and> (\<forall>e. marshal e \<noteq> None)"
  shows "\<exists>res sink'. Run marshal ord (linker_ensemble salt r) sink inp = (Inr res, sink')
    \<and> (case sink of None \<Rightarrow> sink' = None
       | Some x \<Rightarrow> \<exists>x'. sink' = Some x' \<and> map_of (ex_streams x') StreamEdges
           = map_option (fold (\<lambda>e. enqueue (the (marshal e))) (rs_Edges res)) (map_of (ex_streams x) StreamEdges))"
  using assms by (rule linker_Run_total)

definition demo_export :: Export where
  "demo_export = \<lparr>xp_Mode = ''http'', xp_Endpoint = [], xp_FilePath = [],
     xp_HTTP = \<lparr>xh_BaseURL = ''https://api.connektn.io'', xh_Routes = Some [(''edges'', ''/ingest/edges'')],
       xh_Headers = \<lparr>eh_AuthorizationEnv = []\<rparr>, xh_MaxRetries = 3, xh_BatchSize = 50, xh_FlushEvery = seconds 5\<rparr>,
     xp_File = \<lparr>xf_Paths = None\<rparr>\<rparr>"

definition demo_exporter :: Exporter where
  "demo_exporter = \<lparr>ex_cfg = demo_export, ex_tenantKey = ''key'', ex_maxRetries = 3,
     ex_streams = map (\<lambda>s. (s, newQueue 250)) [StreamEdges, StreamBilling, StreamUsage],
     ex_batchSize = 50, ex_flushEvery = seconds 5\<rparr>"

theorem pipeline_total_witness:
  "\<exists>res sink'. Run (\<lambda>e. Some (le_Proof e)) insertion_order (linker_ensemble ''salt'' demo_recipe) (Some demo_exporter) demo_inputs
      = (Inr res, sink')"
proof -
  have "validateInputs demo_inputs = None"
    unfolding validateInputs_None by (simp add: inputs_synthetic_def demo_inputs_def synthetic_or_none_def)
  from pipeline_total[where inp = demo_inputs and salt = "''salt''" and sink = "Some demo_exporter"
      and marshal = "\<lambda>e. Some (le_Proof e)" and ord = insertion_order and r = demo_recipe, OF _ this]
  show ?thesis
    by (auto simp: demo_exporter_def demo_export_def validateStreamConfig_def mode_http_def mode_file_def
        map_get_def StreamEdges_def)
qed

text \<open>The statistics of a successful run are consistent: the raw count is the number of matcher edges,
  the accepted count the number of returned edges, the three confidence classes partition them, and the
  exported count is the accepted count exactly when there is an exporter.\<close>

theorem pipeline_stats:
  assumes "Run marshal ord en sink inp = (Inr res, sink')"
  shows "st_AcceptedEdges (rs_Stats res) = length (rs_Edges res)
    \<and> st_HighConfidence (rs_Stats res) + st_MediumConfidence (rs_Stats res) + st_LowConfidence (rs_Stats res)
        = st_AcceptedEdges (rs_Stats res)
    \<and> st_ExportedEdges (rs_Stats res) = (if sink = None then 0 else st_AcceptedEdges (rs_Stats res))
    \<and> (\<exists>es. Ensemble_Match en (in_Usages inp) (in_Subs inp) (in_Invs inp) = Inr es
          \<and> st_RawEdges (rs_Stats res) = length es \<and> rs_Edges res = Combine ord en es)"
proof -
  from assms obtain counts es where es: "run_matchers (en_Matchers en) inp [] [] = Inr (counts, es)"
    "rs_Edges res = Combine ord en es" "st_RawEdges (rs_Stats res) = length es"
    "st_AcceptedEdges (rs_Stats res) = length (rs_Edges res)"
    "st_ExportedEdges (rs_Stats res) = (if sink = None then 0 else length (rs_Edges res))"
    "st_HighConfidence (rs_Stats res) = class_count High (rs_Edges res)"
    "st_MediumConfidence (rs_Stats res) = class_count Medium (rs_Edges res)"
    "st_LowConfidence (rs_Stats res) = class_count Low (rs_Edges res)" by (rule Run_Inr)
  have "Ensemble_Match en (in_Usages inp) (in_Subs inp) (in_Invs inp) = Inr es"
    using run_matchers_Match[of en inp "[]" "[]" es] es(1) by simp
  with es class_counts[of "rs_Edges res"] show ?thesis by simp
qed

theorem pipeline_stats_witness:
  "\<exists>res. Run (\<lambda>_. None) insertion_order (linker_ensemble ''salt'' demo_recipe) None demo_inputs = (Inr res, None)
     \<and> rs_Edges res \<noteq> [] \<and> st_ExportedEdges (rs_Stats res) = 0
     \<and> st_HighConfidence (rs_Stats res) + st_MediumConfidence (rs_Stats res) + st_LowConfidence (rs_Stats res)
         = length (rs_Edges res)"
proof -
  obtain res where run: "Run (\<lambda>_. None) insertion_order (linker_ensemble ''salt'' demo_recipe) None demo_inputs = (Inr res, None)"
    and "\<exists>x\<in>set (rs_Edges res). le_From x = ''syn_cust_1'' \<and> le_To x = ''syn_inv_1''" by (rule demo_run)
  with pipeline_stats[OF run] show ?thesis by auto
qed

section \<open>Exporting\<close>

text \<open>The export queue accounts for every item under every interleaving of producers, the worker's
  receives and \<open>close\<close>: the buffer never exceeds the capacity, each offered item was received, is buffered
  or was counted as dropped (counters modulo \<open>2 ^ 64\<close>), and what was received and buffered keeps the order
  of the offers.\<close>

theorem export_queue_accounts:
  "depth (g_queue (run cap evs)) \<le> q_cap (g_queue (run cap evs))
   \<and> (of_nat (length (g_offered (run cap evs))) :: u64)
       = of_nat (length (g_received (run cap evs))) + of_nat (depth (g_queue (run cap evs))) + dropped (g_queue (run cap evs))
   \<and> subseq (g_received (run cap evs) @ q_ch (g_queue (run cap evs))) (g_offered (run cap evs))"
  using run_invariant[of cap evs] by (simp add: bounded_def balanced_def in_order_def)

text \<open>The stream worker loses and reorders nothing: for a positive batch size every flushed batch is
  non-empty and at most that long, the flushed batches and the pending one together are exactly the items
  received before the worker stopped, in order, and a worker that stopped has nothing pending.\<close>

theorem worker_batches:
  assumes "0 < sint bs"
  shows "(\<forall>b\<in>set (wk_flushed (worker_run bs evs)). b \<noteq> [] \<and> int (length b) \<le> sint bs)
    \<and> concat (wk_flushed (worker_run bs evs)) @ wk_batch (worker_run bs evs) = data_of (live evs)
    \<and> (Closed \<in> set evs \<or> Exporter.Done \<in> set evs \<longrightarrow> concat (wk_flushed (worker_run bs evs)) = data_of (live evs))"
proof -
  note f = worker_run_facts[OF assms, of evs]
  have e: "wk_batch (worker_run bs evs) = []" if "Closed \<in> set evs \<or> Exporter.Done \<in> set evs"
    using f(1,3) that unfolding worker_inv_def by blast
  have "concat (wk_flushed (worker_run bs evs)) = data_of (live evs)" if "Closed \<in> set evs \<or> Exporter.Done \<in> set evs"
    using f(2) unfolding e[OF that] by simp
  with f(1,2) show ?thesis unfolding worker_inv_def by blast
qed

theorem worker_batches_witness:
  "concat (wk_flushed (worker_run 2 [Data ''a'', Data ''b'', Data ''c'', Closed, Data ''d''])) = [''a'', ''b'', ''c'']"
  using worker_batches[of 2 "[Data ''a'', Data ''b'', Data ''c'', Closed, Data ''d'']"] by (simp add: data_of_def)

text \<open>C9. A stream of the running exporter accounts for every event, from the producers to the sinks: under every
  interleaving of the producers, the worker's select, \<open>close\<close> and the cancellation, each event offered to
  \<open>enqueue\<close> was handed to the sinks, is in the worker's batch or in the queue, or was counted as dropped (counters
  modulo \<open>2 ^ 64\<close>), in the order of the offers; the queue stays within its capacity, no batch is empty or above the
  batch size, and a worker that ended holds nothing back.\<close>

theorem export_stream_accounts:
  assumes "0 < sint bs" and "stream_run bs evs (start_stream (newQueue cap)) = Some s"
  shows "subseq (concat (wk_flushed (sm_worker s)) @ wk_batch (sm_worker s) @ q_ch (sm_queue s)) (sm_offered s)
    \<and> (of_nat (length (sm_offered s)) :: u64) = of_nat (length (concat (wk_flushed (sm_worker s))))
        + of_nat (length (wk_batch (sm_worker s))) + of_nat (depth (sm_queue s)) + dropped (sm_queue s)
    \<and> depth (sm_queue s) \<le> q_cap (sm_queue s)
    \<and> list_all (\<lambda>b. b \<noteq> [] \<and> int (length b) \<le> sint bs) (wk_flushed (sm_worker s))
    \<and> (wk_running (sm_worker s) \<or> wk_batch (sm_worker s) = [])"
  using stream_accounts[OF assms] unfolding sent_def by (auto simp: worker_inv_def list_all_iff)

theorem export_stream_accounts_witness:
  "\<exists>s. stream_run 2 [Offer 0 0 ''a'', Offer 0 0 ''b'', Offer 0 0 ''c'', WorkerReceives, WorkerReceives] (start_stream (newQueue 2)) = Some s
     \<and> wk_flushed (sm_worker s) = [[''b'', ''c'']] \<and> dropped (sm_queue s) = 1 \<and> subseq [''b'', ''c''] (sm_offered s)"
proof -
  let ?evs = "[Offer 0 0 ''a'', Offer 0 0 ''b'', Offer 0 0 ''c'', WorkerReceives, WorkerReceives]"
  obtain s where s: "stream_run 2 ?evs (start_stream (newQueue 2)) = Some s" "wk_flushed (sm_worker s) = [[''b'', ''c'']]"
    "dropped (sm_queue s) = 1" "q_ch (sm_queue s) = []" "wk_batch (sm_worker s) = []"
    by (simp add: start_stream_def newQueue_def worker_start_def enqueue_with_def queue_ops feed_def worker_step.simps
        worker_flush_def dropped_def Let_def)
  with export_stream_accounts[OF _ s(1)] show ?thesis by simp
qed

text \<open>C10. \<open>Shutdown\<close> of the exporter can return without an error although queued events were never sent: for every
  choice of numbers there is a run in which it returns nil and of each stream's queue just that many events
  were sent after the pending batch, because the worker's select may take the cancelled context before the queue is
  empty. Every run that returns nil is of this form, and it sends everything when no worker takes that case.\<close>

theorem exporter_shutdown_race:
  assumes "0 < sint bs" and "workers_run bs ss"
  shows "((\<forall>(n, s)\<in>set ss. k n \<le> depth (sm_queue s)) \<longrightarrow>
      (\<exists>before after ss'. Shutdown_exporter bs before after False ss = Some (True, ss')
        \<and> list_all2 (\<lambda>(n, s) (n', s'). n' = n \<and> left_behind (k n) s s') ss ss'))
    \<and> (Shutdown_exporter bs before after False ss = Some (True, ss') \<and> (\<forall>name. \<not> offers (before name) \<and> \<not> offers (after name)) \<longrightarrow>
      list_all2 (\<lambda>(n, s) (n', s'). n' = n \<and> (\<exists>k. left_behind k s s'
        \<and> (WorkerSeesDone \<notin> set (before n @ after n) \<longrightarrow> k = depth (sm_queue s)))) ss ss')"
  using Shutdown_can_leave[OF assms] Shutdown_leaves[OF assms] by blast

definition demo_streams :: "(string \<times> stream) list" where
  "demo_streams = [(''edges'', start_stream (enqueue ''e2'' (enqueue ''e1'' (newQueue 5))))]"

lemma demo_streams_run: "workers_run 50 demo_streams"
  using worker_start_inv[of 50] by (simp add: workers_run_def demo_streams_def start_stream_def worker_start_def)

theorem exporter_shutdown_race_witness:
  "\<exists>before after s. Shutdown_exporter 50 before after False demo_streams = Some (True, [(''edges'', s)])
     \<and> q_ch (sm_queue s) = [''e2''] \<and> wk_running (sm_worker s) = False"
proof -
  have q: "q_ch (enqueue ''e2'' (enqueue ''e1'' (newQueue 5))) = [''e1'', ''e2'']"
    by (simp add: enqueue_def enqueue_with_def queue_ops newQueue_def)
  have "(\<forall>(n, s)\<in>set demo_streams. (\<lambda>_. 1) n \<le> depth (sm_queue s))"
    by (simp add: demo_streams_def start_stream_def depth_def q)
  with conjunct1[OF exporter_shutdown_race[OF _ demo_streams_run, of "\<lambda>_. 1"]] obtain before after ss' where
    r: "Shutdown_exporter 50 before after False demo_streams = Some (True, ss')"
      "list_all2 (\<lambda>(n, s) (n', s'). n' = n \<and> left_behind 1 s s') demo_streams ss'" by auto
  from r(2) obtain s where "ss' = [(''edges'', s)]" "left_behind 1 (snd (hd demo_streams)) s"
    by (auto simp: demo_streams_def list_all2_Cons1)
  with r(1) q show ?thesis by (auto simp: left_behind_def demo_streams_def start_stream_def)
qed

text \<open>C11. Delivery over HTTP: a batch is delivered exactly when some attempt within the retry budget
  succeeds and every attempt before it failed with a retryable error; there are at most one post more than
  retries, and every post carries the same body.\<close>

theorem delivery_correct:
  "(snd (deliver e env stream payload 0 retries) \<longleftrightarrow>
      (\<exists>k\<le>retries. snd (sendStream e env k stream payload) = None
        \<and> (\<forall>j<k. \<exists>err. snd (sendStream e env j stream payload) = Some err \<and> isRetryable err)))
   \<and> length (posts (fst (deliver e env stream payload 0 retries))) \<le> Suc retries
   \<and> (\<forall>r\<in>set (posts (fst (deliver e env stream payload 0 retries))). rq_Body r = payload)"
proof -
  have r: "retryable_failure r \<longleftrightarrow> (\<exists>err. r = Some err \<and> isRetryable err)" for r
    by (cases r) (simp_all add: retryable_failure_def)
  show ?thesis
    using deliver_ok_iff[of e env stream payload 0 retries] deliver_posts[of e env stream payload 0 retries]
      deliver_body[of _ e env stream payload 0 retries]
    by (auto simp: attempt_result_def r)
qed

definition demo_net :: export_env where
  "demo_net = \<lparr>ee_getenv = (\<lambda>_. []), ee_random = (\<lambda>_. Some (replicate 16 (CHR ''x''))), ee_nanos = (\<lambda>_. 0),
     ee_url_ok = (\<lambda>_. True), ee_response = (\<lambda>k _. HTTP_Status (if k < 2 then 503 else 200)), ee_file = (\<lambda>_ _. Appended)\<rparr>"

lemma demo_send: "snd (sendStream demo_exporter demo_net k StreamEdges payload)
    = (if k < 2 then Some \<lparr>xe_statusCode = 503, xe_retryable = True\<rparr> else None)"
  by (simp add: sendStream_def demo_exporter_def demo_export_def demo_net_def StreamEdges_def Let_def)

theorem delivery_correct_witness:
  "snd (deliver demo_exporter demo_net StreamEdges ''[1]'' 0 3) \<and> \<not> snd (deliver demo_exporter demo_net StreamEdges ''[1]'' 0 1)
   \<and> length (posts (fst (deliver demo_exporter demo_net StreamEdges ''[1]'' 0 3))) \<le> 4"
proof -
  have "snd (deliver demo_exporter demo_net StreamEdges ''[1]'' 0 3)"
    unfolding conjunct1[OF delivery_correct[of demo_exporter demo_net StreamEdges "''[1]''" 3]] demo_send
    by (intro exI[of _ 2]) (auto simp: isRetryable_def)
  moreover have "\<not> snd (deliver demo_exporter demo_net StreamEdges ''[1]'' 0 1)"
    unfolding conjunct1[OF delivery_correct[of demo_exporter demo_net StreamEdges "''[1]''" 1]] demo_send by auto
  ultimately show ?thesis using delivery_correct[of demo_exporter demo_net StreamEdges "''[1]''" 3] by simp
qed

text \<open>An exporter that \<open>New\<close> returned is well formed whatever the configuration asked for: positive
  batch size, retry count and flush interval, the three streams each with an empty queue of positive
  capacity, and a tenant key whenever it posts over HTTP.\<close>

theorem New_exporter_ok:
  assumes "New mk opts = Inr e"
  shows "0 < sint (ex_batchSize e) \<and> 0 < sint (ex_maxRetries e) \<and> 0 < sint (ex_flushEvery e)
    \<and> ex_cfg e = op_Config opts \<and> map fst (ex_streams e) = [StreamEdges, StreamBilling, StreamUsage]
    \<and> (\<forall>(s, q)\<in>set (ex_streams e). \<exists>cap. 0 < cap \<and> q = newQueue cap)
    \<and> (mode_http (ex_cfg e) \<longrightarrow> ex_tenantKey e \<noteq> [])"
  using New_Inr[OF assms] by simp

definition demo_options :: Options where
  "demo_options = \<lparr>op_Config = demo_export\<lparr>xp_HTTP := (xp_HTTP demo_export)\<lparr>xh_BatchSize := - 5, xh_MaxRetries := 0\<rparr>\<rparr>,
     op_TenantKey = ''key'', op_QueueCapacity = 0\<rparr>"

theorem New_exporter_ok_witness:
  "\<exists>e. New (\<lambda>_. True) demo_options = Inr e \<and> 0 < sint (ex_batchSize e) \<and> 0 < sint (ex_maxRetries e)"
proof -
  have "is_ok (New (\<lambda>_. True) demo_options)"
    by (simp add: New_def demo_options_def demo_export_def mode_http_def mode_file_def positive_or_def Let_def)
  then obtain e where e: "New (\<lambda>_. True) demo_options = Inr e" unfolding is_ok_iff by blast
  from New_exporter_ok[OF e] e show ?thesis by blast
qed

section \<open>Configuration\<close>

text \<open>C12. A configuration that \<open>validate\<close> accepted is well formed (every default filled in, every enabled
  part complete, the legacy export fields carried over), and validating it again changes nothing.\<close>

theorem validated_config:
  assumes "validate cfg = Inr c"
  shows "config_valid c \<and> validate c = Inr c"
  using validate_config_valid[OF assms] validate_idem[OF assms] by blast

definition demo_webhook :: StripeWebhook where
  "demo_webhook = \<lparr>wh_Enabled = True, wh_Path = [], wh_SigningSecret = ''whsec'', wh_AllowedIPRanges = [], wh_MaxSkew = 0,
     wh_Retry = \<lparr>rt_MaxAttempts = 0, rt_BaseBackoff = 0, rt_MaxBackoff = 0\<rparr>\<rparr>"

definition demo_config :: Config where
  "demo_config = \<lparr>cfg_CDPBaseURL = ''https://cdp'',
     cfg_Agent = \<lparr>ac_ID = [], ac_OrganizationID = ''org'', ac_Version = ''1''\<rparr>, cfg_Server = \<lparr>srv_Addr = '':8080''\<rparr>,
     cfg_Privacy = \<lparr>pv_Mode = ''strict'', pv_IDMode = [], pv_TenantSalt = ''salt'', pv_AllowPassthroughExports = False\<rparr>,
     cfg_Sources = \<lparr>so_Stripe = Some \<lparr>st_APIKey = ''sk'', st_Account = [], st_MaxRequestsPerSecond = 0, st_Webhook = demo_webhook\<rparr>\<rparr>,
     cfg_Export = \<lparr>xp_Mode = [], xp_Endpoint = ''https://old'', xp_FilePath = [],
       xp_HTTP = \<lparr>xh_BaseURL = [], xh_Routes = None, xh_Headers = \<lparr>eh_AuthorizationEnv = []\<rparr>, xh_MaxRetries = 0, xh_BatchSize = 0,
         xh_FlushEvery = 0\<rparr>, xp_File = \<lparr>xf_Paths = None\<rparr>\<rparr>,
     cfg_Matchers = \<lparr>mc_Recipe = \<lparr>mr_Name = [], mr_Version = [], mr_Weights = None, mr_Threshold = Fin 0, mr_TemporalWindowSec = 0,
       mr_SKUOverlapMin = Fin 0\<rparr>\<rparr>,
     cfg_Heartbeat = \<lparr>hb_Enabled = True, hb_Interval = 0, hb_Endpoint = [], hb_SignatureSecret = ''c2VjcmV0''\<rparr>,
     cfg_CommandPolling = \<lparr>cp_Enabled = True, cp_Interval = 0, cp_SignatureSecret = ''c2VjcmV0'', cp_MaxClockSkew = 0, cp_Timeout = 0\<rparr>,
     cfg_Queue = \<lparr>qc_Type = [], qc_WALPath = [],
       qc_Billing = \<lparr>qs_MaxBytes = 0, qs_MaxEvents = 0, qs_DropPolicy = [], qs_SegmentSize = 0\<rparr>,
       qc_Usage = \<lparr>qs_MaxBytes = 0, qs_MaxEvents = 0, qs_DropPolicy = [], qs_SegmentSize = 0\<rparr>,
       qc_Edges = \<lparr>qs_MaxBytes = 0, qs_MaxEvents = 0, qs_DropPolicy = [], qs_SegmentSize = 0\<rparr>,
       qc_DLQ = \<lparr>qd_MaxBytes = 0, qd_RetentionDays = 0\<rparr>\<rparr>\<rparr>"

lemma demo_recipe_validates: "is_ok (validateMatcherRecipe (mc_Recipe (cfg_Matchers demo_config)))"
  by (simp add: demo_config_def validateMatcherRecipe_def Let_def or_default_def f_or_default_def default_weights_def
      lit_values f_const_0 f_const_1)

lemma demo_webhook_validates: "is_ok (validateStripeWebhook demo_webhook)"
  by (simp add: demo_webhook_def validateStripeWebhook_def Let_def or_default_def has_prefix_def)

lemma demo_sources_validate: "is_ok (validateSources (cfg_Sources demo_config))"
  using demo_webhook_validates
  by (auto simp: demo_config_def validateSources_def Let_def is_ok_iff split: sum.splits)

lemma demo_export_validates: "is_ok (validateAndMigrateExport (cfg_Export demo_config))"
  by (simp add: demo_config_def validateAndMigrateExport_def migrateLegacyExportConfig_def Let_def or_default_def
      validate_export_http_def validate_export_file_def mode_http_def mode_file_def map_make_def map_put_def map_get_def)

lemma demo_config_validates: "is_ok (validate demo_config)"
proof -
  have "is_ok (validatePrivacy (cfg_Privacy demo_config))" "is_ok (validateHeartbeat (cfg_Heartbeat demo_config) (cfg_CDPBaseURL demo_config))"
    "is_ok (validateCommandPolling (cfg_CommandPolling demo_config))" "srv_Addr (cfg_Server demo_config) \<noteq> []"
    by (simp_all add: demo_config_def validatePrivacy_def validateHeartbeat_def validateCommandPolling_def or_default_def)
  with demo_recipe_validates demo_sources_validate demo_export_validates show ?thesis
    by (auto simp: validate_def is_ok_iff bindE_def)
qed

theorem validated_config_witness:
  "\<exists>c. validate demo_config = Inr c \<and> config_valid c \<and> validate c = Inr c"
proof -
  obtain c where c: "validate demo_config = Inr c" using demo_config_validates unfolding is_ok_iff by blast
  from validated_config[OF c] c show ?thesis by blast
qed

section \<open>Identifiers and the one-shot run\<close>

text \<open>C13. Both ID mappers keep the contract of the interface for every kind: a constructed mapper fails
  exactly on the empty identifier; in strict mode what comes out is synthetic, never a platform identifier,
  and no two kinds share an identifier; in passthrough mode the identifier comes out unchanged.\<close>

theorem id_mappers_correct:
  assumes "mapper_ok m"
  shows "(is_ok (mapper_id m k raw) \<longleftrightarrow> raw \<noteq> [])
    \<and> (mapper_mode m = IDModeStrict \<or> mapper_mode m = IDModePassthrough)
    \<and> (mapper_mode m = IDModeStrict \<and> mapper_id m k raw = Inr s \<longrightarrow> IsSyntheticID s \<and> \<not> IsStripePlatformID s
         \<and> (\<forall>k' raw'. mapper_id m k' raw' = Inr s \<longrightarrow> k' = k))
    \<and> (mapper_mode m = IDModePassthrough \<and> mapper_id m k raw = Inr s \<longrightarrow> s = raw)"
proof (cases m)
  case (SyntheticMapper salt)
  have "mapper_mode m \<noteq> IDModePassthrough" by (simp add: SyntheticMapper IDModeStrict_def IDModePassthrough_def)
  then show ?thesis
    using mapper.ok_iff[OF assms, of k raw] strict.is_synthetic[of salt k raw s] strict.not_platform[of salt k raw s]
      strict.kinds_disjoint[of salt _ _ s k raw] mapper.mode_cases[of m]
    unfolding SyntheticMapper by blast
next
  case PassthroughMapper
  have "mapper_mode m \<noteq> IDModeStrict" by (simp add: PassthroughMapper IDModeStrict_def IDModePassthrough_def)
  then show ?thesis
    using mapper.ok_iff[OF assms, of k raw] passthrough.unchanged[of k raw s] mapper.mode_cases[of m]
    unfolding PassthroughMapper by blast
qed

theorem id_mappers_correct_witness:
  "\<exists>s. mapper_id (SyntheticMapper ''salt'') KCustomer ''cus_1'' = Inr s \<and> IsSyntheticID s \<and> \<not> IsStripePlatformID s"
proof -
  have ok: "mapper_ok (SyntheticMapper ''salt'')" by (simp add: mapper_ok_def)
  from id_mappers_correct[OF ok, of KCustomer "''cus_1''"] obtain s where
    s: "mapper_id (SyntheticMapper ''salt'') KCustomer ''cus_1'' = Inr s" unfolding is_ok_iff by blast
  with id_mappers_correct[OF ok, of KCustomer "''cus_1''" s] show ?thesis by simp
qed

text \<open>C14. The one-shot run completes, with any salt, the empty one of the passthrough mode included. Given a validated
  configuration with a Stripe source whose reads succeed, subscriptions created after the epoch and before \<open>2 ^ 62\<close>
  seconds, a clock more than ten minutes after the epoch (the fallback event lies ten minutes back) and edges that
  marshal, \<open>runMatcherPipeline\<close> ends without a fatal error if the directories of the configured export files can be
  made, and the edges queue has received exactly the accepted edges, in order, on top of the exporter's state after the
  billing records; if one cannot, the run ends fatally with just that error.\<close>

theorem linker_run_completes:
  assumes "config_valid cfg" "so_Stripe (cfg_Sources cfg) \<noteq> None"
    and "\<forall>e. re_marshal_edge env e \<noteq> None" "600 < sint (re_now env)"
    and "\<And>c. start_client env cfg = Finished c \<Longrightarrow> fetch_billing env 0 salt c = Finished (subs, invs)"
    and "\<forall>m\<in>set subs. recent (sub_CreatedAt m)"
  shows "if file_dirs_made env cfg
    then \<exists>res x x'. start_exporter env cfg = Finished x \<and> runMatcherPipeline env cfg salt = Finished (res, Shutdown_queues x')
      \<and> map_of (ex_streams x') StreamEdges = map_option (fold (\<lambda>e. enqueue (the (re_marshal_edge env e))) (rs_Edges res))
          (map_of (ex_streams (export_billing env subs invs x)) StreamEdges)
    else runMatcherPipeline env cfg salt = Fatal (ExporterFailed MkdirFailed)"
  using runMatcherPipeline_completes[OF assms(1,2) _ assms(3-6)] runMatcherPipeline_mkdir_fails[OF assms(1,2), of env salt] by simp

definition demo_sub :: stripe_subscription where
  "demo_sub = \<lparr>ss_ID = ''sub_1'', ss_Customer = Some ''cus_1'', ss_Status = ''active'', ss_Items = Some [], ss_Created = 1700000000\<rparr>"

definition demo_run_env :: "unit run_env" where
  "demo_run_env = \<lparr>re_start = 0, re_now = 1700000000,
     re_api = (\<lambda>_. \<lparr>api_customers = (\<lambda>_. []), api_subscriptions = (\<lambda>_. [Inr demo_sub]), api_invoices = (\<lambda>_. [])\<rparr>),
     re_wait = (\<lambda>_ rl. Some (True, rl)), re_mkdir = (\<lambda>_. True), re_order = insertion_order,
     re_marshal_sub = (\<lambda>_. None), re_marshal_inv = (\<lambda>_. None), re_marshal_edge = (\<lambda>e. Some (le_Proof e))\<rparr>"

lemma demo_sub_sanitized: "\<exists>m. SanitizeSubscription ''salt'' demo_sub = Inr m \<and> sub_CreatedAt m = 1700000000"
  by (simp add: SanitizeSubscription_def demo_sub_def SyntheticID_Inr)

lemma demo_linker:
  obtains cfg m where "validate demo_config = Inr cfg" "config_valid cfg" "so_Stripe (cfg_Sources cfg) \<noteq> None"
    "recent (sub_CreatedAt m)"
    "\<And>cl. start_client demo_run_env cfg = Finished cl \<Longrightarrow> fetch_billing demo_run_env 0 ''salt'' cl = Finished ([m], [])"
proof -
  obtain cfg where c: "validate demo_config = Inr cfg" using demo_config_validates unfolding is_ok_iff by blast
  obtain m where m: "SanitizeSubscription ''salt'' demo_sub = Inr m" "sub_CreatedAt m = 1700000000"
    using demo_sub_sanitized by blast
  have src: "so_Stripe (cfg_Sources cfg) \<noteq> None"
    using c by (auto simp: validate_def bindE_Inr_iff demo_config_def validateSources_def Let_def split: if_splits sum.splits)
  have fetch: "fetch_billing demo_run_env 0 ''salt'' cl = Finished ([m], [])" if "start_client demo_run_env cfg = Finished cl" for cl
  proof -
    have "cl_api cl = re_api demo_run_env []"
      using that by (auto simp: start_client_def fatal_on_Finished New_client_def demo_run_env_def split: option.splits if_splits)
    then show ?thesis
      by (simp add: fetch_billing_def ListRawSubscriptions_def ListRawInvoices_def limited_def of_list_def demo_run_env_def
          awaited_def bindO_def of_nil_def Let_def m(1))
  qed
  have "recent (sub_CreatedAt m)" by (simp add: m(2) recent_def)
  with c validate_config_valid[OF c] src fetch show thesis by (intro that)
qed

theorem linker_run_completes_witness:
  "\<exists>cfg res x. validate demo_config = Inr cfg \<and> runMatcherPipeline demo_run_env cfg ''salt'' = Finished (res, x)"
proof -
  obtain cfg m where d: "validate demo_config = Inr cfg" "config_valid cfg" "so_Stripe (cfg_Sources cfg) \<noteq> None" "recent (sub_CreatedAt m)"
    "\<And>cl. start_client demo_run_env cfg = Finished cl \<Longrightarrow> fetch_billing demo_run_env 0 ''salt'' cl = Finished ([m], [])"
    by (rule demo_linker) blast
  then show ?thesis
    using linker_run_completes[where env = demo_run_env and subs = "[m]" and invs = "[]" and salt = "''salt''", OF d(2,3) _ _ d(5)]
    by (auto simp: demo_run_env_def file_dirs_made_def)
qed

text \<open>C15. What the one-shot modes export names nobody: after a run of either mode every stream's queue holds what
  was offered to it, and all of that are billing records whose identifiers are synthetic or edges between
  synthetic identifiers; so is everything a worker sends of it, under every schedule.\<close>

theorem linker_exports_private:
  assumes "map_order_ok (re_order env)"
    and "runMatcherPipeline env cfg salt = Finished (res, x) \<or> runBillingExportMode env cfg salt = Finished x"
    and "map_of (ex_streams x) name = Some q"
  shows "\<exists>x0 cap ds. start_exporter env cfg = Finished x0 \<and> q = close (fold enqueue ds (newQueue cap))
    \<and> list_all (private_payload env name) ds
    \<and> (\<forall>evs s. stream_run (ex_batchSize x0) evs (start_stream (newQueue cap)) = Some s \<and> sm_offered s = ds
         \<longrightarrow> list_all (private_payload env name) (concat (wk_flushed (sm_worker s))))"
proof -
  obtain x0 x2 where x: "start_exporter env cfg = Finished x0" "x = Shutdown_queues x2" "got (private_payload env) x0 x2"
    using assms(2) runMatcherPipeline_got[OF assms(1)] runBillingExportMode_got by metis
  from got_exports_private[OF x(1,3)] assms(3) x(1,2) show ?thesis unfolding list_all_iff sent_def by blast
qed

theorem linker_exports_private_witness:
  "\<exists>cfg res x q cap ds. runMatcherPipeline demo_run_env cfg ''salt'' = Finished (res, x)
     \<and> map_of (ex_streams x) StreamEdges = Some q \<and> q = close (fold enqueue ds (newQueue cap))
     \<and> list_all (private_payload demo_run_env StreamEdges) ds"
proof -
  obtain cfg m where d: "validate demo_config = Inr cfg" "config_valid cfg" "so_Stripe (cfg_Sources cfg) \<noteq> None" "recent (sub_CreatedAt m)"
    "\<And>cl. start_client demo_run_env cfg = Finished cl \<Longrightarrow> fetch_billing demo_run_env 0 ''salt'' cl = Finished ([m], [])"
    by (rule demo_linker) blast
  obtain res x x' where x: "runMatcherPipeline demo_run_env cfg ''salt'' = Finished (res, Shutdown_queues x')" "start_exporter demo_run_env cfg = Finished x"
    using runMatcherPipeline_completes[where env = demo_run_env and subs = "[m]" and invs = "[]" and salt = "''salt''", OF d(2,3) _ _ _ d(5)] d(4)
    by (auto simp: demo_run_env_def file_dirs_made_def)
  have o: "map_order_ok (re_order demo_run_env)" by (simp add: demo_run_env_def insertion_order_ok)
  obtain x2 where g: "Shutdown_queues x' = Shutdown_queues x2" "got (private_payload demo_run_env) x x2"
    using runMatcherPipeline_got[OF o x(1)] x(2) by (metis outcome.inject(1))
  have "New (re_mkdir demo_run_env) \<lparr>op_Config = cfg_Export cfg, op_TenantKey = ''test-tenant-key'', op_QueueCapacity = 500\<rparr> = Inr x"
    using x(2) by (simp add: start_exporter_def fatal_on_Finished)
  from New_Inr(5)[OF this] obtain q0 where "map_of (ex_streams x) StreamEdges = Some q0"
    by (cases "ex_streams x") auto
  with g(2) obtain q2 where "map_of (ex_streams x2) StreamEdges = Some q2" unfolding got_def by (metis option.map_disc_iff option.exhaust)
  then have "map_of (ex_streams (Shutdown_queues x')) StreamEdges = Some (close q2)"
    by (subst g(1)) (simp add: Shutdown_queues_def map_of_map)
  with linker_exports_private[OF o _ this, of cfg "''salt''" res] x(1) show ?thesis by blast
qed

section \<open>Webhooks\<close>

text \<open>C16. The signature scheme of the webhook: the header built for a payload at a time within the skew is
  accepted for that payload and secret, and for any payload and secret it is accepted exactly when the HMAC
  over the timestamp and that payload is the same; timestamp and payload are recoverable from what is signed.\<close>

theorem stripe_signature_roundtrip:
  assumes "ts \<noteq> 0" and "within_skew now (unix_time ts) maxSkew"
  shows "VerifySignature now (stripe_header secret ts payload) payload secret maxSkew = None
    \<and> (VerifySignature now (stripe_header secret ts payload) payload' secret' maxSkew =
         (if hex_encode (hmac_sha256 secret (signed_payload ts payload)) = hex_encode (hmac_sha256 secret' (signed_payload ts payload'))
          then None else Some SignatureMismatch))
    \<and> (signed_payload ts payload = signed_payload ts' payload' \<longrightarrow> ts = ts' \<and> payload = payload')"
  using VerifySignature_own_header[OF assms(1), of now secret payload payload secret maxSkew]
    VerifySignature_own_header[OF assms(1), of now secret payload payload' secret' maxSkew] assms(2)
    signed_payload_unambiguous[of ts payload ts' payload']
  by (simp add: expected_signature_def)

lemma demo_skew: "within_skew (unix_time 1700000000) (unix_time 1700000000) (seconds 300)"
  by (simp add: within_skew_def time_sub_def abs64_def seconds_def Let_def min_duration_def max_duration_def)

theorem stripe_signature_roundtrip_witness:
  "VerifySignature (unix_time 1700000000) (stripe_header ''whsec'' 1700000000 ''{}'') ''{}'' ''whsec'' (seconds 300) = None"
  using stripe_signature_roundtrip[OF _ demo_skew, of "''whsec''" "''{}''"] by simp

text \<open>C17. Nothing unauthenticated gets in: a request that changes the job queue or the set of seen events,
  or that is answered with a status below 400, is a POST from an allowed address whose body, within the size
  limit, carries a valid signature and parses as an event.\<close>

theorem ServeHTTP_authenticated:
  assumes "ServeHTTP parse now r h = (h', res)"
    and "hd_jobs h' \<noteq> hd_jobs h \<or> hd_seen h' \<noteq> hd_seen h \<or> (\<exists>c. res = Status c \<and> c < 400)"
  shows "hr_Method r = ''POST'' \<and> VerifyIPAllowlist (hr_RemoteAddr r) (wh_AllowedIPRanges (hd_cfg h)) = None
    \<and> (\<exists>body e. read_limited MaxWebhookBodySize r = Some body \<and> length body \<le> 1048576
         \<and> VerifySignature now (hr_Signature r) body (wh_SigningSecret (hd_cfg h)) (wh_MaxSkew (hd_cfg h)) = None
         \<and> parse body = Some e)"
proof -
  have l: "read_limited MaxWebhookBodySize r = Some body \<Longrightarrow> length body \<le> 1048576" for body
    by (auto simp: read_limited_def MaxWebhookBodySize_def split: if_splits)
  from ServeHTTP_authentic[OF assms] l show ?thesis unfolding authentic_def by blast
qed

definition demo_handler :: Handler where
  "demo_handler = \<lparr>hd_cfg = demo_webhook\<lparr>wh_MaxSkew := seconds 300\<rparr>, hd_seen = Map.empty, hd_jobs = [], hd_cap = 2,
     hd_closed = False, hd_metrics = new_metrics\<rparr>"

definition demo_event :: stripeEvent where
  "demo_event = \<lparr>ev_ID = ''evt_1'', ev_Type = ''invoice.created'', ev_Created = 1700000000, ev_ObjectID = ''in_1''\<rparr>"

definition demo_request :: http_request where
  "demo_request = \<lparr>hr_Method = ''POST'', hr_RemoteAddr = ''10.0.0.1:99'', hr_Signature = stripe_header ''whsec'' 1700000000 ''{}'',
     hr_Body = ''{}'', hr_BodyFails = False\<rparr>"

lemma demo_body: "read_limited MaxWebhookBodySize demo_request = Some ''{}''"
  by (simp add: read_limited_def MaxWebhookBodySize_def demo_request_def)

lemma demo_verified: "VerifySignature (unix_time 1700000000) (stripe_header ''whsec'' 1700000000 ''{}'') ''{}'' ''whsec'' (seconds 300) = None"
  using VerifySignature_own_header[of 1700000000 "unix_time 1700000000" "''whsec''" "''{}''" "''{}''" "''whsec''" "seconds 300"] demo_skew
  by simp

lemma demo_serve: "ServeHTTP (\<lambda>_. Some demo_event) (unix_time 1700000000) demo_request demo_handler
    = handle_event demo_event (verified_inc (received_inc demo_handler))"
  unfolding ServeHTTP_def demo_body
  by (simp add: demo_request_def demo_handler_def demo_webhook_def demo_verified Let_def)

lemma demo_handled: "\<exists>h'. handle_event demo_event (verified_inc (received_inc demo_handler)) = (h', Status 200)
    \<and> hd_jobs h' = [job_of demo_event]"
  by (simp add: handle_event_def isDuplicate_def check_and_mark_def seen_def send_job_def demo_handler_def handler_counters)

theorem ServeHTTP_authenticated_witness:
  "\<exists>h'. ServeHTTP (\<lambda>_. Some demo_event) (unix_time 1700000000) demo_request demo_handler = (h', Status 200)
     \<and> VerifyIPAllowlist (hr_RemoteAddr demo_request) (wh_AllowedIPRanges (hd_cfg demo_handler)) = None"
proof -
  obtain h' where h: "ServeHTTP (\<lambda>_. Some demo_event) (unix_time 1700000000) demo_request demo_handler = (h', Status 200)"
    using demo_serve demo_handled by auto
  from ServeHTTP_authenticated[OF h] h show ?thesis by simp
qed

text \<open>C18. The metrics account for every request: each answered request adds exactly one to the sum of the
  duplicate counter, the enqueued counter and the six error labels (modulo \<open>2 ^ 64\<close>).\<close>

theorem ServeHTTP_accounted:
  assumes "ServeHTTP parse now r h = (h', Status c)"
  shows "ct_value (DupDroppedTotal (hd_metrics h')) + ct_value (EnqueuedTotal (hd_metrics h'))
      + sum_list (map (label_value (ErrorsTotal (hd_metrics h'))) error_labels)
    = ct_value (DupDroppedTotal (hd_metrics h)) + ct_value (EnqueuedTotal (hd_metrics h))
      + sum_list (map (label_value (ErrorsTotal (hd_metrics h))) error_labels) + 1"
  using ServeHTTP_counts[OF assms] by (simp add: outcomes_def)

theorem ServeHTTP_accounted_witness:
  "\<exists>h'. ServeHTTP (\<lambda>_. Some demo_event) (unix_time 1700000000) demo_request demo_handler = (h', Status 200)
     \<and> ct_value (DupDroppedTotal (hd_metrics h')) + ct_value (EnqueuedTotal (hd_metrics h'))
      + sum_list (map (label_value (ErrorsTotal (hd_metrics h'))) error_labels) = 1"
proof -
  obtain h' where h: "ServeHTTP (\<lambda>_. Some demo_event) (unix_time 1700000000) demo_request demo_handler = (h', Status 200)"
    using demo_serve demo_handled by auto
  from ServeHTTP_accounted[OF h] h show ?thesis
    by (simp add: demo_handler_def new_metrics_def error_labels_def label_value_def)
qed

text \<open>C19. The handler under concurrency: from a fresh handler, whatever the interleaving of requests (each in
  three atomic steps), the job loop and a shutdown, every marked event accounts for exactly one job, no
  unmarked event for any, the queue never exceeds its capacity, and no event is received or queued twice. The zero
  jobs that the loop receives beside them come only from the closed channel, and the worker ignores them.\<close>

theorem webhook_exactly_once:
  assumes "webhook_step\<^sup>*\<^sup>* (machine_start h) m" and "hd_seen h = Map.empty" and "hd_jobs h = []"
  shows "(\<forall>i. count (image_mset jb_EventID (all_jobs m)) i = (if seen (mc_handler m) i then 1 else 0))
    \<and> length (hd_jobs (mc_handler m)) \<le> hd_cap (mc_handler m)
    \<and> distinct (map jb_EventID (mc_received m @ hd_jobs (mc_handler m)))
    \<and> (mc_zeros m = 0 \<or> hd_closed (mc_handler m))
    \<and> pr_worker (Process conv env zero_job w) = w \<and> pr_label (Process conv env zero_job w) = Some ''ignored''"
  using webhook_run_invariant[OF assms] once_each_received[of m] zero_job_ignored[of conv env w]
  unfolding once_each_def queue_bounded_def zeros_closed_def by blast

theorem webhook_exactly_once_witness:
  "\<exists>m. webhook_step\<^sup>*\<^sup>* (machine_start demo_handler) m \<and> mc_missed m = {#demo_event#} \<and> mc_zeros m = 1
     \<and> count (image_mset jb_EventID (all_jobs m)) ''evt_1'' = 1"
proof -
  let ?m0 = "machine_start demo_handler"
  let ?m1 = "?m0\<lparr>mc_missed := {#demo_event#}\<rparr>" and ?m2 = "?m0\<lparr>mc_missed := {#demo_event, demo_event#}\<rparr>"
  let ?h = "demo_handler\<lparr>hd_seen := (hd_seen demo_handler)(ev_ID demo_event \<mapsto> True)\<rparr>"
  let ?m3 = "?m2\<lparr>mc_handler := ?h, mc_missed := {#demo_event#}, mc_accepted := {#job_of demo_event#}\<rparr>"
  let ?m4 = "?m3\<lparr>mc_handler := ?h\<lparr>hd_closed := True\<rparr>\<rparr>" and ?m5 = "?m3\<lparr>mc_handler := ?h\<lparr>hd_closed := True\<rparr>, mc_zeros := 1\<rparr>"
  have ns: "\<not> seen demo_handler (ev_ID demo_event)" by (simp add: seen_def demo_handler_def)
  have "webhook_step ?m0 ?m1"
    using webhook_step.request[OF request_step.fast_miss[of ?m0 demo_event]] ns by (simp add: machine_start_def)
  moreover have "webhook_step ?m1 ?m2"
    using webhook_step.request[OF request_step.fast_miss[of ?m1 demo_event]] ns by (simp add: machine_start_def)
  moreover have "webhook_step ?m2 ?m3"
    using webhook_step.request[OF request_step.slow_mark[of ?m2 demo_event "{#demo_event#}" ?h]] ns
    by (simp add: machine_start_def check_and_mark_iff)
  moreover have "webhook_step ?m3 ?m4" using webhook_step.close_jobs[of ?m3] by simp
  moreover have "webhook_step ?m4 ?m5"
    using webhook_step.receive_zero[of ?m4] by (simp add: recv_job_def demo_handler_def machine_start_def)
  ultimately have r: "webhook_step\<^sup>*\<^sup>* ?m0 ?m5" by (meson converse_rtranclp_into_rtranclp rtranclp.rtrancl_refl)
  have "hd_seen demo_handler = Map.empty" "hd_jobs demo_handler = []" by (simp_all add: demo_handler_def)
  from webhook_exactly_once[OF r this] have "count (image_mset jb_EventID (all_jobs ?m5)) ''evt_1'' = 1"
    by (simp add: seen_def demo_event_def)
  with r show ?thesis by (intro exI[of _ ?m5]) simp
qed

text \<open>C20. The sequential handler is the concurrent machine run without interruption: the request of an event that
  nothing interrupts can end, it ends with \<open>handle_event\<close>'s answer and in the machine with \<open>handle_event\<close>'s handler, and it
  cannot end in any other way; its steps are steps of the machine and leave nothing of the request pending.\<close>

theorem handle_event_refines_machine:
  "((request_step e)\<^sup>*\<^sup>* (Arrived, m) (Answered res, m') \<longleftrightarrow> res = snd (handle_event e (mc_handler m)) \<and> m' = after_alone e m)
   \<and> mc_handler (after_alone e m) = fst (handle_event e (mc_handler m))
   \<and> mc_missed (after_alone e m) = mc_missed m \<and> mc_accepted (after_alone e m) = mc_accepted m
   \<and> webhook_step\<^sup>*\<^sup>* m (after_alone e m)"
proof -
  have "(request_step e)\<^sup>*\<^sup>* (Arrived, m) (Answered (snd (handle_event e (mc_handler m))), after_alone e m)"
    by (simp add: request_alone)
  from request_steps_webhook[OF this] show ?thesis by (simp add: request_alone) (simp add: after_alone_def Let_def)
qed

text \<open>C21. What the webhook worker does with a job, for every configured number of attempts: an unsupported event is
  ignored; with a number below one the job fails untried; otherwise it is tried exactly once, and the result is that of
  the one try. No backoff is ever waited for, because every error is wrapped before the retry test, which looks at the
  outermost error only; so no job is given up for its number of attempts after an error.\<close>

theorem worker_never_retries:
  "Process conv env job w =
     (if jb_Type job \<notin> set SupportedEventTypes
      then \<lparr>pr_worker = w, pr_outcome = JobDone None, pr_backoffs = [], pr_label = Some ''ignored''\<rparr>
      else if sint (rt_MaxAttempts (wr_retryCfg w)) \<le> 0
      then \<lparr>pr_worker = w, pr_outcome = JobDone (Some (AttemptsExhausted (rt_MaxAttempts (wr_retryCfg w)) None)),
             pr_backoffs = [], pr_label = Some ''failed''\<rparr>
      else \<lparr>pr_worker = fst (processOnce env 0 job w), pr_outcome = snd (processOnce env 0 job w), pr_backoffs = [],
             pr_label = (case snd (processOnce env 0 job w) of JobPanic \<Rightarrow> None | JobDone None \<Rightarrow> Some ''success''
               | JobDone (Some _) \<Rightarrow> Some ''failed'')\<rparr>)
   \<and> pr_outcome (Process conv env job w) \<noteq> JobDone (Some (AttemptsExhausted n (Some err)))"
  using Process_once[of conv env job w] Process_not_exhausted[of conv env job w n err] by blast

text \<open>C22. The backoff computed in binary64 is exact: for a positive base and a non-negative maximum below
  \<open>2 ^ 53\<close> nanoseconds and every attempt it is the minimum of the base times \<open>2 ^ n\<close> and the maximum.\<close>

theorem backoff_exact:
  assumes "0 < sint (rt_BaseBackoff cfg)" "sint (rt_BaseBackoff cfg) < 2 ^ 53"
    and "0 \<le> sint (rt_MaxBackoff cfg)" "sint (rt_MaxBackoff cfg) < 2 ^ 53"
  shows "sint (calculateBackoff conv cfg n) = min (sint (rt_BaseBackoff cfg) * 2 ^ n) (sint (rt_MaxBackoff cfg))"
  by (rule calculateBackoff_exact[OF assms])

theorem backoff_exact_witness:
  "sint (calculateBackoff (\<lambda>_. 0) \<lparr>rt_MaxAttempts = 5, rt_BaseBackoff = seconds 2, rt_MaxBackoff = seconds 30\<rparr> 3) = 16000000000
   \<and> sint (calculateBackoff (\<lambda>_. 0) \<lparr>rt_MaxAttempts = 5, rt_BaseBackoff = seconds 2, rt_MaxBackoff = seconds 30\<rparr> 4) = 30000000000"
  using backoff_exact[of "\<lparr>rt_MaxAttempts = 5, rt_BaseBackoff = seconds 2, rt_MaxBackoff = seconds 30\<rparr>" "\<lambda>_. 0" 3]
    backoff_exact[of "\<lparr>rt_MaxAttempts = 5, rt_BaseBackoff = seconds 2, rt_MaxBackoff = seconds 30\<rparr>" "\<lambda>_. 0" 4]
  by (simp add: seconds_def)

section \<open>The webhook server\<close>

text \<open>C23. What a running webhook server keeps, over every sequence of requests, job-loop turns, heartbeats
  and poll cycles: the worker's exporter stays the empty one it was built with, so nothing is ever exported
  and every heartbeat reports zero depth and drops; and the privacy mode stays one of the two modes.\<close>

theorem server_invariant:
  assumes "start_server conv wenv env cfg salt fs = Inr s" and "salt \<noteq> []"
    and "\<forall>job. map_order_ok (we_order (ra_env ra job))"
  shows "(\<forall>w. sv_worker (snd (server_run ra es s)) = Some w \<longrightarrow>
        New (se_mkdir env) \<lparr>op_Config = cfg_Export cfg, op_TenantKey = ''test-tenant-key'', op_QueueCapacity = 500\<rparr> = Inr (wr_exporter w))
    \<and> mode_ok (GetMode (sv_agent (snd (server_run ra es s))))
    \<and> (\<forall>req. HeartbeatPosted (Some req) \<in> set (fst (server_run ra es s)) \<longrightarrow>
        (\<exists>p. ra_payload ra p = Some (sr_Body req) \<and> mode_ok (pl_Mode p) \<and> pl_QueueDepth p = 0 \<and> pl_DroppedCount p = 0))"
proof -
  obtain w x where w: "server_ok w s" "wr_ensemble w = linker_ensemble salt (mc_Recipe (cfg_Matchers cfg))" "wr_exporter w = x"
    and x: "New (se_mkdir env) \<lparr>op_Config = cfg_Export cfg, op_TenantKey = ''test-tenant-key'', op_QueueCapacity = 500\<rparr> = Inr x"
    by (rule start_server_ok[OF assms(1)])
  have m: "\<forall>m\<in>set (en_Matchers (wr_ensemble w)). is_matcher m True"
    using linker_ensemble_matchers[of _ salt "mc_Recipe (cfg_Matchers cfg)"] assms(2) by (simp add: w(2))
  have "\<forall>out\<in>set (fst (server_run ra es s)). zero_heartbeat ra out"
    by (rule server_run_heartbeats[OF assms(3) m x[folded w(3)] w(1)])
  then have hb: "HeartbeatPosted (Some req) \<in> set (fst (server_run ra es s)) \<Longrightarrow>
      \<exists>p. ra_payload ra p = Some (sr_Body req) \<and> mode_ok (pl_Mode p) \<and> pl_QueueDepth p = 0 \<and> pl_DroppedCount p = 0" for req
    unfolding zero_heartbeat_def by blast
  have ok: "server_ok w (snd (server_run ra es s))" by (rule server_run_ok[OF assms(3) m w(1)])
  then have "sv_worker (snd (server_run ra es s)) = Some w' \<Longrightarrow> w' = w" for w' by (simp add: server_ok_def)
  with hb ok x w(3) show ?thesis by (auto simp: server_ok_def)
qed

definition demo_codec :: state_codec where
  "demo_codec = \<lparr>sc_marshal = (\<lambda>st. Some (as_PrivacyMode st)), sc_unmarshal = (\<lambda>d old. Some \<lparr>as_PrivacyMode = d\<rparr>)\<rparr>"

definition demo_server_env :: server_env where
  "demo_server_env = \<lparr>se_home = Some ''/home/u'', se_random = Some ''0123'', se_faults = no_faults, se_codec = demo_codec, se_now = 0,
     se_mkdir = (\<lambda>_. True), se_metrics = new_metrics\<rparr>"

definition demo_worker_env :: worker_env where
  "demo_worker_env = \<lparr>we_invoice = (\<lambda>_ _ _. Inl ContextCanceled), we_subscription = (\<lambda>_ _ _. Inr demo_sub), we_cancelled = (\<lambda>_. None),
     we_marshal = (\<lambda>e. Some (le_Proof e)), we_order = insertion_order\<rparr>"

definition demo_args :: run_args where
  "demo_args = \<lparr>ra_conv = (\<lambda>_. 0), ra_env = (\<lambda>_. demo_worker_env), ra_parse = (\<lambda>_. Some demo_event),
     ra_payload = (\<lambda>p. Some (pl_Mode p)),
     ra_poll = \<lparr>px_poll = (\<lambda>_. Some []), px_ack = (\<lambda>_. Some []), px_command = (\<lambda>_. None)\<rparr>, ra_show = (\<lambda>_. [])\<rparr>"

lemma demo_home: "expandHomeDir (Some ''/home/u'') DefaultStoragePath = ''/home/u/.connektn/agent-id''"
  by (simp add: expandHomeDir_def DefaultStoragePath_def has_prefix_def clean_example)

lemma demo_agent: "is_ok (start_agent demo_server_env demo_config Map.empty)"
  by (simp add: start_agent_def demo_server_env_def demo_config_def GetOrCreate_def read_id_def ReadFile_def generate_def write_id_def
      WriteFile_def no_faults_def NewGenerator_def NewManager_def Load_state_def New_agent_def initial_mode_def GetPrivacyMode_def
      bindE_def map_error_def Let_def demo_home)

lemma demo_worker: "is_ok (start_worker demo_server_env demo_config ''salt'' (the (so_Stripe (cfg_Sources demo_config))))"
  by (simp add: start_worker_def demo_server_env_def demo_config_def New_def mode_http_def mode_file_def positive_or_def
      NewWorker_def bindE_def map_error_def Let_def seconds_def)

lemma demo_server_starts: "\<exists>s. start_server (\<lambda>_. 0) (\<lambda>_. demo_worker_env) demo_server_env demo_config ''salt'' Map.empty = Inr s"
proof -
  obtain aw where aw: "start_agent demo_server_env demo_config Map.empty = Inr aw" using demo_agent unfolding is_ok_iff by blast
  obtain w where w: "start_worker demo_server_env demo_config ''salt'' (the (so_Stripe (cfg_Sources demo_config))) = Inr w"
    using demo_worker unfolding is_ok_iff by blast
  have i: "ag_id (aw_agent aw) \<noteq> []"
    using aw by (auto simp: start_agent_def bindE_Inr_iff New_agent_def Let_def split: prod.splits sum.splits if_splits)
  obtain src where src: "so_Stripe (cfg_Sources demo_config) = Some src" "wh_Enabled (st_Webhook src)"
    by (simp add: demo_config_def demo_webhook_def)
  have hb: "\<exists>h. NewHeartbeatSender n (heartbeat_endpoint demo_config) iv (hb_SignatureSecret (cfg_Heartbeat demo_config)) = Inr h" for n iv
    by (simp add: NewHeartbeatSender_def heartbeat_endpoint_def demo_config_def)
  have po: "\<exists>p. start_poller demo_server_env demo_config (ag_id (aw_agent aw)) = Inr p"
    using i by (simp add: start_poller_def NewPoller_def demo_config_def bindE_def)
  obtain h p where h: "NewHeartbeatSender (se_now demo_server_env) (heartbeat_endpoint demo_config) (hb_Interval (cfg_Heartbeat demo_config))
      (hb_SignatureSecret (cfg_Heartbeat demo_config)) = Inr h" "start_poller demo_server_env demo_config (ag_id (aw_agent aw)) = Inr p"
    using hb po by blast
  show ?thesis
    unfolding start_server_def aw bindE_def src(1) sum.case option.case
    using w src h by (simp add: NewHandler_def map_error_def optionally_def Let_def)
qed

theorem server_invariant_witness:
  "\<exists>s. start_server (\<lambda>_. 0) (\<lambda>_. demo_worker_env) demo_server_env demo_config ''salt'' Map.empty = Inr s
     \<and> mode_ok (GetMode (sv_agent (snd (server_run demo_args [Request 0 demo_request, LoopTurn JobReady] s))))"
proof -
  obtain s where s: "start_server (\<lambda>_. 0) (\<lambda>_. demo_worker_env) demo_server_env demo_config ''salt'' Map.empty = Inr s"
    using demo_server_starts by blast
  have "\<forall>job. map_order_ok (we_order (ra_env demo_args job))"
    by (simp add: demo_args_def demo_worker_env_def insertion_order_ok)
  from server_invariant[OF s _ this, of "[Request 0 demo_request, LoopTurn JobReady]"] s show ?thesis by blast
qed

text \<open>C24. A remote stop or restart leaves the server accepting work that nothing does: once the job loop has
  taken the cancelled context, in every run of the process up to the drain of the handler's \<open>Shutdown\<close>, which only a
  signal brings about, the worker stays as it was and no job leaves the queue, while an authentic request for a new event
  with room in the queue is still answered 200 and its job appended. The drain takes the first jobs it has the time for.\<close>

theorem restart_stops_processing:
  assumes "aw_cancelled (sv_agent (ps_server p))" and "\<not> hd_closed (sv_handler (ps_server p))"
    and "(process_step ra)\<^sup>*\<^sup>* (p\<lparr>ps_server := snd (server_step ra (LoopTurn CtxDone) (ps_server p))\<rparr>) p'"
    and "ps_shutdown p' = AwaitSignal \<or> ps_shutdown p' = InServerShutdown \<or> ps_shutdown p' = InHandlerShutdown"
  shows "sv_worker (ps_server p') = sv_worker (ps_server p)
    \<and> (\<exists>js. hd_jobs (sv_handler (ps_server p')) = hd_jobs (sv_handler (ps_server p)) @ js)
    \<and> (authentic now r (sv_handler (ps_server p')) body \<and> ra_parse ra body = Some e \<and> \<not> seen (sv_handler (ps_server p')) (ev_ID e)
         \<and> length (hd_jobs (sv_handler (ps_server p'))) < hd_cap (sv_handler (ps_server p')) \<longrightarrow>
         fst (server_step ra (Request now r) (ps_server p')) = Some (Responded (Status 200))
         \<and> hd_jobs (sv_handler (snd (server_step ra (Request now r) (ps_server p')))) = hd_jobs (sv_handler (ps_server p')) @ [job_of e])
    \<and> hd_jobs (sv_handler (handler_shutdown ra n (ps_server p'))) = drop n (hd_jobs (sv_handler (ps_server p')))"
proof -
  have s: "stuck (sv_handler (ps_server p)) (sv_worker (ps_server p)) (ps_server p')"
    using process_stuck[OF assms(3)] loop_stops[OF assms(1)] assms(4) by (simp del: server_step.simps)
  then have "\<not> hd_closed (sv_handler (ps_server p'))" using assms(2) by (simp add: stuck_def)
  with s request_accepted[of now r "ps_server p'" body ra e] handler_shutdown_drains[of "ps_server p'" ra n] show ?thesis
    unfolding stuck_def by blast
qed

definition demo_cancelled :: server where
  "demo_cancelled = \<lparr>sv_agent = \<lparr>aw_agent = \<lparr>ag_id = ''agent_1'', ag_organizationID = ''org'', ag_version = ''1'', ag_startTime = 0,
       ag_mode = ''strict'', ag_stateManager = None, ag_shutdownFn = True\<rparr>, aw_files = Map.empty, aw_cancelled = True\<rparr>,
     sv_worker = None, sv_handler = demo_handler, sv_heartbeat = None, sv_poller = None, sv_looping = True\<rparr>"

theorem restart_stops_processing_witness:
  "\<exists>p'. (process_step demo_args)\<^sup>*\<^sup>* ((process_start demo_cancelled)\<lparr>ps_server := snd (server_step demo_args (LoopTurn CtxDone) demo_cancelled)\<rparr>) p'
     \<and> hd_jobs (sv_handler (ps_server p')) = [job_of demo_event] \<and> ps_shutdown p' = AwaitSignal
     \<and> hd_jobs (sv_handler (handler_shutdown demo_args 1 (ps_server p'))) = []"
proof -
  let ?s = "snd (server_step demo_args (LoopTurn CtxDone) demo_cancelled)"
  let ?start = "process_start demo_cancelled" and ?req = "Request (unix_time 1700000000) demo_request"
  let ?q = "?start\<lparr>ps_server := ?s\<rparr>"
  let ?q1 = "?q\<lparr>ps_server := snd (server_step demo_args ?req (ps_server ?q))\<rparr>"
  have h: "sv_handler (ps_server ?q) = demo_handler" by (simp add: demo_cancelled_def process_start_def)
  have c: "aw_cancelled (sv_agent (ps_server ?start))" "\<not> hd_closed (sv_handler (ps_server ?start))"
    by (simp_all add: demo_cancelled_def process_start_def demo_handler_def)
  have p: "ps_server ?start = demo_cancelled" by (simp add: process_start_def)
  have r0: "(process_step demo_args)\<^sup>*\<^sup>* (?start\<lparr>ps_server := snd (server_step demo_args (LoopTurn CtxDone) (ps_server ?start))\<rparr>) ?q"
    unfolding p by (rule rtranclp.rtrancl_refl)
  have "authentic (unix_time 1700000000) demo_request demo_handler ''{}''"
    using demo_body demo_verified by (simp add: authentic_def demo_request_def demo_handler_def demo_webhook_def)
  moreover have "ra_parse demo_args ''{}'' = Some demo_event" by (simp add: demo_args_def)
  moreover have "\<not> seen demo_handler (ev_ID demo_event)" "length (hd_jobs demo_handler) < hd_cap demo_handler" "hd_jobs demo_handler = []"
    by (simp_all add: seen_def demo_handler_def)
  moreover have "ps_shutdown ?q = AwaitSignal" by (simp add: process_start_def)
  ultimately have j: "hd_jobs (sv_handler (snd (server_step demo_args ?req (ps_server ?q)))) = [job_of demo_event]"
    using restart_stops_processing[OF c r0, of "unix_time 1700000000" demo_request "''{}''" demo_event] unfolding h by simp
  have "process_step demo_args ?q ?q1" by (rule process_step.server_event) (simp add: process_start_def)
  with r0 have r1: "(process_step demo_args)\<^sup>*\<^sup>* (?start\<lparr>ps_server := snd (server_step demo_args (LoopTurn CtxDone) (ps_server ?start))\<rparr>) ?q1"
    by (rule rtranclp.rtrancl_into_rtrancl)
  have a: "ps_shutdown ?q1 = AwaitSignal" by (simp add: process_start_def)
  from restart_stops_processing[OF c r1, of _ _ _ _ 1] a j
  have "hd_jobs (sv_handler (handler_shutdown demo_args 1 (ps_server ?q1))) = []" by simp
  with r1 a j show ?thesis unfolding p by (intro exI[of _ ?q1]) simp
qed

text \<open>C25. The server process leaves regularly only after a signal, but then without waiting for the shutdown: from
  every state in which it still listens, a run ends with exit status 0 in which the shutdown goroutine has got no
  further than where it was, or to the start of the HTTP server's shutdown, so the jobs in the queue and the
  worker's exporter are left as they were; the orderly end is possible as well.\<close>

theorem process_exit_race:
  assumes "(process_step ra)\<^sup>*\<^sup>* (process_start s) p"
  shows "(ps_main p = Exited 0 \<longrightarrow> ps_shutdown p \<noteq> AwaitSignal)
    \<and> (ps_main p = Listening \<longrightarrow> (\<exists>p'. (process_step ra)\<^sup>*\<^sup>* p p' \<and> ps_main p' = Exited 0
         \<and> ps_shutdown p' = (if ps_shutdown p = AwaitSignal then InServerShutdown else ps_shutdown p)
         \<and> sv_handler (ps_server p') = sv_handler (ps_server p) \<and> sv_worker (ps_server p') = sv_worker (ps_server p)))
    \<and> (ps_main p = Listening \<and> ps_shutdown p = AwaitSignal \<longrightarrow> (\<exists>p'. (process_step ra)\<^sup>*\<^sup>* p p' \<and> ps_main p' = Exited 0
         \<and> ps_shutdown p' = ShutdownDone \<and> sv_handler (ps_server p') = sv_handler (snd (shutdown_server ra n (ps_server p)))))"
proof -
  have l: "\<exists>p'. (process_step ra)\<^sup>*\<^sup>* p p' \<and> ps_main p' = Exited 0
         \<and> ps_shutdown p' = (if ps_shutdown p = AwaitSignal then InServerShutdown else ps_shutdown p)
         \<and> sv_handler (ps_server p') = sv_handler (ps_server p) \<and> sv_worker (ps_server p') = sv_worker (ps_server p)" if "ps_main p = Listening"
    using exit_early[OF that, of ra] by (auto simp: handlerCancel_def)
  have "\<exists>p'. (process_step ra)\<^sup>*\<^sup>* p p' \<and> ps_main p' = Exited 0 \<and> ps_shutdown p' = ShutdownDone
      \<and> sv_handler (ps_server p') = sv_handler (snd (shutdown_server ra n (ps_server p)))"
    if "ps_main p = Listening" "ps_shutdown p = AwaitSignal"
    using exit_orderly[OF that, of ra n] by (auto simp: handlerCancel_def)
  with l exit_after_signal[OF assms] show ?thesis by blast
qed

theorem process_exit_race_witness:
  "\<exists>s p'. start_server (\<lambda>_. 0) (\<lambda>_. demo_worker_env) demo_server_env demo_config ''salt'' Map.empty = Inr s
     \<and> (process_step demo_args)\<^sup>*\<^sup>* (process_start s) p' \<and> ps_main p' = Exited 0 \<and> ps_shutdown p' = InServerShutdown"
proof -
  obtain s where s: "start_server (\<lambda>_. 0) (\<lambda>_. demo_worker_env) demo_server_env demo_config ''salt'' Map.empty = Inr s"
    using demo_server_starts by blast
  have "ps_main (process_start s) = Listening" "ps_shutdown (process_start s) = AwaitSignal" by (simp_all add: process_start_def)
  with process_exit_race[of demo_args s "process_start s"] s show ?thesis by auto
qed

section \<open>Control commands\<close>

text \<open>C26. No replay: once a command was accepted, every later command with its nonce and timestamp is
  rejected, whatever commands (forged ones included) were verified in between and however long ago it was,
  provided the nonces live at least as long as the clock skew allows, plus the time between the two clock
  reads of one verification.\<close>

theorem command_replay_rejected:
  assumes "Verify marshal clock secret skew c nc = (None, nc1)"
    and "\<forall>(k, c')\<in>set cs. k 1 \<le> clock' 1"
    and "cmd_Nonce c' = cmd_Nonce c" "fst (cmd_Timestamp c') = fst (cmd_Timestamp c)"
    and "sint skew + (clock' 1 - clock' 0) \<le> sint (nc_ttl nc)"
    and "\<bar>clock' 0 - fst (cmd_Timestamp c)\<bar> \<le> max_duration" "\<bar>clock' 1 - fst (cmd_Timestamp c)\<bar> \<le> max_duration"
  shows "fst (Verify marshal clock' secret skew c' (verify_all marshal secret skew cs nc1)) \<noteq> None"
  by (rule replay_rejected[OF assms])

definition demo_command :: Command where
  "demo_command = \<lparr>cmd_Command = ''switch_mode'', cmd_Params = [''mode'' \<mapsto> JString ''passthrough''], cmd_Timestamp = (0, 0),
     cmd_Nonce = ''n1'', cmd_Signature = []\<rparr>"

lemma demo_within: "within_skew 0 0 (seconds 300)"
  by (simp add: within_skew_def time_sub_def abs64_def seconds_def Let_def min_duration_def max_duration_def)

lemma demo_signed:
  obtains c nc where "Sign (\<lambda>_. Some ''m'') ''secret'' demo_command = Inr c" "cmd_Nonce c = ''n1''" "fst (cmd_Timestamp c) = 0"
    "Verify (\<lambda>_. Some ''m'') (\<lambda>_. 0) ''secret'' (seconds 300) c \<lparr>nc_cache = Map.empty, nc_ttl = seconds 600\<rparr> = (None, nc)"
proof -
  obtain c where c: "Sign (\<lambda>_. Some ''m'') ''secret'' demo_command = Inr c" by (simp add: Sign_def)
  from Sign_Inr[OF c] have f: "cmd_Nonce c = ''n1''" "fst (cmd_Timestamp c) = 0" by (auto simp: demo_command_def)
  have "fst (Verify (\<lambda>_. Some ''m'') (\<lambda>_. 0) ''secret'' (seconds 300) c \<lparr>nc_cache = Map.empty, nc_ttl = seconds 600\<rparr>) = None"
    by (rule Sign_accepted[OF c]) (simp_all add: demo_command_def demo_within cleanup_def)
  then obtain nc where "Verify (\<lambda>_. Some ''m'') (\<lambda>_. 0) ''secret'' (seconds 300) c \<lparr>nc_cache = Map.empty, nc_ttl = seconds 600\<rparr> = (None, nc)"
    by (metis prod.collapse)
  with that c f show thesis by blast
qed

theorem command_replay_rejected_witness:
  "\<exists>c nc. Verify (\<lambda>_. Some ''m'') (\<lambda>_. 0) ''secret'' (seconds 300) c \<lparr>nc_cache = Map.empty, nc_ttl = seconds 600\<rparr> = (None, nc)
     \<and> fst (Verify (\<lambda>_. Some ''m'') (\<lambda>_. 5) ''secret'' (seconds 300) c nc) \<noteq> None"
proof -
  obtain c nc where "cmd_Nonce c = ''n1''" "fst (cmd_Timestamp c) = 0" and
    v: "Verify (\<lambda>_. Some ''m'') (\<lambda>_. 0) ''secret'' (seconds 300) c \<lparr>nc_cache = Map.empty, nc_ttl = seconds 600\<rparr> = (None, nc)"
    by (rule demo_signed)
  then have "fst (Verify (\<lambda>_. Some ''m'') (\<lambda>_. 5) ''secret'' (seconds 300) c
      (verify_all (\<lambda>_. Some ''m'') ''secret'' (seconds 300) [] nc)) \<noteq> None"
    by (intro command_replay_rejected[OF v]) (simp_all add: seconds_def max_duration_def)
  with v show ?thesis by auto
qed

text \<open>C27. From the command line to the handler: the command that \<open>send-command\<close> signs is accepted by a
  handler with the same secret when its time is within the skew and its nonce is fresh, runs the registered
  function on the parameters parsed from the arguments, and the result reports that function's outcome.\<close>

theorem sent_command_executed:
  assumes "signed_command env cmdType args = Inr c" and "ch_secret h = control_secret (sd_getenv env)"
    and "within_skew (clock 0) (sd_now env) (ch_maxClockSkew h)"
    and "nc_cache (cleanup (clock 1) (ch_nonceCache h)) (sd_uuid env) = None"
    and "ch_commandRouter h cmdType = Some f" and "f (parse_params args) s = (r, t)"
  shows "\<exists>res h'. Handle (sd_marshal env) clock c h s = (res, map_option ExecutionFailed r, h', t)
    \<and> cr_Success res = (r = None) \<and> cr_Command res = cmdType"
  by (rule sent_command_handled[OF assms])

definition demo_cli :: send_env where
  "demo_cli = \<lparr>sd_getenv = (\<lambda>_. []), sd_now = 0, sd_uuid = ''n1'', sd_marshal = (\<lambda>_. Some ''m''), sd_indent = (\<lambda>_. None),
     sd_post = (\<lambda>_ _. None), sd_result = (\<lambda>_. None)\<rparr>"

definition demo_router :: "(string, unit) Handler_control" where
  "demo_router = RegisterCommand ''switch_mode'' (\<lambda>ps s. (None, case string_param ps ''mode'' of None \<Rightarrow> s | Some m \<Rightarrow> m))
     (NewHandler_control ''test-control-secret-key'' (seconds 300) (seconds 600))"

theorem sent_command_executed_witness:
  "\<exists>c res h'. signed_command demo_cli ''switch_mode'' [''mode=passthrough''] = Inr c
     \<and> Handle (\<lambda>_. Some ''m'') (\<lambda>_. 0) c demo_router ''strict'' = (res, None, h', ''passthrough'') \<and> cr_Success res"
proof -
  obtain c where c: "signed_command demo_cli ''switch_mode'' [''mode=passthrough''] = Inr c"
    by (simp add: signed_command_def Sign_def demo_cli_def control_secret_def)
  have p: "parse_params [''mode=passthrough''] = [''mode'' \<mapsto> JString ''passthrough'']"
    using parse_params_last[of "''mode''" "[]" "''passthrough''"] by (simp add: parse_params_def)
  show ?thesis
    using sent_command_executed[where clock = "\<lambda>_. 0" and h = demo_router and s = "''strict''" and r = None and t = "''passthrough''", OF c] c
    by (auto simp: demo_router_def demo_cli_def RegisterCommand_def NewHandler_control_def control_secret_def demo_within
        cleanup_def p string_param_def)
qed

text \<open>C28. Nothing is executed for a request that is not a correctly signed command: if no command in the body
  carries the HMAC of its own content under the handler's secret, the endpoint leaves the agent and the
  registered commands unchanged and answers an error or an unsuccessful result.\<close>

theorem unsigned_request_ignored:
  assumes "handleCommand marshal parse clock httpMethod body h s = (resp, h', s')"
    and "\<forall>b c. body = Some b \<and> parse b = Some c \<longrightarrow> \<not> verifySignature marshal (ch_secret h) c"
  shows "s' = s \<and> ch_commandRouter h' = ch_commandRouter h
    \<and> ((\<exists>code msg. resp = ErrorResponse code msg) \<or> (\<exists>res. resp = ResultResponse 200 res \<and> \<not> cr_Success res))"
proof (cases "\<exists>b c. httpMethod = ''POST'' \<and> read_max (1024 * 1024) body = Some b \<and> parse b = Some c")
  case False
  then show ?thesis using assms(1) unfolding handleCommand_def by (auto split: if_splits option.splits)
next
  case True
  then obtain b c where b: "httpMethod = ''POST''" "read_max (1024 * 1024) body = Some b" "parse b = Some c" by blast
  then have "body = Some b" by (auto simp: read_max_def split: option.splits if_splits)
  with assms(2) b have u: "\<not> verifySignature marshal (ch_secret h) c" by blast
  obtain res err h1 s1 where e: "Handle marshal clock c h s = (res, err, h1, s1)" by (metis prod_cases4)
  have "ch_commandRouter h1 = ch_commandRouter h"
    using e by (auto simp: Handle_def Let_def split: prod.splits option.splits)
  with Handle_unverified[OF e u] e b assms(1) show ?thesis by (auto simp: handleCommand_def)
qed

theorem unsigned_request_ignored_witness:
  "\<exists>resp h'. handleCommand (\<lambda>_. Some ''m'') (\<lambda>_. Some (demo_command\<lparr>cmd_Signature := b64_encode ''forged''\<rparr>)) (\<lambda>_. 0) ''POST'' (Some ''{}'') demo_router ''strict''
     = (resp, h', ''strict'')"
proof -
  have "hmac_sha256 k x \<noteq> ''forged''" for k x
  proof
    assume "hmac_sha256 k x = ''forged''"
    then have "length (hmac_sha256 k x) = 6" by simp
    then show False by simp
  qed
  note h = this[symmetric]
  have d: "b64_decode (b64_encode ''forged'') = Some ''forged''" by (rule b64_decode_encode)
  have sel: "cmd_Signature (demo_command\<lparr>cmd_Signature := x\<rparr>) = x" for x by simp
  have n: "\<not> verifySignature (\<lambda>_. Some ''m'') k (demo_command\<lparr>cmd_Signature := b64_encode ''forged''\<rparr>)" for k
    unfolding verifySignature_def sel d by (simp add: h)
  obtain resp h' s' where r: "handleCommand (\<lambda>_. Some ''m'') (\<lambda>_. Some (demo_command\<lparr>cmd_Signature := b64_encode ''forged''\<rparr>)) (\<lambda>_. 0) ''POST'' (Some ''{}'')
      demo_router ''strict'' = (resp, h', s')" by (metis prod_cases3)
  from unsigned_request_ignored[OF r] n r show ?thesis by blast
qed

section \<open>The agent\<close>

text \<open>C29. A mode switch survives a restart: after a successful switch the state file makes a new agent come up
  in that mode, whatever mode the configuration asks for.\<close>

theorem switched_mode_survives_restart:
  assumes "codec_roundtrip sc" and "SwitchMode ft sc mode w = (None, w')"
    and "ag_stateManager (aw_agent w) = Some m" "mg_filePath m \<noteq> []"
    and "\<not> ft_mkdir ft' (Dir (mg_filePath m))" "\<not> ft_read ft' (mg_filePath m)"
    and "ao_AgentID cfg \<noteq> []" "ao_OrganizationID cfg \<noteq> []"
  shows "\<exists>m'' a. NewManager ft' sc (aw_files w') (mg_filePath m) = Inr m''
    \<and> New_agent now (cfg\<lparr>ao_StateManager := Some m''\<rparr>) = Inr a \<and> ag_mode a = mode"
  by (rule SwitchMode_restart[OF assms])

definition demo_world :: agent_world where
  "demo_world = \<lparr>aw_agent = \<lparr>ag_id = ''agent_1'', ag_organizationID = ''org'', ag_version = ''1'', ag_startTime = 0, ag_mode = ''strict'',
      ag_stateManager = Some \<lparr>mg_filePath = ''/s/state.json'', mg_state = \<lparr>as_PrivacyMode = []\<rparr>\<rparr>, ag_shutdownFn = True\<rparr>,
     aw_files = Map.empty, aw_cancelled = False\<rparr>"

theorem switched_mode_survives_restart_witness:
  "\<exists>w' m a. SwitchMode no_faults demo_codec ''passthrough'' demo_world = (None, w')
     \<and> NewManager no_faults demo_codec (aw_files w') ''/s/state.json'' = Inr m
     \<and> New_agent 9 \<lparr>ao_AgentID = ''agent_1'', ao_OrganizationID = ''org'', ao_Version = [], ao_InitialMode = ''strict'', ao_StateManager = Some m\<rparr> = Inr a
     \<and> ag_mode a = ''passthrough''"
proof -
  have rt: "codec_roundtrip demo_codec" by (auto simp: codec_roundtrip_def demo_codec_def)
  obtain w' where sw: "SwitchMode no_faults demo_codec ''passthrough'' demo_world = (None, w')"
    by (simp add: SwitchMode_def demo_world_def SetPrivacyMode_def Save_def demo_codec_def WriteFile_def Rename_def no_faults_def tmp_path_def Let_def)
  show ?thesis
    using switched_mode_survives_restart[OF rt sw, where ft' = no_faults and now = 9 and m = "\<lparr>mg_filePath = ''/s/state.json'', mg_state = \<lparr>as_PrivacyMode = []\<rparr>\<rparr>" and cfg = "\<lparr>ao_AgentID = ''agent_1'', ao_OrganizationID = ''org'', ao_Version = [],
        ao_InitialMode = ''strict'', ao_StateManager = None\<rparr>"] sw
    by (simp add: demo_world_def no_faults_def)
qed

text \<open>C30. The state file is replaced atomically: whatever point of \<open>Save\<close> a crash or a fault interrupts, the
  file holds either its old content or the complete new state.\<close>

theorem state_save_atomic:
  assumes "fs' \<in> save_crash_states ft sc m fs"
  shows "fs' (mg_filePath m) = fs (mg_filePath m)
    \<or> (\<exists>d. sc_marshal sc (mg_state m) = Some d \<and> fs' (mg_filePath m) = Some d)"
  by (rule Save_atomic[OF assms])

theorem state_save_atomic_witness:
  "\<exists>fs'\<in>save_crash_states no_faults demo_codec \<lparr>mg_filePath = ''s'', mg_state = \<lparr>as_PrivacyMode = ''strict''\<rparr>\<rparr> [''s'' \<mapsto> ''old''].
     fs' ''s.tmp'' = Some ''st'' \<and> fs' ''s'' = Some ''old''"
proof -
  let ?m = "\<lparr>mg_filePath = ''s'', mg_state = \<lparr>as_PrivacyMode = ''strict''\<rparr>\<rparr>"
  let ?fs = "[''s'' \<mapsto> ''old'']"
  let ?fs' = "?fs(''s.tmp'' \<mapsto> take 2 ''strict'')"
  have c: "?fs' \<in> save_crash_states no_faults demo_codec ?m ?fs"
    unfolding save_crash_states_def by (rule UnI2) (simp add: demo_codec_def tmp_path_def, rule exI[of _ 2], simp)
  from state_save_atomic[OF c] have "?fs' ''s'' = Some ''old''" by auto
  then show ?thesis by (intro bexI[OF _ c]) simp
qed

text \<open>C31. The agent's identity is stable as long as its file can be read: what \<open>GetOrCreate\<close> returns has the agent prefix,
  and every later call on the files it left, with any random source and any other faults, returns the same identifier and
  writes nothing. One failed read of the intact file loses it: the call then fails for want of random bytes, or, with a
  writable file, returns a new identifier and overwrites the old one with it.\<close>

theorem agent_id_stable:
  assumes "GetOrCreate ft rand g fs = (Inr ident, fs')"
  shows "has_prefix ident ''agent_''
    \<and> (if \<not> ft_read ft' (gn_storagePath g) then GetOrCreate ft' rand' g fs' = (Inr ident, fs')
       else GetOrCreate ft' None g fs' = (Inl RandomFailed, fs')
         \<and> (\<not> ft_mkdir ft' (Dir (gn_storagePath g)) \<and> \<not> ft_open ft' (gn_storagePath g) \<and> ft_write ft' (gn_storagePath g) = None \<longrightarrow>
              GetOrCreate ft' (Some b) g fs' =
                (Inr (''agent_'' @ hex_encode b), fs'(gn_storagePath g \<mapsto> ''agent_'' @ hex_encode b))))"
  using GetOrCreate_format[OF assms] GetOrCreate_stable[OF assms, of ft' rand'] GetOrCreate_unreadable[of ft' g] by simp

theorem agent_id_stable_witness:
  "\<exists>ident fs'. GetOrCreate no_faults (Some ''0123'') (NewGenerator (Some ''/home/u'') []) Map.empty = (Inr ident, fs')
     \<and> GetOrCreate no_faults None (NewGenerator (Some ''/home/u'') []) fs' = (Inr ident, fs')
     \<and> fst (GetOrCreate (no_faults\<lparr>ft_read := \<lambda>_. True\<rparr>) (Some ''4567'') (NewGenerator (Some ''/home/u'') []) fs') = Inr (''agent_'' @ hex_encode ''4567'')"
proof -
  obtain ident fs' where g: "GetOrCreate no_faults (Some ''0123'') (NewGenerator (Some ''/home/u'') []) Map.empty = (Inr ident, fs')"
    by (simp add: GetOrCreate_def read_id_def ReadFile_def generate_def write_id_def WriteFile_def no_faults_def NewGenerator_def)
  from agent_id_stable[OF g, of no_faults None]
    agent_id_stable[OF g, of "no_faults\<lparr>ft_read := \<lambda>_. True\<rparr>" None "''4567''"] g
  show ?thesis by (auto simp: no_faults_def)
qed

text \<open>C32. Remote commands keep the privacy mode valid: whatever the server answers to the polls of the running
  command poller with the handlers \<open>main\<close> registers, whatever the state file's faults, and at every point of the run,
  also of a cycle in which the server never stops giving out commands, the agent's mode is one of the two modes.\<close>

theorem poller_keeps_mode:
  assumes "po_handlers p = Map.empty" and "mode_ok (GetMode w)"
  shows "GetMode (Start_poller fuel show_err px env ctx (agent_poller ft sc p) evs w) \<in> {''strict'', ''passthrough''}"
proof -
  have "mode_ok (GetMode (Start_poller fuel show_err px env ctx (agent_poller ft sc p) evs w))"
    unfolding Start_poller_def by (rule poll_ticks_mode[OF assms])
  then show ?thesis by (simp add: mode_ok_def)
qed

definition demo_poller :: "(agent_world, agent_error command_error) Poller" where
  "demo_poller = \<lparr>po_cdpBaseURL = ''https://cdp'', po_agentID = ''agent_1'', po_organizationID = ''org'', po_secret = b64_encode ''k'',
     po_interval = seconds 30, po_timeout = seconds 10, po_handlers = Map.empty\<rparr>"

text \<open>A server with one command to give out, at poll 0, and nothing afterwards.\<close>

definition demo_server :: "nat \<Rightarrow> net_env" where
  "demo_server k = \<lparr>ne_now = 0, ne_after = 1, ne_random = Some ''0123'', ne_url_ok = (\<lambda>_. True), ne_done = False,
     ne_reply = (\<lambda>_. if k = 0 then Reply 200 (Some ''{}'') else Reply 204 None)\<rparr>"

definition demo_polls :: "string \<Rightarrow> poll_codec" where
  "demo_polls name = \<lparr>px_poll = (\<lambda>_. Some ''p''), px_ack = (\<lambda>_. Some ''a''),
     px_command = (\<lambda>_. Some \<lparr>pc_CommandID = ''c1'', pc_Command = name, pc_Params = [''mode'' \<mapsto> JString ''passthrough'']\<rparr>)\<rparr>"

lemma demo_signed_request: "\<exists>req. signed (agent_poller ft sc demo_poller) (demo_server k) url body = Inr req"
proof -
  have "po_secret (agent_poller ft sc demo_poller) = b64_encode ''k''"
    by (simp only: agent_poller_def RegisterHandler_def demo_poller_def Poller.simps)
  moreover have "b64_encode ''k'' \<noteq> []" by (simp only: b64_encode_Nil) simp
  ultimately show ?thesis
    by (simp only: signed_def SignRequest_def b64_decode_encode option.case)
      (simp add: demo_server_def generateNonce_def)
qed

lemma demo_polled: "fst (poll (demo_polls name) (demo_server k) (agent_poller ft sc demo_poller)) =
    Inr (if k = 0 \<and> name \<noteq> [] then px_command (demo_polls name) ''{}'' else None)"
proof -
  obtain req where "signed (agent_poller ft sc demo_poller) (demo_server k) (po_cdpBaseURL (agent_poller ft sc demo_poller) @ ''/api/agent/command/poll'') ''p'' = Inr req"
    using demo_signed_request by blast
  then show ?thesis by (simp add: poll_def demo_polls_def demo_server_def poll_reply_def client_Do_def)
qed

lemma demo_polled_command:
  "name \<noteq> [] \<Longrightarrow> polled_command (demo_polls name) demo_server (agent_poller ft sc demo_poller) n =
     (if n = 0 then px_command (demo_polls name) ''{}'' else None)"
  by (simp add: polled_command_def demo_polled)

text \<open>C33. A poll cycle ends as soon as the server has no further command. Every command is run by its handler and
  acknowledged directly after that, with its identifier and the status of its outcome, a failed one being the last: the
  acknowledgement is a request to the server, signed over its body, unless it does not marshal, the URL, the secret or the
  random source is unusable, or the context is done. Fuel above the number of commands is enough, and the state is that of
  the handlers run in order. The restart command itself ends the context its poller uses: it is never acknowledged.\<close>

theorem poll_cycle_ends:
  assumes "polled_command px env p (n + k) = None" and "k < fuel"
  shows "(\<exists>evs s'. pollOnce fuel show_err px env ctx p n s = (True, evs, s') \<and> acked px env ctx p n s evs
      \<and> s' = fold (\<lambda>cmd s. snd (executeCommand p cmd s)) (executed evs) s)
    \<and> (po_handlers po = Map.empty \<and> ag_shutdownFn (aw_agent w) \<and> \<not> aw_cancelled w
        \<and> polled_command px env (agent_poller ft sc po) 0 = Some cmd \<and> pc_Command cmd = ''restart'' \<and> \<not> ne_done (env 0) \<longrightarrow>
      (\<exists>req ack. pollOnce (Suc (Suc fuel)) show_err' px env aw_cancelled (agent_poller ft sc po) 0 w
         = (True, [Polled req, Executed cmd None, Acknowledged ack None, Polled None], w\<lparr>aw_cancelled := True\<rparr>)))"
proof -
  obtain evs s' where r: "pollOnce fuel show_err px env ctx p n s = (True, evs, s')"
    using pollOnce_terminates[OF assms, of show_err ctx s] by (cases "pollOnce fuel show_err px env ctx p n s") simp
  from pollOnce_acked[OF r] pollOnce_state[OF r] r have "\<exists>evs s'. pollOnce fuel show_err px env ctx p n s = (True, evs, s') \<and> acked px env ctx p n s evs
      \<and> s' = fold (\<lambda>cmd s. snd (executeCommand p cmd s)) (executed evs) s" by blast
  with restart_unacknowledged[of po w px env ft sc 0 cmd] show ?thesis by simp
qed

theorem poll_cycle_ends_witness:
  "\<exists>req ack w'. pollOnce 2 (\<lambda>_. []) (demo_polls ''switch_mode'') demo_server aw_cancelled (agent_poller no_faults demo_codec demo_poller) 0 demo_world = w'
     \<and> fst w' \<and> pollOnce (Suc (Suc 2)) (\<lambda>_. []) (demo_polls ''restart'') demo_server aw_cancelled (agent_poller no_faults demo_codec demo_poller) 0 (SetShutdownFunc demo_world)
     = (True, [Polled req, Executed (the (px_command (demo_polls ''restart'') [])) None, Acknowledged ack None, Polled None],
          (SetShutdownFunc demo_world)\<lparr>aw_cancelled := True\<rparr>)"
proof -
  let ?p = "agent_poller no_faults demo_codec demo_poller" and ?cmd = "the (px_command (demo_polls ''restart'') [])"
  have n: "polled_command (demo_polls ''switch_mode'') demo_server ?p (0 + 1) = None"
    "polled_command (demo_polls ''restart'') demo_server ?p (0 + 1) = None"
    "polled_command (demo_polls ''restart'') demo_server ?p 0 = Some ?cmd"
    by (simp_all add: demo_polled_command) (simp add: demo_polls_def)
  have h: "po_handlers demo_poller = Map.empty" "ag_shutdownFn (aw_agent (SetShutdownFunc demo_world))"
    "\<not> aw_cancelled (SetShutdownFunc demo_world)" "pc_Command ?cmd = ''restart''" "\<not> ne_done (demo_server 0)"
    by (simp_all add: demo_poller_def SetShutdownFunc_def demo_world_def demo_polls_def demo_server_def)
  have k: "(1::nat) < 2" by simp
  from conjunct1[OF poll_cycle_ends[OF n(1) k]]
  have s: "fst (pollOnce 2 (\<lambda>_. []) (demo_polls ''switch_mode'') demo_server aw_cancelled ?p 0 demo_world)" by (metis fst_conv)
  from h n(3) poll_cycle_ends[where po = demo_poller and w = "SetShutdownFunc demo_world" and ft = no_faults and sc = demo_codec
      and cmd = ?cmd and show_err' = "\<lambda>_. []", OF n(2) k, THEN conjunct2]
  obtain req ack where "pollOnce (Suc (Suc 2)) (\<lambda>_. []) (demo_polls ''restart'') demo_server aw_cancelled ?p 0 (SetShutdownFunc demo_world)
     = (True, [Polled req, Executed ?cmd None, Acknowledged ack None, Polled None], (SetShutdownFunc demo_world)\<lparr>aw_cancelled := True\<rparr>)"
    by auto
  with s show ?thesis by auto
qed

theorem poller_keeps_mode_witness:
  "GetMode (Start_poller 2 (\<lambda>_. []) (demo_polls ''switch_mode'') (\<lambda>c k. demo_server k) aw_cancelled
     (agent_poller no_faults demo_codec demo_poller) [Tick, Heartbeat.Done] demo_world) \<in> {''strict'', ''passthrough''}"
proof -
  have "po_handlers demo_poller = Map.empty" "mode_ok (GetMode demo_world)"
    by (simp_all add: demo_poller_def mode_ok_def GetMode_def demo_world_def)
  then show ?thesis by (rule poller_keeps_mode)
qed

text \<open>C34. Every heartbeat that is posted is signed over its own timestamp header, nonce header and body under the
  decoded secret, the three can be told apart in what is signed, and the reported flush time moves only when
  the server accepted the heartbeat, to the clock after the exchange.\<close>

theorem heartbeat_signed:
  assumes "sendHeartbeat marshal env a sink s = (err, s', Some req)"
  shows "(\<exists>key nonce. b64_decode (hb_secret s) = Some key \<and> sr_Nonce req = b64_encode nonce
      \<and> sr_Timestamp req = dec_int (sint (unix_seconds (ne_now env)))
      \<and> sr_Signature req = b64_encode (hmac_sha256 key (sign_message (unix_seconds (ne_now env)) (sr_Nonce req) (sr_Body req)))
      \<and> (\<forall>t n b. sign_message t (b64_encode n) b = sign_message (unix_seconds (ne_now env)) (sr_Nonce req) (sr_Body req)
           \<longrightarrow> t = unix_seconds (ne_now env) \<and> n = nonce \<and> b = sr_Body req))
    \<and> (err = None \<longleftrightarrow> (\<exists>code b. ne_reply env req = Reply code b \<and> 200 \<le> code \<and> code < 300))
    \<and> hb_lastFlushTimestamp s' = (if err = None then ne_after env else hb_lastFlushTimestamp s)"
proof -
  note p = sendHeartbeat_posted[OF assms]
  obtain nonce where n: "sr_Nonce req = b64_encode nonce"
    using assms by (auto simp: sendHeartbeat_def client_Do_def Let_def split: option.splits sum.splits if_splits http_reply.splits)
  obtain key where "b64_decode (hb_secret s) = Some key"
    "sr_Signature req = b64_encode (hmac_sha256 key (sign_message (unix_seconds (ne_now env)) (sr_Nonce req) (sr_Body req)))"
    using p(2) by (auto simp: SignRequest_Inr)
  with p(3,4,5) n sign_message_inject show ?thesis by auto
qed

definition demo_sender :: HeartbeatSender where
  "demo_sender = \<lparr>hb_endpoint = ''https://cdp/h'', hb_interval = seconds 30, hb_secret = b64_encode ''k'', hb_lastFlushTimestamp = 0\<rparr>"

lemma demo_heartbeat: "\<exists>s' req. sendHeartbeat (\<lambda>_. Some ''{}'') (demo_server 1\<lparr>ne_now := 60000000000, ne_after := 60000000009\<rparr>) (aw_agent demo_world) None demo_sender = (None, s', Some req)"
proof -
  have "\<exists>sig. SignRequest (hb_secret demo_sender) t n b = Inr sig" for t n b
  proof -
    have "b64_encode ''k'' \<noteq> []" by (simp only: b64_encode_Nil) simp
    then show ?thesis by (simp only: demo_sender_def HeartbeatSender.simps SignRequest_def b64_decode_encode option.case) simp
  qed
  then have "SignRequest (hb_secret demo_sender) t n b \<noteq> Inl e" for t n b e by (metis Inl_Inr_False)
  then show ?thesis
    by (auto simp: sendHeartbeat_def client_Do_def Let_def demo_server_def split: sum.splits)
qed

theorem heartbeat_signed_witness:
  "\<exists>s' req. sendHeartbeat (\<lambda>_. Some ''{}'') (demo_server 1\<lparr>ne_now := 60000000000, ne_after := 60000000009\<rparr>) (aw_agent demo_world) None demo_sender = (None, s', Some req)
     \<and> hb_lastFlushTimestamp s' = 60000000009"
proof -
  obtain s' req where h: "sendHeartbeat (\<lambda>_. Some ''{}'') (demo_server 1\<lparr>ne_now := 60000000000, ne_after := 60000000009\<rparr>) (aw_agent demo_world) None demo_sender = (None, s', Some req)"
    using demo_heartbeat by blast
  from heartbeat_signed[OF h] h show ?thesis by simp
qed

section \<open>Durable queues\<close>

text \<open>C35. \<open>Enqueue\<close> of the disk-backed queue refines appending to a list: on success the item is at the end
  under the next offset, the oldest slot has made room exactly when the capacity was reached and the policy is
  not to reject, and the invariant holds. The database is any one with the contract \<open>kv_store\<close>.\<close>

theorem durable_enqueue_refines:
  assumes "kv_store kv content" and "item_roundtrip ic" and "queue_inv content q" and "has_offsets q"
    and "badger_Enqueue kv ic now d q = (None, q')"
  shows "queue_inv content q' \<and> \<not> bq_closed q \<and> queue_items ic content q' =
      (if checkCapacity q = None then queue_items ic content q
       else filter (\<lambda>(i, _). unat (bq_readOffset q) < i) (queue_items ic content q)) @ [(unat (bq_writeOffset q), d)]
    \<and> (checkCapacity q \<noteq> None \<longrightarrow> qf_DropPolicy (bq_cfg q) \<noteq> RejectNew)"
  by (rule kv_store.Enqueue_refines[OF assms(1,3,4,2,5)])

definition stamped_items :: item_codec where
  "stamped_items = \<lparr>ic_marshal = (\<lambda>d t. if t = 0 then Some d else None), ic_parse = (\<lambda>v. Some (v, 0))\<rparr>"

lemma stamped_roundtrip: "item_roundtrip stamped_items"
  by (auto simp: item_roundtrip_def stamped_items_def split: if_splits)

definition demo_queue_config :: queue_Config where
  "demo_queue_config = \<lparr>qf_Stream = ''usage'', qf_WALPath = ''/q'', qf_MaxBytes = 100000, qf_MaxEvents = 2, qf_DropPolicy = DropOldest,
     qf_SegmentSize = 0\<rparr>"

definition demo_queue :: "(bytes \<times> bytes) list BadgerQueue" where
  "demo_queue = \<lparr>bq_cfg = demo_queue_config, bq_db = [], bq_writeOffset = 0, bq_readOffset = 0, bq_droppedCount = 0, bq_enqueuedCount = 0,
     bq_dequeuedCount = 0, bq_committedCount = 0, bq_closed = False\<rparr>"

lemma demo_queue_inv: "queue_inv map_of demo_queue" "has_offsets demo_queue"
  by (simp_all add: queue_inv_def has_offsets_def demo_queue_def demo_queue_config_def)

lemma demo_queue_empty: "queue_items ic map_of demo_queue = []"
  by (simp add: queue_items_def slots_def demo_queue_def)

lemma demo_enqueued: "\<exists>q'. badger_Enqueue (mem_kv 9) stamped_items 0 ''x'' demo_queue = (None, q')"
  by (simp add: badger_Enqueue_def demo_queue_def demo_queue_config_def checkCapacity_def approximateBytesUsed_def bq_depth_def
      write_item_def stamped_items_def mem_kv_def Let_def)

lemma demo_capacity: "checkCapacity demo_queue = None"
  by (simp add: demo_queue_def demo_queue_config_def checkCapacity_def approximateBytesUsed_def bq_depth_def)

theorem durable_enqueue_refines_witness:
  "\<exists>q'. badger_Enqueue (mem_kv 9) stamped_items 0 ''x'' demo_queue = (None, q')
     \<and> queue_inv map_of q' \<and> queue_items stamped_items map_of q' = [(0, ''x'')]"
proof -
  obtain q' where q: "badger_Enqueue (mem_kv 9) stamped_items 0 ''x'' demo_queue = (None, q')" using demo_enqueued by blast
  have "unat (bq_writeOffset demo_queue) = 0" by (simp add: demo_queue_def)
  with durable_enqueue_refines[OF mem.kv_store_axioms stamped_roundtrip demo_queue_inv q] q show ?thesis
    by (simp add: demo_capacity demo_queue_empty)
qed

text \<open>C36. Dequeue and commit refine taking from the front of the list: a batch is the first items in order, and
  committing its last offset removes exactly that batch, so nothing is lost or repeated by a consumer that
  commits what it handled.\<close>

theorem durable_dequeue_commit_refines:
  assumes "kv_store kv content" and "queue_inv content q"
    and "badger_DequeueBatch kv ic now n q = (Inr items, q1)" and "items \<noteq> []"
    and "badger_Commit kv (qi_Offset (last items)) q1 = (None, q2)"
  shows "map (\<lambda>i. (unat (qi_Offset i), qi_Data i)) items = take (nat n) (queue_items ic content q)
    \<and> queue_items ic content q2 = drop (nat n) (queue_items ic content q) \<and> queue_inv content q2"
  by (rule kv_store.dequeue_commit_refines[OF assms])

definition demo_queue_1 :: "(bytes \<times> bytes) list BadgerQueue" where
  "demo_queue_1 = demo_queue\<lparr>bq_db := [(formatKey ''usage'' 0, ''x'')], bq_writeOffset := 1\<rparr>"

lemma demo_queue_1_inv: "queue_inv map_of demo_queue_1"
  by (auto simp: queue_inv_def demo_queue_1_def demo_queue_def demo_queue_config_def intro!: exI[of _ 0])

lemma demo_dequeued:
  obtains items q1 where "badger_DequeueBatch (mem_kv 9) stamped_items 0 5 demo_queue_1 = (Inr items, q1)" "map qi_Offset items = [0]"
    "bq_cfg q1 = demo_queue_config" "bq_readOffset q1 = 0"
proof (cases "badger_DequeueBatch (mem_kv 9) stamped_items 0 5 demo_queue_1")
  case (Pair r q1)
  then obtain items where "r = Inr items" "map qi_Offset items = [0]" and q1: "bq_cfg q1 = demo_queue_config" "bq_readOffset q1 = 0"
    by (auto simp: badger_DequeueBatch_def demo_queue_1_def demo_queue_def demo_queue_config_def dequeue_from.simps mem_kv_def stamped_items_def Let_def)
  with Pair show ?thesis by (intro that[of items q1]) simp_all
qed

theorem durable_dequeue_commit_refines_witness:
  "\<exists>items q1 q2. badger_DequeueBatch (mem_kv 9) stamped_items 0 5 demo_queue_1 = (Inr items, q1)
     \<and> badger_Commit (mem_kv 9) (qi_Offset (last items)) q1 = (None, q2) \<and> queue_items stamped_items map_of q2 = []"
proof -
  obtain items q1 where d: "badger_DequeueBatch (mem_kv 9) stamped_items 0 5 demo_queue_1 = (Inr items, q1)" "map qi_Offset items = [0]"
    and q1: "bq_cfg q1 = demo_queue_config" "bq_readOffset q1 = 0" by (rule demo_dequeued)
  then have ne: "items \<noteq> []" "qi_Offset (last items) = 0" by (auto simp: map_eq_Cons_conv)
  then obtain q2 where c: "badger_Commit (mem_kv 9) (qi_Offset (last items)) q1 = (None, q2)"
    using q1 by (simp add: badger_Commit_def mem_kv_def Let_def)
  have "length (queue_items stamped_items map_of demo_queue_1) \<le> 5"
    by (simp add: queue_items_def slots_def slot_def demo_queue_1_def demo_queue_def split: option.splits)
  with durable_dequeue_commit_refines[OF mem.kv_store_axioms demo_queue_1_inv d(1) ne(1) c] d c show ?thesis by simp
qed

text \<open>C37. Nothing is lost by a restart: opening a queue with the same configuration on the database a queue left
  behind gives a queue with the same items under the same offsets, and the invariant.\<close>

theorem durable_queue_recovers:
  assumes "kv_store kv content" and "queue_inv content q" and "opened (qf_WALPath cfg) = Some (bq_db q)"
    and "default_config cfg = bq_cfg q" and "NewBadgerQueue kv opened cfg = Inr q'"
  shows "queue_inv content q' \<and> queue_items ic content q' = queue_items ic content q"
proof -
  let ?q0 = "\<lparr>bq_cfg = default_config cfg, bq_db = bq_db q, bq_writeOffset = 0, bq_readOffset = 0,
            bq_droppedCount = 0, bq_enqueuedCount = 0, bq_dequeuedCount = 0, bq_committedCount = 0, bq_closed = False\<rparr>"
  have "q' = recover kv ?q0" using assms(3,5) by (auto simp: NewBadgerQueue_def split: if_splits)
  with kv_store.recover_refines[OF assms(1,2), of ?q0 ic] assms(4) show ?thesis by simp
qed

theorem durable_queue_recovers_witness:
  "\<exists>q'. NewBadgerQueue (mem_kv 9) (\<lambda>_. Some (bq_db demo_queue_1)) demo_queue_config = Inr q'
     \<and> queue_items stamped_items map_of q' = queue_items stamped_items map_of demo_queue_1"
proof -
  obtain q' where q: "NewBadgerQueue (mem_kv 9) (\<lambda>_. Some (bq_db demo_queue_1)) demo_queue_config = Inr q'"
    by (simp add: NewBadgerQueue_def demo_queue_config_def mem_kv_def)
  have "default_config demo_queue_config = bq_cfg demo_queue_1"
    by (simp add: default_config_def demo_queue_config_def demo_queue_1_def demo_queue_def DropOldest_def)
  from durable_queue_recovers[OF mem.kv_store_axioms demo_queue_1_inv _ this q, of stamped_items] q show ?thesis by auto
qed

text \<open>C38. The disk-backed queue under any interleaving of producers, drops, batches and commits, on a database whose
  writes do not fail: no two accepted events have the same offset, an accepted event is stored under its offset
  unless a drop or a commit deleted that offset, every stored value belongs to an accepted event, and every
  delivered item is an accepted event under its own offset.\<close>

theorem concurrent_enqueue_stored:
  assumes "kv_store kv content" and "item_roundtrip ic" and "\<forall>k v d. kv_set kv k v d \<noteq> None"
    and "\<forall>offset. content (bq_db q) (formatKey (qf_Stream (bq_cfg q)) offset) = None"
    and "(badger_step kv ic)\<^sup>*\<^sup>* (badger_start q) m" and "unat (bq_writeOffset q) + bm_count m \<le> 2 ^ 64"
  shows "distinct (map fst (bm_accepted m))
    \<and> (\<forall>(offset, d)\<in>set (bm_accepted m). offset \<in> bm_removed m
         \<or> (\<exists>t v. ic_marshal ic d t = Some v \<and> content (bm_db m) (key_of m offset) = Some v))
    \<and> (\<forall>offset v. content (bm_db m) (key_of m offset) = Some v \<longrightarrow>
         (\<exists>d t. (offset, d) \<in> set (bm_accepted m) \<and> ic_marshal ic d t = Some v))
    \<and> (\<forall>i\<in>set (bm_delivered m). (qi_Offset i, qi_Data i) \<in> set (bm_accepted m))"
proof -
  have i: "accepted_stored content ic m \<and> stored_accepted content ic m \<and> delivered_accepted m \<and> unique_offsets (unat (bq_writeOffset q)) m"
    by (rule kv_store.badger_run_invariant[OF assms(1,5,3,2,4,6)])
  then have "distinct (map fst (bm_accepted m))" using unique_accepted assms(6) by blast
  with i show ?thesis unfolding accepted_stored_def stored_accepted_def delivered_accepted_def by fast
qed

lemma demo_queue_fresh: "\<forall>offset. map_of (bq_db demo_queue) (formatKey (qf_Stream (bq_cfg demo_queue)) offset) = None"
  by (simp add: demo_queue_def)

lemma total_kv_sets: "\<forall>k v d. kv_set (sized_kv (\<lambda>_. True)) k v d \<noteq> None"
  by (simp add: sized_kv_def)

text \<open>Two producers that both passed the capacity check before either reserved an offset.\<close>

lemma demo_parallel:
  obtains m where "(badger_step (sized_kv (\<lambda>_. True)) stamped_items)\<^sup>*\<^sup>* (badger_start demo_queue) m"
    "bm_accepted m = [(1, ''b''), (0, ''a'')]" "bm_reserved m = {#}" "bm_abandoned m = []"
proof -
  let ?S = "badger_step (sized_kv (\<lambda>_. True)) stamped_items" and ?k = "formatKey ''usage''" and ?s = "badger_start demo_queue"
  define m1 where "m1 = ?s\<lparr>bm_checked := {#''a''#}\<rparr>"
  define m2 where "m2 = ?s\<lparr>bm_checked := {#''b'', ''a''#}\<rparr>"
  define m3 where "m3 = (badger_start (demo_queue\<lparr>bq_writeOffset := 1\<rparr>))\<lparr>bm_checked := {#''b''#}, bm_reserved := {#(0, ''a'')#}\<rparr>"
  define m4 where "m4 = (badger_start (demo_queue\<lparr>bq_writeOffset := 2\<rparr>))\<lparr>bm_reserved := {#(1, ''b''), (0, ''a'')#}\<rparr>"
  define q5 where "q5 = demo_queue\<lparr>bq_writeOffset := 2, bq_db := [(?k 1, ''b'')], bq_enqueuedCount := 1\<rparr>"
  define m5 where "m5 = (badger_start q5)\<lparr>bm_reserved := {#(0, ''a'')#}, bm_accepted := [(1, ''b'')]\<rparr>"
  define q6 where "q6 = q5\<lparr>bq_db := [(?k 1, ''b''), (?k 0, ''a'')], bq_enqueuedCount := 2\<rparr>"
  define m6 where "m6 = (badger_start q6)\<lparr>bm_accepted := [(1, ''b''), (0, ''a'')]\<rparr>"
  note d = badger_start_def demo_queue_def demo_queue_config_def stamped_items_def sized_kv_def
  have c: "\<not> bq_closed demo_queue" by (simp add: demo_queue_def)
  have "?S ?s m1" using badger_step.check_room[of ?s] c demo_capacity by (simp add: m1_def badger_start_def)
  moreover have "?S m1 m2" using badger_step.check_room[of m1] c demo_capacity by (simp add: m1_def m2_def badger_start_def)
  moreover have "?S m2 m3" using reserved[of m2 "''a''" "{#''b''#}"] by (simp add: m2_def m3_def d)
  moreover have "?S m3 m4" using reserved[of m3 "''b''" "{#}"] by (simp add: m3_def m4_def d)
  moreover have "?S m4 m5"
    using badger_step.write_ok[of m4 1 "''b''" "{#(0, ''a'')#}" stamped_items 0 "''b''" "sized_kv (\<lambda>_. True)" "[(?k 1, ''b'')]"]
    by (simp add: m4_def m5_def q5_def d)
  moreover have "?S m5 m6"
    using badger_step.write_ok[of m5 0 "''a''" "{#}" stamped_items 0 "''a''" "sized_kv (\<lambda>_. True)" "[(?k 1, ''b''), (?k 0, ''a'')]"]
    by (simp add: m5_def m6_def q6_def q5_def d)
  ultimately have "?S\<^sup>*\<^sup>* ?s m6" by (meson rtranclp.rtrancl_into_rtrancl rtranclp.rtrancl_refl)
  then show thesis by (rule that) (simp_all add: m6_def badger_start_def)
qed

theorem concurrent_enqueue_stored_witness:
  "\<exists>m v. (badger_step (sized_kv (\<lambda>_. True)) stamped_items)\<^sup>*\<^sup>* (badger_start demo_queue) m
     \<and> bm_accepted m = [(1, ''b''), (0, ''a'')] \<and> distinct (map fst (bm_accepted m))"
proof -
  obtain m where m: "(badger_step (sized_kv (\<lambda>_. True)) stamped_items)\<^sup>*\<^sup>* (badger_start demo_queue) m"
    "bm_accepted m = [(1, ''b''), (0, ''a'')]" "bm_reserved m = {#}" "bm_abandoned m = []" by (rule demo_parallel)
  have "unat (bq_writeOffset demo_queue) + bm_count m \<le> 2 ^ 64"
    by (simp add: demo_queue_def bm_count_def bm_offsets_def m(2-4))
  from concurrent_enqueue_stored[OF sized.kv_store_axioms stamped_roundtrip total_kv_sets demo_queue_fresh m(1) this] m(1,2)
  show ?thesis by blast
qed

text \<open>C39. What the interleavings cost: an event that \<open>Enqueue\<close> accepted can be lost, with no call in flight and no
  drop counted. Without any failure, because a batch and a commit pass over an offset that another producer has
  reserved and not yet written; and without any commit, because a failed write takes back the offset counter that
  another producer has moved on, so that the next event overwrites an accepted one.\<close>

theorem concurrent_enqueue_loses:
  "(\<exists>m. (badger_step (sized_kv short_value) plain_items)\<^sup>*\<^sup>* (badger_start small_queue) m
      \<and> bm_abandoned m = [] \<and> lost map_of plain_items ''a'' m)
   \<and> (\<exists>m. (badger_step (sized_kv short_value) plain_items)\<^sup>*\<^sup>* (badger_start small_queue) m
      \<and> bm_removed m = {} \<and> lost map_of plain_items ''b'' m)"
  using slow_writer_loses failed_write_loses by blast

text \<open>\<open>Reprocess\<close> of a dead letter succeeds only for the oldest entry: it returns that entry's original event
  and stream and removes exactly it.\<close>

theorem reprocess_oldest:
  assumes "kv_store kv content" and "queue_inv content q"
    and "Reprocess kv ic unmarshal now offset q = (Inr (event, stream), q')"
  shows "\<exists>d rest e. queue_items ic content q = (unat offset, d) # rest \<and> unmarshal d = Some e
    \<and> event = de_OriginalEvent e \<and> stream = de_Stream e \<and> queue_items ic content q' = rest \<and> queue_inv content q'"
  by (rule kv_store.Reprocess_head[OF assms])

definition demo_letter :: DLQEntry where
  "demo_letter = \<lparr>de_OriginalEvent = ''ev'', de_Stream = ''usage'', de_Reason = ''r'', de_ErrorMessage = ''e'', de_FirstAttemptAt = 0,
     de_LastAttemptAt = 0, de_AttemptCount = 1, de_HTTPStatusCode = 0\<rparr>"

lemma demo_reprocessed: "\<exists>q'. Reprocess (mem_kv 9) stamped_items (\<lambda>_. Some demo_letter) 0 0 demo_queue_1 = (Inr (''ev'', ''usage''), q')"
  by (simp add: Reprocess_def badger_DequeueBatch_def badger_Commit_def demo_letter_def demo_queue_1_def demo_queue_def demo_queue_config_def
      dequeue_from.simps mem_kv_def stamped_items_def Let_def)

theorem reprocess_oldest_witness:
  "\<exists>q' d rest. Reprocess (mem_kv 9) stamped_items (\<lambda>_. Some demo_letter) 0 0 demo_queue_1 = (Inr (''ev'', ''usage''), q')
     \<and> queue_items stamped_items map_of demo_queue_1 = (0, d) # rest \<and> queue_items stamped_items map_of q' = rest"
proof -
  obtain q' where q: "Reprocess (mem_kv 9) stamped_items (\<lambda>_. Some demo_letter) 0 0 demo_queue_1 = (Inr (''ev'', ''usage''), q')"
    using demo_reprocessed by blast
  from reprocess_oldest[OF mem.kv_store_axioms demo_queue_1_inv q] q show ?thesis by auto
qed

section \<open>The Stripe rate limiter\<close>

text \<open>C40. A caller of the rate limiter is served: for a rate below \<open>2 ^ 19\<close> per second, once the clock of some round
  is a second past the last refill the wait ends by that round, with a token unless the context was cancelled,
  and the bucket stays within its bounds on every attempt whose refill does not overflow.\<close>

theorem rate_limiter_serves:
  assumes "bucket_ok rl" "sint (rl_maxRPS rl) < 2 ^ 19"
    and "\<forall>j\<le>k + n. rl_lastFill rl \<le> clock j \<and> clock j - rl_lastFill rl < 2 ^ 63"
    and "10 ^ 9 \<le> clock (k + n) - rl_lastFill rl" and "n < fuel"
  shows "(\<exists>ok rl'. acquire fuel conv clock cancelled k rl = Some (ok, rl') \<and> ((\<forall>j. \<not> cancelled j) \<longrightarrow> ok))
    \<and> (sint (tokensToAdd conv now rl) + sint (rl_maxRPS rl) < 2 ^ 63 \<longrightarrow> bucket_ok (snd (try_acquire conv now rl)))"
proof -
  obtain r where "acquire fuel conv clock cancelled k rl = Some r" "(\<forall>j. \<not> cancelled j) \<longrightarrow> fst r"
    using acquire_returns[OF assms] by blast
  moreover have "sint (tokensToAdd conv now rl) + sint (rl_maxRPS rl) < 2 ^ 63 \<Longrightarrow> bucket_ok (snd (try_acquire conv now rl))"
    using try_acquire_ok(1)[OF assms(1)] by (metis prod.collapse)
  ultimately show ?thesis by (cases r) auto
qed

theorem rate_limiter_serves_witness:
  "\<exists>rl'. acquire 25 (\<lambda>_. 0) (\<lambda>j. int j * 50000000) (\<lambda>_. False) 0 \<lparr>rl_maxRPS = 8, rl_tokens = 0, rl_lastFill = 0\<rparr> = Some (True, rl')"
proof -
  have "bucket_ok \<lparr>rl_maxRPS = 8, rl_tokens = 0, rl_lastFill = 0\<rparr>" by (simp add: bucket_ok_def)
  from rate_limiter_serves[where n = 20 and k = 0 and fuel = 25 and clock = "\<lambda>j. int j * 50000000" and cancelled = "\<lambda>_. False"
      and conv = "\<lambda>_. 0", OF this]
  have "\<exists>ok rl'. acquire 25 (\<lambda>_. 0) (\<lambda>j. int j * 50000000) (\<lambda>_. False) 0 \<lparr>rl_maxRPS = 8, rl_tokens = 0, rl_lastFill = 0\<rparr> = Some (ok, rl') \<and> ok"
    by simp
  then show ?thesis by auto
qed

end
